(* ===== verification/Prelude.thy ===== *)
theory Prelude
  imports Main "HOL-Library.Word"
begin

text \<open>
  What every component of the development shares: the machine types of the C source, its return
  codes, little-endian byte codecs, the C string and memory functions the source calls on fixed
  arrays, and the collections of facts the component proofs are run with.

  A C struct that is written to disk is a list of bytes here.  \<open>slice\<close> reads a field of it and
  \<open>splice_at\<close> is \<open>memcpy\<close> into it.  Unsigned integers are words of their width; C \<open>int\<close> values that
  carry return codes are \<open>int\<close>.
\<close>

unbundle bit_operations_syntax

section \<open>Types and collections\<close>

type_synonym u8 = "8 word"
type_synonym u16 = "16 word"
type_synonym u32 = "32 word"
type_synonym u64 = "64 word"
type_synonym bytes = "u8 list"

named_theorems codec_simps \<open>reading fields of encoded structs\<close>
named_theorems io_simps \<open>unfolding of i/o programs\<close>
named_theorems size_simps \<open>sizes and lengths of encoded structs\<close>

section \<open>Return codes (errno values and sanlock_rv.h)\<close>

abbreviation ENOENT :: int where "ENOENT \<equiv> 2"
abbreviation EAGAIN :: int where "EAGAIN \<equiv> 11"
abbreviation ENOMEM :: int where "ENOMEM \<equiv> 12"
abbreviation EINVAL :: int where "EINVAL \<equiv> 22"
abbreviation ENOSPC :: int where "ENOSPC \<equiv> 28"
abbreviation EBUSY :: int where "EBUSY \<equiv> 16"
abbreviation EEXIST :: int where "EEXIST \<equiv> 17"
abbreviation ENODEV :: int where "ENODEV \<equiv> 19"
abbreviation ENOTEMPTY :: int where "ENOTEMPTY \<equiv> 39"
abbreviation ENOCSI :: int where "ENOCSI \<equiv> 50"
abbreviation EMSGSIZE :: int where "EMSGSIZE \<equiv> 90"
abbreviation EINPROGRESS :: int where "EINPROGRESS \<equiv> 115"

abbreviation SANLK_OK :: int where "SANLK_OK \<equiv> 1"
abbreviation SANLK_ERROR :: int where "SANLK_ERROR \<equiv> -201"
abbreviation SANLK_AIO_TIMEOUT :: int where "SANLK_AIO_TIMEOUT \<equiv> -202"
abbreviation SANLK_DBLOCK_READ :: int where "SANLK_DBLOCK_READ \<equiv> -210"
abbreviation SANLK_DBLOCK_WRITE :: int where "SANLK_DBLOCK_WRITE \<equiv> -211"
abbreviation SANLK_DBLOCK_LVER :: int where "SANLK_DBLOCK_LVER \<equiv> -212"
abbreviation SANLK_DBLOCK_MBAL :: int where "SANLK_DBLOCK_MBAL \<equiv> -213"
abbreviation SANLK_DBLOCK_CHECKSUM :: int where "SANLK_DBLOCK_CHECKSUM \<equiv> -214"
abbreviation SANLK_LEADER_READ :: int where "SANLK_LEADER_READ \<equiv> -220"
abbreviation SANLK_LEADER_WRITE :: int where "SANLK_LEADER_WRITE \<equiv> -221"
abbreviation SANLK_LEADER_DIFF :: int where "SANLK_LEADER_DIFF \<equiv> -222"
abbreviation SANLK_LEADER_MAGIC :: int where "SANLK_LEADER_MAGIC \<equiv> -223"
abbreviation SANLK_LEADER_VERSION :: int where "SANLK_LEADER_VERSION \<equiv> -224"
abbreviation SANLK_LEADER_SECTORSIZE :: int where "SANLK_LEADER_SECTORSIZE \<equiv> -225"
abbreviation SANLK_LEADER_LOCKSPACE :: int where "SANLK_LEADER_LOCKSPACE \<equiv> -226"
abbreviation SANLK_LEADER_RESOURCE :: int where "SANLK_LEADER_RESOURCE \<equiv> -227"
abbreviation SANLK_LEADER_NUMHOSTS :: int where "SANLK_LEADER_NUMHOSTS \<equiv> -228"
abbreviation SANLK_LEADER_CHECKSUM :: int where "SANLK_LEADER_CHECKSUM \<equiv> -229"
abbreviation SANLK_ACQUIRE_LVER :: int where "SANLK_ACQUIRE_LVER \<equiv> -240"
abbreviation SANLK_ACQUIRE_LOCKSPACE :: int where "SANLK_ACQUIRE_LOCKSPACE \<equiv> -241"
abbreviation SANLK_ACQUIRE_IDDISK :: int where "SANLK_ACQUIRE_IDDISK \<equiv> -242"
abbreviation SANLK_ACQUIRE_IDLIVE :: int where "SANLK_ACQUIRE_IDLIVE \<equiv> -243"
abbreviation SANLK_ACQUIRE_OWNED :: int where "SANLK_ACQUIRE_OWNED \<equiv> -244"
abbreviation SANLK_ACQUIRE_OTHER :: int where "SANLK_ACQUIRE_OTHER \<equiv> -245"
abbreviation SANLK_ACQUIRE_OWNED_RETRY :: int where "SANLK_ACQUIRE_OWNED_RETRY \<equiv> -247"
abbreviation SANLK_RELEASE_LVER :: int where "SANLK_RELEASE_LVER \<equiv> -250"
abbreviation SANLK_RELEASE_OWNER :: int where "SANLK_RELEASE_OWNER \<equiv> -251"
abbreviation SANLK_RENEW_OWNER :: int where "SANLK_RENEW_OWNER \<equiv> -260"
abbreviation SANLK_RENEW_DIFF :: int where "SANLK_RENEW_DIFF \<equiv> -261"
abbreviation SANLK_HOSTID_BUSY :: int where "SANLK_HOSTID_BUSY \<equiv> -262"

section \<open>Little-endian fields\<close>

primrec le_put :: "nat \<Rightarrow> 'a::len word \<Rightarrow> bytes" where
  "le_put 0 w = []"
| "le_put (Suc n) w = ucast w # le_put n (drop_bit 8 w)"

primrec le_get :: "bytes \<Rightarrow> 'a::len word" where
  "le_get [] = 0"
| "le_get (b # bs) = ucast b OR push_bit 8 (le_get bs)"

lemma length_le_put [simp, size_simps]: "length (le_put n w) = n"
  by (induction n arbitrary: w) auto

lemma le_get_le_put_take_bit: "le_get (le_put n w) = take_bit (8 * n) (w :: 'a::len word)"
proof (induction n arbitrary: w)
  case 0
  then show ?case by simp
next
  case (Suc n)
  have "(ucast (ucast w :: u8) :: 'a word) = take_bit 8 w"
    by (rule bit_word_eqI) (auto simp: bit_ucast_iff bit_take_bit_iff)
  moreover have "take_bit 8 w OR push_bit 8 (take_bit (8 * n) (drop_bit 8 w)) = take_bit (8 + 8 * n) w"
    by (rule bit_word_eqI) (auto simp: bit_or_iff bit_take_bit_iff bit_push_bit_iff bit_drop_bit_eq)
  ultimately show ?case using Suc by simp
qed

lemma le_get_le_put [simp]:
  "LENGTH('a) \<le> 8 * n \<Longrightarrow> le_get (le_put n w) = (w :: 'a::len word)"
  by (simp add: le_get_le_put_take_bit take_bit_word_eq_self)

lemma take_bit_le_get:
  "8 * length bs \<le> m \<Longrightarrow> take_bit m (le_get bs) = (le_get bs :: 'a::len word)"
proof (induction bs arbitrary: m)
  case Nil
  then show ?case by simp
next
  case (Cons b bs)
  define k where "k = m - 8"
  have m: "m = 8 + k" and k: "8 * length bs \<le> k"
    using Cons.prems by (simp_all add: k_def)
  have "take_bit (8 + k) (ucast b OR push_bit 8 (le_get bs)) =
      (ucast b OR push_bit 8 (take_bit k (le_get bs)) :: 'a word)"
    by (rule bit_word_eqI)
      (auto simp: bit_or_iff bit_take_bit_iff bit_push_bit_iff bit_ucast_iff dest: bit_imp_le_length)
  then show ?case using Cons.IH [OF k] m by simp
qed

lemma le_put_le_get:
  "8 * length bs \<le> LENGTH('a) \<Longrightarrow> le_put (length bs) (le_get bs :: 'a::len word) = bs"
proof (induction bs)
  case Nil
  then show ?case by simp
next
  case (Cons b bs)
  have 1: "ucast (ucast b OR push_bit 8 (le_get bs) :: 'a word) = b"
    using Cons.prems by (intro bit_word_eqI) (auto simp: bit_ucast_iff bit_or_iff bit_push_bit_iff)
  have "drop_bit 8 (ucast b OR push_bit 8 (le_get bs) :: 'a word) = take_bit (LENGTH('a) - 8) (le_get bs)"
    by (rule bit_word_eqI)
      (auto simp: bit_ucast_iff bit_or_iff bit_push_bit_iff bit_drop_bit_eq bit_take_bit_iff
        dest: bit_imp_le_length)
  moreover have "take_bit (LENGTH('a) - 8) (le_get bs) = (le_get bs :: 'a word)"
    using Cons.prems by (intro take_bit_le_get) simp
  ultimately show ?case using 1 Cons by simp
qed

lemma xor_right_cancel: "a XOR c = b XOR c \<longleftrightarrow> a = (b :: 'a::len word)"
proof
  assume "a XOR c = b XOR c"
  then have "(a XOR c) XOR c = (b XOR c) XOR c" by simp
  then show "a = b" by (simp only: xor.assoc xor_self_eq xor.right_neutral)
qed simp

lemma xor_left_cancel: "c XOR a = c XOR b \<longleftrightarrow> a = (b :: 'a::len word)"
  by (simp only: xor.commute [of c] xor_right_cancel)

section \<open>Reading and writing inside byte buffers\<close>

definition slice :: "nat \<Rightarrow> nat \<Rightarrow> 'a list \<Rightarrow> 'a list" where
  "slice off n bs = take n (drop off bs)"

definition splice_at :: "nat \<Rightarrow> 'a list \<Rightarrow> 'a list \<Rightarrow> 'a list" where
  "splice_at off src dst = take off dst @ src @ drop (off + length src) dst"

lemma length_slice [simp, size_simps]: "off + n \<le> length bs \<Longrightarrow> length (slice off n bs) = n"
  by (simp add: slice_def)

lemma length_splice [simp, size_simps]:
  "off + length src \<le> length dst \<Longrightarrow> length (splice_at off src dst) = length dst"
  by (simp add: splice_at_def)

lemma slice_append_left [codec_simps]:
  "off + n \<le> length xs \<Longrightarrow> slice off n (xs @ ys) = slice off n xs"
  by (simp add: slice_def)

lemma slice_append_right [codec_simps]:
  "length xs \<le> off \<Longrightarrow> slice off n (xs @ ys) = slice (off - length xs) n ys"
  by (simp add: slice_def)

lemma slice_all [codec_simps]: "length bs = n \<Longrightarrow> slice 0 n bs = bs"
  by (simp add: slice_def)

lemma slice_zero_append [codec_simps]: "length xs = n \<Longrightarrow> slice 0 n (xs @ ys) = xs"
  by (simp add: slice_def)

lemma slice_slice: "off' + n' \<le> n \<Longrightarrow> slice off' n' (slice off n bs) = slice (off + off') n' bs"
  by (simp add: slice_def take_drop add.commute min_def)

lemma slice_splice_same [simp]:
  "off + length src \<le> length dst \<Longrightarrow> n = length src \<Longrightarrow> slice off n (splice_at off src dst) = src"
  by (simp add: slice_def splice_at_def)

lemma slice_splice_before:
  "off' + n \<le> off \<Longrightarrow> off + length src \<le> length dst \<Longrightarrow>
   slice off' n (splice_at off src dst) = slice off' n dst"
  by (simp add: slice_def splice_at_def drop_take)

lemma slice_splice_after:
  assumes "off + length src \<le> off'" and "off + length src \<le> length dst"
  shows "slice off' n (splice_at off src dst) = slice off' n dst"
proof -
  have "drop off' (splice_at off src dst) = drop off' dst"
    using assms by (simp add: splice_at_def)
  then show ?thesis by (simp add: slice_def)
qed

lemma slice_map_upt:
  "off + n \<le> len \<Longrightarrow> slice off n (map f [a..<a + len]) = map f [a + off..<a + off + n]"
  by (simp add: slice_def drop_map take_map)

lemma append_slice: "off + n + m \<le> length bs \<Longrightarrow> slice off n bs @ slice (off + n) m bs = slice off (n + m) bs"
  by (simp add: slice_def take_add add.commute [of off n])

lemma le_put_le_get_eq [codec_simps]:
  "length bs = n \<Longrightarrow> 8 * n \<le> LENGTH('a) \<Longrightarrow> le_put n (le_get bs :: 'a::len word) = bs"
  using le_put_le_get [where 'a = 'a, of bs] by simp

text \<open>Consecutive slices glue together from the right.\<close>

lemma slice_drop: "length bs \<le> off + n \<Longrightarrow> slice off n bs = drop off bs"
  by (simp add: slice_def)

lemma slice_glue: "k = off + n \<Longrightarrow> slice off n bs @ drop k bs = drop off bs"
proof -
  have "drop (off + n) bs = drop n (drop off bs)" by (simp add: add.commute)
  then show "k = off + n \<Longrightarrow> slice off n bs @ drop k bs = drop off bs"
    by (simp add: slice_def del: drop_drop)
qed

section \<open>C strings in fixed arrays\<close>

text \<open>
  \<open>strneq n a b\<close> is \<open>strncmp(a, b, n) == 0\<close>.  The end of a list reads as the terminating null byte.
\<close>

fun strneq :: "nat \<Rightarrow> bytes \<Rightarrow> bytes \<Rightarrow> bool" where
  "strneq 0 a b = True"
| "strneq (Suc n) [] [] = True"
| "strneq (Suc n) (x # a) [] = (x = 0)"
| "strneq (Suc n) [] (y # b) = (y = 0)"
| "strneq (Suc n) (x # a) (y # b) = (x = y \<and> (x = 0 \<or> strneq n a b))"

definition cstr :: "bytes \<Rightarrow> bytes" where
  "cstr s = takeWhile (\<lambda>c. c \<noteq> 0) s"

definition strncpy :: "nat \<Rightarrow> bytes \<Rightarrow> bytes" where
  "strncpy n src = (let s = take n (cstr src) in s @ replicate (n - length s) 0)"

text \<open>\<open>snprintf(dst, n, "%s", src)\<close>: at most \<open>n - 1\<close> bytes and a null byte; the rest of \<open>dst\<close> stays.\<close>

definition snprintf_s :: "bytes \<Rightarrow> nat \<Rightarrow> bytes \<Rightarrow> bytes" where
  "snprintf_s dst n src = splice_at 0 (take (n - 1) (cstr src) @ [0]) dst"

text \<open>String literals, and the output of the conversion \<open>%llu\<close>.\<close>

definition ascii :: "string \<Rightarrow> bytes" where
  "ascii s = map (\<lambda>c. of_nat (of_char c)) s"

fun decimal :: "nat \<Rightarrow> bytes" where
  "decimal n = (if n < 10 then [48 + of_nat n] else decimal (n div 10) @ [48 + of_nat (n mod 10)])"

declare decimal.simps [simp del]

lemma strneq_cstr: "strneq n a b \<longleftrightarrow> take n (cstr a) = take n (cstr b)"
  by (induction n a b rule: strneq.induct) (auto simp: cstr_def)

lemma strneq_refl [simp]: "strneq n a a"
  by (simp add: strneq_cstr)

lemma strneq_sym: "strneq n a b \<longleftrightarrow> strneq n b a"
  by (auto simp: strneq_cstr)

lemma length_strncpy [simp, size_simps]: "length (strncpy n src) = n"
  by (simp add: strncpy_def Let_def)

lemma cstr_append_zeros: "0 \<notin> set s \<Longrightarrow> cstr (s @ replicate k 0) = s"
  by (induction s) (auto simp: cstr_def takeWhile_eq_Nil_iff)

lemma zero_notin_cstr: "0 \<notin> set (cstr s)"
  by (auto simp: cstr_def dest: set_takeWhileD)

lemma cstr_strncpy: "cstr (strncpy n src) = take n (cstr src)"
proof -
  have "0 \<notin> set (take n (cstr src))"
    using zero_notin_cstr in_set_takeD by metis
  then show ?thesis by (simp add: strncpy_def Let_def cstr_append_zeros)
qed

lemma strneq_strncpy [simp]: "strneq n (strncpy n src) src"
  by (simp add: strneq_cstr cstr_strncpy)

lemma cstr_append_zero: "0 \<notin> set s \<Longrightarrow> cstr (s @ 0 # t) = s"
  by (induction s) (auto simp: cstr_def)

lemma strneq_snprintf_s: "m < n \<Longrightarrow> strneq m (snprintf_s dst n src) src"
proof -
  assume m: "m < n"
  have "0 \<notin> set (take (n - 1) (cstr src))" using zero_notin_cstr in_set_takeD by metis
  then have "cstr (snprintf_s dst n src) = take (n - 1) (cstr src)" by (simp add: snprintf_s_def splice_at_def cstr_append_zero)
  moreover have "min m (n - 1) = m" using m by simp
  ultimately show ?thesis by (simp add: strneq_cstr)
qed

lemma length_snprintf_s [simp, size_simps]:
  "length dst = n \<Longrightarrow> 0 < n \<Longrightarrow> length (snprintf_s dst n src) = n"
  by (simp add: snprintf_s_def splice_at_def)

section \<open>Transition systems\<close>

inductive reach :: "('s \<Rightarrow> bool) \<Rightarrow> ('s \<Rightarrow> 's \<Rightarrow> bool) \<Rightarrow> 's \<Rightarrow> bool" for init step where
  init: "init s \<Longrightarrow> reach init step s"
| step: "reach init step s \<Longrightarrow> step s s' \<Longrightarrow> reach init step s'"

lemma reach_steps: "step\<^sup>*\<^sup>* s s' \<Longrightarrow> reach init step s \<Longrightarrow> reach init step s'"
proof (induction rule: rtranclp_induct)
  case (step s' s'')
  then show ?case using reach.step [of init step s' s''] by simp
qed

text \<open>An inductive invariant holds in all reachable states.\<close>

locale transition_invariant =
  fixes init :: "'s \<Rightarrow> bool" and step :: "'s \<Rightarrow> 's \<Rightarrow> bool" and inv :: "'s \<Rightarrow> bool"
  assumes inv_init: "init s \<Longrightarrow> inv s"
    and inv_step: "inv s \<Longrightarrow> step s s' \<Longrightarrow> inv s'"
begin

lemma reach_inv: "reach init step s \<Longrightarrow> inv s"
proof (induction rule: reach.induct)
  case (step s s')
  then show ?case using inv_step [of s s'] by simp
qed (rule inv_init)

end

text \<open>
  Forward simulation: every step of the concrete system is matched by some steps of the abstract one.
\<close>

locale simulation =
  fixes cinit :: "'c \<Rightarrow> bool" and cstep :: "'c \<Rightarrow> 'c \<Rightarrow> bool"
    and ainit :: "'a \<Rightarrow> bool" and astep :: "'a \<Rightarrow> 'a \<Rightarrow> bool"
    and rel :: "'c \<Rightarrow> 'a \<Rightarrow> bool"
  assumes sim_init: "cinit s \<Longrightarrow> \<exists>a. ainit a \<and> rel s a"
    and sim_step: "rel s a \<Longrightarrow> reach ainit astep a \<Longrightarrow> cstep s s' \<Longrightarrow> \<exists>a'. astep\<^sup>*\<^sup>* a a' \<and> rel s' a'"
begin

lemma reach_sim: "reach cinit cstep s \<Longrightarrow> \<exists>a. reach ainit astep a \<and> rel s a"
proof (induction rule: reach.induct)
  case (init s)
  then obtain a where "ainit a" "rel s a" using sim_init by blast
  then show ?case using reach.init [of ainit a astep] by blast
next
  case (step s s')
  then obtain a where a: "reach ainit astep a" "rel s a" by blast
  then obtain a' where "astep\<^sup>*\<^sup>* a a'" "rel s' a'" using sim_step [of s a s'] step.hyps(2) by blast
  then show ?case using reach_steps [of astep a a' ainit] a(1) by blast
qed

end

end
