(* ===== verification/Crc32c.thy ===== *)
theory Crc32c
  imports Prelude
begin

text \<open>
  \<open>src/crc32c.c\<close>: the table-driven CRC-32C that every leader record and every ballot block carries.
  The table is copied entry by entry.  The lemmas compare the table-driven loop with the bit-serial
  definition of the polynomial, and show which corruptions the checksum cannot miss.
\<close>

section \<open>The code\<close>

definition crc32c_table :: "u32 list" where
  "crc32c_table =
    [0x00000000, 0xF26B8303, 0xE13B70F7, 0x1350F3F4, 0xC79A971F, 0x35F1141C,
     0x26A1E7E8, 0xD4CA64EB, 0x8AD958CF, 0x78B2DBCC, 0x6BE22838, 0x9989AB3B,
     0x4D43CFD0, 0xBF284CD3, 0xAC78BF27, 0x5E133C24, 0x105EC76F, 0xE235446C,
     0xF165B798, 0x030E349B, 0xD7C45070, 0x25AFD373, 0x36FF2087, 0xC494A384,
     0x9A879FA0, 0x68EC1CA3, 0x7BBCEF57, 0x89D76C54, 0x5D1D08BF, 0xAF768BBC,
     0xBC267848, 0x4E4DFB4B, 0x20BD8EDE, 0xD2D60DDD, 0xC186FE29, 0x33ED7D2A,
     0xE72719C1, 0x154C9AC2, 0x061C6936, 0xF477EA35, 0xAA64D611, 0x580F5512,
     0x4B5FA6E6, 0xB93425E5, 0x6DFE410E, 0x9F95C20D, 0x8CC531F9, 0x7EAEB2FA,
     0x30E349B1, 0xC288CAB2, 0xD1D83946, 0x23B3BA45, 0xF779DEAE, 0x05125DAD,
     0x1642AE59, 0xE4292D5A, 0xBA3A117E, 0x4851927D, 0x5B016189, 0xA96AE28A,
     0x7DA08661, 0x8FCB0562, 0x9C9BF696, 0x6EF07595, 0x417B1DBC, 0xB3109EBF,
     0xA0406D4B, 0x522BEE48, 0x86E18AA3, 0x748A09A0, 0x67DAFA54, 0x95B17957,
     0xCBA24573, 0x39C9C670, 0x2A993584, 0xD8F2B687, 0x0C38D26C, 0xFE53516F,
     0xED03A29B, 0x1F682198, 0x5125DAD3, 0xA34E59D0, 0xB01EAA24, 0x42752927,
     0x96BF4DCC, 0x64D4CECF, 0x77843D3B, 0x85EFBE38, 0xDBFC821C, 0x2997011F,
     0x3AC7F2EB, 0xC8AC71E8, 0x1C661503, 0xEE0D9600, 0xFD5D65F4, 0x0F36E6F7,
     0x61C69362, 0x93AD1061, 0x80FDE395, 0x72966096, 0xA65C047D, 0x5437877E,
     0x4767748A, 0xB50CF789, 0xEB1FCBAD, 0x197448AE, 0x0A24BB5A, 0xF84F3859,
     0x2C855CB2, 0xDEEEDFB1, 0xCDBE2C45, 0x3FD5AF46, 0x7198540D, 0x83F3D70E,
     0x90A324FA, 0x62C8A7F9, 0xB602C312, 0x44694011, 0x5739B3E5, 0xA55230E6,
     0xFB410CC2, 0x092A8FC1, 0x1A7A7C35, 0xE811FF36, 0x3CDB9BDD, 0xCEB018DE,
     0xDDE0EB2A, 0x2F8B6829, 0x82F63B78, 0x709DB87B, 0x63CD4B8F, 0x91A6C88C,
     0x456CAC67, 0xB7072F64, 0xA457DC90, 0x563C5F93, 0x082F63B7, 0xFA44E0B4,
     0xE9141340, 0x1B7F9043, 0xCFB5F4A8, 0x3DDE77AB, 0x2E8E845F, 0xDCE5075C,
     0x92A8FC17, 0x60C37F14, 0x73938CE0, 0x81F80FE3, 0x55326B08, 0xA759E80B,
     0xB4091BFF, 0x466298FC, 0x1871A4D8, 0xEA1A27DB, 0xF94AD42F, 0x0B21572C,
     0xDFEB33C7, 0x2D80B0C4, 0x3ED04330, 0xCCBBC033, 0xA24BB5A6, 0x502036A5,
     0x4370C551, 0xB11B4652, 0x65D122B9, 0x97BAA1BA, 0x84EA524E, 0x7681D14D,
     0x2892ED69, 0xDAF96E6A, 0xC9A99D9E, 0x3BC21E9D, 0xEF087A76, 0x1D63F975,
     0x0E330A81, 0xFC588982, 0xB21572C9, 0x407EF1CA, 0x532E023E, 0xA145813D,
     0x758FE5D6, 0x87E466D5, 0x94B49521, 0x66DF1622, 0x38CC2A06, 0xCAA7A905,
     0xD9F75AF1, 0x2B9CD9F2, 0xFF56BD19, 0x0D3D3E1A, 0x1E6DCDEE, 0xEC064EED,
     0xC38D26C4, 0x31E6A5C7, 0x22B65633, 0xD0DDD530, 0x0417B1DB, 0xF67C32D8,
     0xE52CC12C, 0x1747422F, 0x49547E0B, 0xBB3FFD08, 0xA86F0EFC, 0x5A048DFF,
     0x8ECEE914, 0x7CA56A17, 0x6FF599E3, 0x9D9E1AE0, 0xD3D3E1AB, 0x21B862A8,
     0x32E8915C, 0xC083125F, 0x144976B4, 0xE622F5B7, 0xF5720643, 0x07198540,
     0x590AB964, 0xAB613A67, 0xB831C993, 0x4A5A4A90, 0x9E902E7B, 0x6CFBAD78,
     0x7FAB5E8C, 0x8DC0DD8F, 0xE330A81A, 0x115B2B19, 0x020BD8ED, 0xF0605BEE,
     0x24AA3F05, 0xD6C1BC06, 0xC5914FF2, 0x37FACCF1, 0x69E9F0D5, 0x9B8273D6,
     0x88D28022, 0x7AB90321, 0xAE7367CA, 0x5C18E4C9, 0x4F48173D, 0xBD23943E,
     0xF36E6F75, 0x0105EC76, 0x12551F82, 0xE03E9C81, 0x34F4F86A, 0xC69F7B69,
     0xD5CF889D, 0x27A40B9E, 0x79B737BA, 0x8BDCB4B9, 0x988C474D, 0x6AE7C44E,
     0xBE2DA0A5, 0x4C4623A6, 0x5F16D052, 0xAD7D5351]"

definition crc32c_step :: "u32 \<Rightarrow> u8 \<Rightarrow> u32" where
  "crc32c_step crc b = crc32c_table ! unat ((crc XOR ucast b) AND 0xFF) XOR drop_bit 8 crc"

primrec crc32c :: "u32 \<Rightarrow> bytes \<Rightarrow> u32" where
  "crc32c crc [] = crc"
| "crc32c crc (b # bs) = crc32c (crc32c_step crc b) bs"

section \<open>Bit-serial reference\<close>

text \<open>
  The header of the table gives the polynomial \<open>0x1EDC6F41\<close> with input and output reflected, so the
  register shifts right and the feedback constant is the polynomial with its 32 bits reversed.
\<close>

definition crc32c_poly :: u32 where
  "crc32c_poly = 0x82F63B78"

definition crc_bit :: "u32 \<Rightarrow> u32" where
  "crc_bit c = (if bit c 0 then drop_bit 1 c XOR crc32c_poly else drop_bit 1 c)"

definition crc_byte :: "u32 \<Rightarrow> u8 \<Rightarrow> u32" where
  "crc_byte crc b = (crc_bit ^^ 8) (crc XOR ucast b)"

primrec crc32c_serial :: "u32 \<Rightarrow> bytes \<Rightarrow> u32" where
  "crc32c_serial crc [] = crc"
| "crc32c_serial crc (b # bs) = crc32c_serial (crc_byte crc b) bs"

lemma crc32c_poly_reflected:
  "list_all (\<lambda>i. bit crc32c_poly i = bit (0x1EDC6F41 :: u32) (31 - i)) [0..<32]"
  by code_simp

lemma crc_bit_xor: "crc_bit (x XOR y) = crc_bit x XOR crc_bit y"
  by (rule bit_word_eqI) (auto simp: crc_bit_def bit_xor_iff bit_drop_bit_eq)

lemma crc_bits_xor: "(crc_bit ^^ n) (x XOR y) = (crc_bit ^^ n) x XOR (crc_bit ^^ n) y"
  by (induction n) (simp_all add: crc_bit_xor)

lemma crc_bits_low_zero:
  "(\<forall>i < n. \<not> bit x i) \<Longrightarrow> (crc_bit ^^ n) x = drop_bit n x"
proof (induction n arbitrary: x)
  case 0
  then show ?case by simp
next
  case (Suc n)
  have "crc_bit x = drop_bit 1 x"
    using Suc.prems by (simp add: crc_bit_def)
  moreover have "\<forall>i < n. \<not> bit (drop_bit 1 x) i"
    using Suc.prems by (simp add: bit_drop_bit_eq)
  ultimately have "(crc_bit ^^ n) (crc_bit x) = drop_bit n (drop_bit 1 x)"
    using Suc.IH by simp
  then show ?case by (simp add: funpow_swap1)
qed

text \<open>The 256 entries are evaluated by the simplifier, one shift register step at a time.\<close>

lemma crc_bit_8:
  "(crc_bit ^^ 8) x = crc_bit (crc_bit (crc_bit (crc_bit (crc_bit (crc_bit (crc_bit (crc_bit x)))))))"
  by (simp add: numeral_eq_Suc)

lemma crc_bit_even: "\<not> bit c 0 \<Longrightarrow> crc_bit c = drop_bit 1 c"
  by (simp add: crc_bit_def)

lemma crc_bit_odd: "bit c 0 \<Longrightarrow> crc_bit c = drop_bit 1 c XOR 0x82F63B78"
  by (simp add: crc_bit_def crc32c_poly_def)

lemma crc32c_table_serial: "crc32c_table = map (\<lambda>i. (crc_bit ^^ 8) (of_nat i)) [0..<256]"
  by (simp add: upt_rec crc_bit_8 crc_bit_even crc_bit_odd crc32c_table_def)

lemma length_crc32c_table [size_simps]: "length crc32c_table = 256"
  by (simp add: crc32c_table_serial)

lemma crc32c_step_serial: "crc32c_step crc b = crc_byte crc b"
proof -
  define x where "x = crc XOR ucast b"
  have low: "unat (x AND 0xFF) < 256"
    using word_and_le1 [of x "0xFF"] by (simp add: word_le_nat_alt)
  have ff: "(0xFF :: u32) = mask 8"
    by (simp add: mask_eq_exp_minus_1)
  have split: "x = (x AND 0xFF) XOR push_bit 8 (drop_bit 8 x)"
    by (rule bit_word_eqI) (auto simp: bit_xor_iff bit_and_iff bit_push_bit_iff bit_drop_bit_eq ff bit_mask_iff)
  have "(crc_bit ^^ 8) x = (crc_bit ^^ 8) (x AND 0xFF) XOR (crc_bit ^^ 8) (push_bit 8 (drop_bit 8 x))"
    by (subst split) (rule crc_bits_xor)
  also have "(crc_bit ^^ 8) (push_bit 8 (drop_bit 8 x)) = drop_bit 8 (push_bit 8 (drop_bit 8 x))"
    by (rule crc_bits_low_zero) (simp add: bit_push_bit_iff)
  also have "drop_bit 8 (push_bit 8 (drop_bit 8 x)) = drop_bit 8 crc"
    by (rule bit_word_eqI) (auto simp: x_def bit_drop_bit_eq bit_push_bit_iff bit_xor_iff bit_ucast_iff dest: bit_imp_le_length)
  also have "(crc_bit ^^ 8) (x AND 0xFF) = crc32c_table ! unat (x AND 0xFF)"
    using low by (simp add: crc32c_table_serial)
  finally show ?thesis by (simp add: crc32c_step_def crc_byte_def x_def)
qed

text \<open>
  C30. The table-driven \<open>crc32c\<close> of the source computes the bit-serial CRC-32C (polynomial 0x1EDC6F41,
  reflected) of every buffer from every starting value.
\<close>

theorem crc32c_is_serial: "crc32c crc bs = crc32c_serial crc bs"
  by (induction bs arbitrary: crc) (simp_all add: crc32c_step_serial)

section \<open>Corruption that the checksum cannot miss\<close>

lemma crc_bit_inj: "crc_bit x = crc_bit y \<Longrightarrow> x = y"
proof -
  assume eq: "crc_bit x = crc_bit y"
  have top: "bit (crc_bit z) 31 = bit z 0" for z
    by (auto simp: crc_bit_def crc32c_poly_def bit_xor_iff bit_drop_bit_eq dest: bit_imp_le_length)
  have low: "bit x 0 = bit y 0"
    using eq top [of x] top [of y] by simp
  then have "drop_bit 1 x = drop_bit 1 y"
    using eq by (simp add: crc_bit_def xor_right_cancel split: if_splits)
  then have "bit (drop_bit 1 x) n = bit (drop_bit 1 y) n" for n
    by simp
  then have "bit x (Suc n) = bit y (Suc n)" for n
    by (simp add: bit_drop_bit_eq)
  with low have "bit x n = bit y n" for n
    by (cases n) simp_all
  then show "x = y"
    by (intro bit_word_eqI) simp
qed

lemma crc_bits_inj: "(crc_bit ^^ n) x = (crc_bit ^^ n) y \<Longrightarrow> x = y"
  by (induction n) (auto dest: crc_bit_inj)

lemma crc_bits_shift_in:
  assumes "take_bit 24 y = y"
  shows "(crc_bit ^^ 8) x XOR y = (crc_bit ^^ 8) (x XOR push_bit 8 y)"
proof -
  have "(crc_bit ^^ 8) (push_bit 8 y) = drop_bit 8 (push_bit 8 y)"
    by (rule crc_bits_low_zero) (simp add: bit_push_bit_iff)
  also have "\<dots> = take_bit 24 y"
    by (rule bit_word_eqI) (auto simp: bit_drop_bit_eq bit_push_bit_iff bit_take_bit_iff)
  finally show ?thesis using assms by (simp add: crc_bits_xor)
qed

text \<open>Up to four bytes go through the register as one 32-bit word.\<close>

lemma crc32c_word:
  "length bs \<le> 4 \<Longrightarrow> crc32c crc bs = (crc_bit ^^ (8 * length bs)) (crc XOR le_get bs)"
proof (induction bs arbitrary: crc)
  case Nil
  then show ?case by simp
next
  case (Cons b bs)
  have small: "take_bit 24 (le_get bs :: u32) = le_get bs"
    using Cons.prems by (intro take_bit_le_get) simp
  have "crc32c crc (b # bs) = (crc_bit ^^ (8 * length bs)) ((crc_bit ^^ 8) (crc XOR ucast b) XOR le_get bs)"
    using Cons by (simp add: crc32c_step_serial crc_byte_def)
  also have "\<dots> = (crc_bit ^^ (8 * length bs)) ((crc_bit ^^ 8) (crc XOR ucast b XOR push_bit 8 (le_get bs)))"
    using small by (simp add: crc_bits_shift_in xor.assoc)
  also have "crc XOR ucast b XOR push_bit 8 (le_get bs) = crc XOR le_get (b # bs)"
    by (rule bit_word_eqI)
      (auto simp: bit_xor_iff bit_or_iff bit_push_bit_iff bit_ucast_iff dest: bit_imp_le_length)
  finally have "crc32c crc (b # bs) = (crc_bit ^^ (8 * length bs + 8)) (crc XOR le_get (b # bs))"
    by (simp only: funpow_add o_apply)
  then show ?case by (simp only: length_Cons mult_Suc_right add.commute)
qed

lemma crc32c_append: "crc32c crc (xs @ ys) = crc32c (crc32c crc xs) ys"
  by (induction xs arbitrary: crc) simp_all

lemma crc32c_state_inj: "crc32c c1 bs = crc32c c2 bs \<Longrightarrow> c1 = c2"
proof (induction bs arbitrary: c1 c2)
  case Nil
  then show ?case by simp
next
  case (Cons b bs)
  then have "crc_byte c1 b = crc_byte c2 b"
    by (simp add: crc32c_step_serial)
  then have "c1 XOR ucast b = c2 XOR ucast b"
    unfolding crc_byte_def by (rule crc_bits_inj)
  then show ?case
    by (simp add: xor_right_cancel)
qed

lemma crc32c_burst:
  assumes "length a = length b" and "length a \<le> 4" and "a \<noteq> b"
  shows "crc32c crc (pre @ a @ post) \<noteq> crc32c crc (pre @ b @ post)"
proof
  let ?c = "crc32c crc pre"
  assume "crc32c crc (pre @ a @ post) = crc32c crc (pre @ b @ post)"
  then have "crc32c (crc32c ?c a) post = crc32c (crc32c ?c b) post"
    by (simp add: crc32c_append)
  then have "crc32c ?c a = crc32c ?c b"
    by (rule crc32c_state_inj)
  then have "(crc_bit ^^ (8 * length b)) (?c XOR le_get a) = (crc_bit ^^ (8 * length b)) (?c XOR le_get b)"
    using assms by (simp add: crc32c_word)
  then have "?c XOR le_get a = ?c XOR le_get b"
    by (rule crc_bits_inj)
  then have "le_get a = (le_get b :: u32)"
    by (simp add: xor_left_cancel)
  then have "le_put (length a) (le_get a :: u32) = le_put (length b) (le_get b :: u32)"
    using assms(1) by simp
  moreover have "le_put (length a) (le_get a :: u32) = a" and "le_put (length b) (le_get b :: u32) = b"
    using le_put_le_get [where 'a = 32, of a] le_put_le_get [where 'a = 32, of b] assms(1,2) by simp_all
  ultimately show False using assms(3) by simp
qed

lemma crc32c_burst_prefix:
  assumes "length a = length b" and "length a \<le> 4" and "a \<noteq> b" and "length pre + length a \<le> n"
  shows "crc32c crc (take n (pre @ a @ post)) \<noteq> crc32c crc (take n (pre @ b @ post))"
  using crc32c_burst [OF assms(1-3), of crc pre "take (n - length pre - length a) post"] assms(1,4) by simp

text \<open>
  C31. A corruption confined to at most four consecutive bytes of a checksummed region always changes
  its CRC-32C, wherever it is and whatever surrounds it, so the verifiers that compare checksums
  reject it.
\<close>

theorem crc32c_detects_burst:
  assumes "length a = length b" and "length a \<le> 4" and "a \<noteq> b"
  shows "crc32c crc (pre @ a @ post) \<noteq> crc32c crc (pre @ b @ post)"
  by (rule crc32c_burst [OF assms])

theorem crc32c_detects_burst_witness:
  "length [1 :: u8, 2] = length [1 :: u8, 3] \<and> [1 :: u8, 2] \<noteq> [1, 3] \<and>
   crc32c 0xFFFFFFFE ([7] @ [1, 2] @ [9]) \<noteq> crc32c 0xFFFFFFFE ([7] @ [1, 3] @ [9])"
  using crc32c_detects_burst [of "[1, 2]" "[1, 3]" "0xFFFFFFFE" "[7]" "[9]"] by simp

end
