(* ===== verification/Ondisk.thy ===== *)
theory Ondisk
  imports Crc32c
begin

text \<open>
  The disk format: \<open>src/leader.h\<close>, \<open>src/paxos_dblock.h\<close>, \<open>src/mode_block.h\<close>, \<open>src/rindex_disk.h\<close> and
  the conversions of \<open>src/ondisk.c\<close>.  A structure in disk format is its list of bytes, at the offsets
  the C layout gives its fields; a conversion \<open>x_out v e\<close> overwrites the fields it names in the memory
  \<open>e\<close> and leaves the others (the checksum, the padding) as they were.  All structures meet the
  interface \<open>disk_struct\<close>.
\<close>

section \<open>Structures\<close>

abbreviation NAME_ID_SIZE :: nat where "NAME_ID_SIZE \<equiv> 48"

abbreviation PAXOS_DISK_MAGIC :: u32 where "PAXOS_DISK_MAGIC \<equiv> 0x06152010"
abbreviation PAXOS_DISK_CLEAR :: u32 where "PAXOS_DISK_CLEAR \<equiv> 0x11282016"
abbreviation PAXOS_DISK_VERSION_MAJOR :: u32 where "PAXOS_DISK_VERSION_MAJOR \<equiv> 0x00060000"
abbreviation PAXOS_DISK_VERSION_MINOR :: u32 where "PAXOS_DISK_VERSION_MINOR \<equiv> 0x00000004"
abbreviation DELTA_DISK_MAGIC :: u32 where "DELTA_DISK_MAGIC \<equiv> 0x12212010"
abbreviation DELTA_DISK_VERSION_MAJOR :: u32 where "DELTA_DISK_VERSION_MAJOR \<equiv> 0x00030000"
abbreviation DELTA_DISK_VERSION_MINOR :: u32 where "DELTA_DISK_VERSION_MINOR \<equiv> 0x00000004"
abbreviation REQ_DISK_MAGIC :: u32 where "REQ_DISK_MAGIC \<equiv> 0x08292011"
abbreviation REQ_DISK_VERSION_MAJOR :: u32 where "REQ_DISK_VERSION_MAJOR \<equiv> 0x00010000"
abbreviation REQ_DISK_VERSION_MINOR :: u32 where "REQ_DISK_VERSION_MINOR \<equiv> 0x00000001"

abbreviation LEADER_CHECKSUM_LEN :: nat where "LEADER_CHECKSUM_LEN \<equiv> 168"
abbreviation LEASE_FREE :: u64 where "LEASE_FREE \<equiv> 0"
abbreviation LFL_SHORT_HOLD :: u32 where "LFL_SHORT_HOLD \<equiv> 0x00000001"
abbreviation LEADER_RECORD_MAX :: nat where "LEADER_RECORD_MAX \<equiv> 256"
abbreviation HOSTID_BITMAP_OFFSET :: nat where "HOSTID_BITMAP_OFFSET \<equiv> 256"
abbreviation HOSTID_BITMAP_SIZE :: nat where "HOSTID_BITMAP_SIZE \<equiv> 256"
abbreviation DBLOCK_CHECKSUM_LEN :: nat where "DBLOCK_CHECKSUM_LEN \<equiv> 48"
abbreviation DBLOCK_FL_RELEASED :: u32 where "DBLOCK_FL_RELEASED \<equiv> 0x00000001"
abbreviation MBLOCK_OFFSET :: nat where "MBLOCK_OFFSET \<equiv> 128"
abbreviation MBLOCK_SHARED :: u32 where "MBLOCK_SHARED \<equiv> 0x00000001"

text \<open>\<open>sizeof\<close> of each structure; the request record and the mode block have four bytes of padding.\<close>

abbreviation leader_size :: nat where "leader_size \<equiv> 200"
abbreviation request_size :: nat where "request_size \<equiv> 24"
abbreviation dblock_size :: nat where "dblock_size \<equiv> 56"
abbreviation mblock_size :: nat where "mblock_size \<equiv> 16"
abbreviation rheader_size :: nat where "rheader_size \<equiv> 80"
abbreviation rentry_size :: nat where "rentry_size \<equiv> 64"

record leader_record =
  lr_magic :: u32
  lr_version :: u32
  lr_flags :: u32
  lr_sector_size :: u32
  lr_num_hosts :: u64
  lr_max_hosts :: u64
  lr_owner_id :: u64
  lr_owner_generation :: u64
  lr_lver :: u64
  lr_space_name :: bytes
  lr_resource_name :: bytes
  lr_timestamp :: u64
  lr_unused1 :: u64
  lr_checksum :: u32
  lr_unused2 :: u16
  lr_io_timeout :: u16
  lr_write_id :: u64
  lr_write_generation :: u64
  lr_write_timestamp :: u64

record request_record =
  rr_magic :: u32
  rr_version :: u32
  rr_lver :: u64
  rr_force_mode :: u32

record paxos_dblock =
  pd_mbal :: u64
  pd_bal :: u64
  pd_inp :: u64
  pd_inp2 :: u64
  pd_inp3 :: u64
  pd_lver :: u64
  pd_checksum :: u32
  pd_flags :: u32

record mode_block =
  mb_flags :: u32
  mb_generation :: u64

record rindex_header =
  rh_magic :: u32
  rh_version :: u32
  rh_flags :: u32
  rh_sector_size :: u32
  rh_max_resources :: u32
  rh_unused :: u32
  rh_rx_offset :: u64
  rh_lockspace_name :: bytes

record rindex_entry =
  re_res_offset :: u64
  re_flags :: u32
  re_unused :: u32
  re_name :: bytes

text \<open>The name arrays have their fixed length.\<close>

definition leader_ok :: "leader_record \<Rightarrow> bool" where
  "leader_ok lr \<longleftrightarrow> length (lr_space_name lr) = NAME_ID_SIZE \<and> length (lr_resource_name lr) = NAME_ID_SIZE"

definition rheader_ok :: "rindex_header \<Rightarrow> bool" where
  "rheader_ok rh \<longleftrightarrow> length (rh_lockspace_name rh) = NAME_ID_SIZE"

definition rentry_ok :: "rindex_entry \<Rightarrow> bool" where
  "rentry_ok re \<longleftrightarrow> length (re_name re) = NAME_ID_SIZE"

text \<open>A structure after \<open>memset(&x, 0, sizeof x)\<close>.\<close>

definition zero_leader :: leader_record where
  "zero_leader = \<lparr>lr_magic = 0, lr_version = 0, lr_flags = 0, lr_sector_size = 0, lr_num_hosts = 0,
     lr_max_hosts = 0, lr_owner_id = 0, lr_owner_generation = 0, lr_lver = 0,
     lr_space_name = replicate NAME_ID_SIZE 0, lr_resource_name = replicate NAME_ID_SIZE 0,
     lr_timestamp = 0, lr_unused1 = 0, lr_checksum = 0, lr_unused2 = 0, lr_io_timeout = 0,
     lr_write_id = 0, lr_write_generation = 0, lr_write_timestamp = 0\<rparr>"

definition zero_dblock :: paxos_dblock where
  "zero_dblock = \<lparr>pd_mbal = 0, pd_bal = 0, pd_inp = 0, pd_inp2 = 0, pd_inp3 = 0, pd_lver = 0,
     pd_checksum = 0, pd_flags = 0\<rparr>"

section \<open>Conversions\<close>

definition magic_in :: "bytes \<Rightarrow> u32" where
  "magic_in e = le_get (slice 0 4 e)"

definition leader_record_in :: "bytes \<Rightarrow> leader_record" where
  "leader_record_in e = \<lparr>
     lr_magic = le_get (slice 0 4 e),
     lr_version = le_get (slice 4 4 e),
     lr_flags = le_get (slice 8 4 e),
     lr_sector_size = le_get (slice 12 4 e),
     lr_num_hosts = le_get (slice 16 8 e),
     lr_max_hosts = le_get (slice 24 8 e),
     lr_owner_id = le_get (slice 32 8 e),
     lr_owner_generation = le_get (slice 40 8 e),
     lr_lver = le_get (slice 48 8 e),
     lr_space_name = slice 56 48 e,
     lr_resource_name = slice 104 48 e,
     lr_timestamp = le_get (slice 152 8 e),
     lr_unused1 = le_get (slice 160 8 e),
     lr_checksum = le_get (slice 168 4 e),
     lr_unused2 = le_get (slice 172 2 e),
     lr_io_timeout = le_get (slice 174 2 e),
     lr_write_id = le_get (slice 176 8 e),
     lr_write_generation = le_get (slice 184 8 e),
     lr_write_timestamp = le_get (slice 192 8 e)\<rparr>"

definition leader_record_out :: "leader_record \<Rightarrow> bytes \<Rightarrow> bytes" where
  "leader_record_out lr e =
     le_put 4 (lr_magic lr) @ le_put 4 (lr_version lr) @ le_put 4 (lr_flags lr) @
     le_put 4 (lr_sector_size lr) @ le_put 8 (lr_num_hosts lr) @ le_put 8 (lr_max_hosts lr) @
     le_put 8 (lr_owner_id lr) @ le_put 8 (lr_owner_generation lr) @ le_put 8 (lr_lver lr) @
     lr_space_name lr @ lr_resource_name lr @ le_put 8 (lr_timestamp lr) @ le_put 8 (lr_unused1 lr) @
     slice 168 4 e @ le_put 2 (lr_unused2 lr) @ le_put 2 (lr_io_timeout lr) @
     le_put 8 (lr_write_id lr) @ le_put 8 (lr_write_generation lr) @ le_put 8 (lr_write_timestamp lr)"

definition request_record_in :: "bytes \<Rightarrow> request_record" where
  "request_record_in e = \<lparr>
     rr_magic = le_get (slice 0 4 e),
     rr_version = le_get (slice 4 4 e),
     rr_lver = le_get (slice 8 8 e),
     rr_force_mode = le_get (slice 16 4 e)\<rparr>"

definition request_record_out :: "request_record \<Rightarrow> bytes \<Rightarrow> bytes" where
  "request_record_out rr e =
     le_put 4 (rr_magic rr) @ le_put 4 (rr_version rr) @ le_put 8 (rr_lver rr) @
     le_put 4 (rr_force_mode rr) @ slice 20 4 e"

definition paxos_dblock_in :: "bytes \<Rightarrow> paxos_dblock" where
  "paxos_dblock_in e = \<lparr>
     pd_mbal = le_get (slice 0 8 e),
     pd_bal = le_get (slice 8 8 e),
     pd_inp = le_get (slice 16 8 e),
     pd_inp2 = le_get (slice 24 8 e),
     pd_inp3 = le_get (slice 32 8 e),
     pd_lver = le_get (slice 40 8 e),
     pd_checksum = le_get (slice 48 4 e),
     pd_flags = le_get (slice 52 4 e)\<rparr>"

definition paxos_dblock_out :: "paxos_dblock \<Rightarrow> bytes \<Rightarrow> bytes" where
  "paxos_dblock_out pd e =
     le_put 8 (pd_mbal pd) @ le_put 8 (pd_bal pd) @ le_put 8 (pd_inp pd) @ le_put 8 (pd_inp2 pd) @
     le_put 8 (pd_inp3 pd) @ le_put 8 (pd_lver pd) @ slice 48 4 e @ le_put 4 (pd_flags pd)"

definition mode_block_in :: "bytes \<Rightarrow> mode_block" where
  "mode_block_in e = \<lparr>mb_flags = le_get (slice 0 4 e), mb_generation = le_get (slice 8 8 e)\<rparr>"

definition mode_block_out :: "mode_block \<Rightarrow> bytes \<Rightarrow> bytes" where
  "mode_block_out mb e = le_put 4 (mb_flags mb) @ slice 4 4 e @ le_put 8 (mb_generation mb)"

definition rindex_header_in :: "bytes \<Rightarrow> rindex_header" where
  "rindex_header_in e = \<lparr>
     rh_magic = le_get (slice 0 4 e),
     rh_version = le_get (slice 4 4 e),
     rh_flags = le_get (slice 8 4 e),
     rh_sector_size = le_get (slice 12 4 e),
     rh_max_resources = le_get (slice 16 4 e),
     rh_unused = le_get (slice 20 4 e),
     rh_rx_offset = le_get (slice 24 8 e),
     rh_lockspace_name = slice 32 48 e\<rparr>"

definition rindex_header_out :: "rindex_header \<Rightarrow> bytes \<Rightarrow> bytes" where
  "rindex_header_out rh e =
     le_put 4 (rh_magic rh) @ le_put 4 (rh_version rh) @ le_put 4 (rh_flags rh) @
     le_put 4 (rh_sector_size rh) @ le_put 4 (rh_max_resources rh) @ le_put 4 (rh_unused rh) @
     le_put 8 (rh_rx_offset rh) @ rh_lockspace_name rh"

definition rindex_entry_in :: "bytes \<Rightarrow> rindex_entry" where
  "rindex_entry_in e = \<lparr>
     re_res_offset = le_get (slice 0 8 e),
     re_flags = le_get (slice 8 4 e),
     re_unused = le_get (slice 12 4 e),
     re_name = slice 16 48 e\<rparr>"

definition rindex_entry_out :: "rindex_entry \<Rightarrow> bytes \<Rightarrow> bytes" where
  "rindex_entry_out re e =
     le_put 8 (re_res_offset re) @ le_put 4 (re_flags re) @ le_put 4 (re_unused re) @ re_name re"

section \<open>Checksums\<close>

definition leader_checksum :: "bytes \<Rightarrow> u32" where
  "leader_checksum e = crc32c (NOT 1) (take LEADER_CHECKSUM_LEN e)"

definition dblock_checksum :: "bytes \<Rightarrow> u32" where
  "dblock_checksum e = crc32c (NOT 1) (take DBLOCK_CHECKSUM_LEN e)"

text \<open>
  Every writer of a leader record or of a ballot block follows the same steps: convert, compute the
  checksum of the converted bytes, store it in the in-memory structure and in the converted bytes.
  The converted copy is an uninitialised stack variable whose checksum field is overwritten, so what
  was in it (\<open>junk\<close>) does not reach the disk.
\<close>

definition leader_seal :: "leader_record \<Rightarrow> bytes \<Rightarrow> leader_record \<times> bytes" where
  "leader_seal lr junk =
    (let e = leader_record_out lr junk; c = leader_checksum e
     in (lr\<lparr>lr_checksum := c\<rparr>, splice_at 168 (le_put 4 c) e))"

definition dblock_seal :: "paxos_dblock \<Rightarrow> bytes \<Rightarrow> paxos_dblock \<times> bytes" where
  "dblock_seal pd junk =
    (let e = paxos_dblock_out pd junk; c = dblock_checksum e
     in (pd\<lparr>pd_checksum := c\<rparr>, splice_at 48 (le_put 4 c) e))"

section \<open>The interface of a disk structure\<close>

text \<open>
  \<open>keep old new\<close> is the structure that results from writing \<open>new\<close> over \<open>old\<close>: the fields that the
  conversion does not write come from \<open>old\<close>.
\<close>

locale disk_struct =
  fixes struct_size :: nat
    and struct_ok :: "'a \<Rightarrow> bool"
    and enc :: "'a \<Rightarrow> bytes \<Rightarrow> bytes"
    and dec :: "bytes \<Rightarrow> 'a"
    and keep :: "'a \<Rightarrow> 'a \<Rightarrow> 'a"
  assumes enc_length: "struct_ok x \<Longrightarrow> length e = struct_size \<Longrightarrow> length (enc x e) = struct_size"
    and dec_enc: "struct_ok x \<Longrightarrow> length e = struct_size \<Longrightarrow> dec (enc x e) = keep (dec e) x"
    and enc_dec: "length e = struct_size \<Longrightarrow> enc (dec e) e = e"
    and dec_ok: "length e = struct_size \<Longrightarrow> struct_ok (dec e)"
    and dec_prefix: "length e = struct_size \<Longrightarrow> dec (e @ rest) = dec e"
begin

lemma dec_take: "struct_size \<le> length buf \<Longrightarrow> dec (take struct_size buf) = dec buf"
  using dec_prefix [of "take struct_size buf" "drop struct_size buf"] by simp

lemma enc_inject:
  assumes "struct_ok x" and "struct_ok y" and "length e = struct_size" and "enc x e = enc y e"
  shows "keep (dec e) x = keep (dec e) y"
  using assms dec_enc by metis

text \<open>What is copied into a buffer is what is read back from that place, and nothing else moves.\<close>

lemma dec_slice_splice:
  assumes "struct_ok x" and "length e = struct_size" and "off + struct_size \<le> length buf"
  shows "dec (slice off struct_size (splice_at off (enc x e) buf)) = keep (dec e) x"
  using assms enc_length [of x e] dec_enc [of x e] by simp

lemma slice_splice_disjoint:
  assumes "struct_ok x" and "length e = struct_size" and "off + struct_size \<le> length buf"
    and "off' + n \<le> off \<or> off + struct_size \<le> off'"
  shows "slice off' n (splice_at off (enc x e) buf) = slice off' n buf"
  using assms enc_length [of x e] by (auto simp: slice_splice_before slice_splice_after)

end

section \<open>The structures meet the interface\<close>

lemmas struct_decs = leader_record_in_def request_record_in_def paxos_dblock_in_def mode_block_in_def
  rindex_header_in_def rindex_entry_in_def

lemmas struct_encs = leader_record_out_def request_record_out_def paxos_dblock_out_def
  mode_block_out_def rindex_header_out_def rindex_entry_out_def

lemmas struct_oks = leader_ok_def rheader_ok_def rentry_ok_def

lemmas struct_simps = struct_decs struct_encs struct_oks codec_simps

interpretation leader_disk: disk_struct leader_size leader_ok leader_record_out leader_record_in
  "\<lambda>old lr. lr\<lparr>lr_checksum := lr_checksum old\<rparr>"
  by unfold_locales (simp_all add: struct_simps slice_drop slice_glue)

interpretation request_disk: disk_struct request_size "\<lambda>_. True" request_record_out request_record_in
  "\<lambda>old rr. rr"
  by unfold_locales (simp_all add: struct_simps slice_drop slice_glue)

interpretation dblock_disk: disk_struct dblock_size "\<lambda>_. True" paxos_dblock_out paxos_dblock_in
  "\<lambda>old pd. pd\<lparr>pd_checksum := pd_checksum old\<rparr>"
  by unfold_locales (simp_all add: struct_simps slice_drop slice_glue)

interpretation mblock_disk: disk_struct mblock_size "\<lambda>_. True" mode_block_out mode_block_in
  "\<lambda>old mb. mb"
  by unfold_locales (simp_all add: struct_simps slice_drop slice_glue)

interpretation rheader_disk: disk_struct rheader_size rheader_ok rindex_header_out rindex_header_in
  "\<lambda>old rh. rh"
  by unfold_locales (simp_all add: struct_simps slice_drop slice_glue)

interpretation rentry_disk: disk_struct rentry_size rentry_ok rindex_entry_out rindex_entry_in
  "\<lambda>old re. re"
  by unfold_locales (simp_all add: struct_simps slice_drop slice_glue)

section \<open>Sealed structures verify\<close>

lemma leader_checksum_out:
  "leader_ok lr \<Longrightarrow> leader_checksum (leader_record_out lr e) = leader_checksum (leader_record_out lr e')"
  by (simp add: leader_checksum_def leader_record_out_def leader_ok_def)

lemma leader_seal_checksum:
  assumes "leader_ok lr" and "length junk = leader_size"
  shows "leader_checksum (snd (leader_seal lr junk)) = lr_checksum (fst (leader_seal lr junk))"
  using assms leader_disk.enc_length [OF assms]
  by (simp add: leader_seal_def Let_def leader_checksum_def splice_at_def)

lemma leader_seal_length:
  "leader_ok lr \<Longrightarrow> length junk = leader_size \<Longrightarrow> length (snd (leader_seal lr junk)) = leader_size"
  using leader_disk.enc_length [of lr junk] by (simp add: leader_seal_def Let_def)

lemma leader_seal_in:
  assumes "leader_ok lr" and "length junk = leader_size"
  shows "leader_record_in (snd (leader_seal lr junk)) = fst (leader_seal lr junk)"
proof -
  define c where "c = leader_checksum (leader_record_out lr junk)"
  have len: "length (leader_record_out lr junk) = leader_size"
    using leader_disk.enc_length assms by simp
  have "leader_record_in (splice_at 168 (le_put 4 c) (leader_record_out lr junk)) =
      (leader_record_in (leader_record_out lr junk))\<lparr>lr_checksum := c\<rparr>"
    using len by (simp add: leader_record_in_def slice_splice_before slice_splice_after)
  also have "\<dots> = lr\<lparr>lr_checksum := c\<rparr>"
    using leader_disk.dec_enc assms by simp
  finally show ?thesis by (simp add: leader_seal_def Let_def c_def)
qed

lemma leader_seal_junk:
  assumes "leader_ok lr" and "length junk = leader_size" and "length junk' = leader_size"
  shows "leader_seal lr junk = leader_seal lr junk'"
proof -
  have "leader_checksum (leader_record_out lr junk) = leader_checksum (leader_record_out lr junk')"
    using leader_checksum_out [OF assms(1)] .
  then show ?thesis
    using assms by (simp add: leader_seal_def Let_def leader_record_out_def leader_ok_def splice_at_def)
qed

lemma dblock_seal_length:
  "length junk = dblock_size \<Longrightarrow> length (snd (dblock_seal pd junk)) = dblock_size"
  using dblock_disk.enc_length [of junk pd] by (simp add: dblock_seal_def Let_def)

lemma dblock_seal_checksum:
  assumes "length junk = dblock_size"
  shows "dblock_checksum (snd (dblock_seal pd junk)) = pd_checksum (fst (dblock_seal pd junk))"
  using assms dblock_disk.enc_length [of junk pd]
  by (simp add: dblock_seal_def Let_def dblock_checksum_def splice_at_def)

lemma dblock_seal_in:
  assumes "length junk = dblock_size"
  shows "paxos_dblock_in (snd (dblock_seal pd junk)) = fst (dblock_seal pd junk)"
proof -
  define c where "c = dblock_checksum (paxos_dblock_out pd junk)"
  have len: "length (paxos_dblock_out pd junk) = dblock_size"
    using dblock_disk.enc_length assms by simp
  have "paxos_dblock_in (splice_at 48 (le_put 4 c) (paxos_dblock_out pd junk)) =
      (paxos_dblock_in (paxos_dblock_out pd junk))\<lparr>pd_checksum := c\<rparr>"
    using len by (simp add: paxos_dblock_in_def slice_splice_before slice_splice_after)
  also have "\<dots> = pd\<lparr>pd_checksum := c\<rparr>"
    using dblock_disk.dec_enc assms by simp
  finally show ?thesis by (simp add: dblock_seal_def Let_def c_def)
qed

lemma dblock_seal_junk:
  assumes "length junk = dblock_size" and "length junk' = dblock_size"
  shows "dblock_seal pd junk = dblock_seal pd junk'"
  using assms by (simp add: dblock_seal_def Let_def paxos_dblock_out_def dblock_checksum_def splice_at_def)

text \<open>The structure read from the start of a buffer, and its checksum, only depend on its own bytes.\<close>

lemma leader_in_take: "leader_size \<le> length buf \<Longrightarrow> leader_record_in (take leader_size buf) = leader_record_in buf"
  by (rule leader_disk.dec_take)

lemma leader_checksum_append:
  "length e = leader_size \<Longrightarrow> leader_checksum (e @ rest) = leader_checksum e"
  by (simp add: leader_checksum_def)

lemma dblock_checksum_append:
  "length e = dblock_size \<Longrightarrow> dblock_checksum (e @ rest) = dblock_checksum e"
  by (simp add: dblock_checksum_def)

lemma leader_ok_in: "leader_size \<le> length e \<Longrightarrow> leader_ok (leader_record_in e)"
  using leader_disk.dec_ok [of "take leader_size e"] by (simp add: leader_in_take)

lemma leader_ok_zero [simp]: "leader_ok zero_leader"
  by (simp add: leader_ok_def zero_leader_def)

section \<open>Properties\<close>

text \<open>
  C28: A leader record that is converted, sealed with its checksum and copied to the start of a sector
  is read back as exactly the sealed in-memory record, and the checksum the reader computes from the
  bytes is the one stored in it.  What the uninitialised copy held does not matter.
\<close>

theorem leader_record_roundtrip:
  assumes "leader_ok lr" and "length junk = leader_size" and "leader_size \<le> length sector"
  shows "leader_record_in (splice_at 0 (snd (leader_seal lr junk)) sector) = fst (leader_seal lr junk) \<and>
    leader_checksum (splice_at 0 (snd (leader_seal lr junk)) sector) = lr_checksum (fst (leader_seal lr junk)) \<and>
    fst (leader_seal lr junk) = lr\<lparr>lr_checksum := leader_checksum (leader_record_out lr (replicate leader_size 0))\<rparr>"
proof -
  have "splice_at 0 (snd (leader_seal lr junk)) sector = snd (leader_seal lr junk) @ drop leader_size sector"
    using leader_seal_length assms by (simp add: splice_at_def)
  moreover have "fst (leader_seal lr junk) = lr\<lparr>lr_checksum := leader_checksum (leader_record_out lr (replicate leader_size 0))\<rparr>"
    using leader_checksum_out [OF assms(1), of junk] by (simp add: leader_seal_def Let_def)
  ultimately show ?thesis
    using assms leader_seal_length [of lr junk] leader_disk.dec_prefix leader_checksum_append
      leader_seal_in [of lr junk] leader_seal_checksum [of lr junk] by simp
qed

theorem leader_record_roundtrip_witness:
  "lr_lver (leader_record_in (splice_at 0 (snd (leader_seal (zero_leader\<lparr>lr_lver := 7\<rparr>)
     (replicate leader_size 0xAA))) (replicate 512 0))) = 7"
  using leader_record_roundtrip [of "zero_leader\<lparr>lr_lver := 7\<rparr>" "replicate leader_size 0xAA" "replicate 512 0"]
  by (simp add: leader_ok_def zero_leader_def)

text \<open>
  C29: The other structures survive the disk unchanged: a request record, a mode block, a resource
  index header and entry that are converted and read back are the same; and converting the decoded
  form of any bytes of a structure's size back over these bytes reproduces them, for all six
  structures, so reading and rewriting a sector never alters it.
\<close>

theorem ondisk_structs_roundtrip:
  assumes "length e1 = request_size" and "length e2 = mblock_size" and "length e3 = rheader_size"
    and "length e4 = rentry_size" and "length e5 = leader_size" and "length e6 = dblock_size"
    and "rheader_ok rh" and "rentry_ok re"
  shows "request_record_in (request_record_out rr e1) = rr \<and> mode_block_in (mode_block_out mb e2) = mb \<and>
    rindex_header_in (rindex_header_out rh e3) = rh \<and> rindex_entry_in (rindex_entry_out re e4) = re \<and>
    request_record_out (request_record_in e1) e1 = e1 \<and> mode_block_out (mode_block_in e2) e2 = e2 \<and>
    rindex_header_out (rindex_header_in e3) e3 = e3 \<and> rindex_entry_out (rindex_entry_in e4) e4 = e4 \<and>
    leader_record_out (leader_record_in e5) e5 = e5 \<and> paxos_dblock_out (paxos_dblock_in e6) e6 = e6"
  using assms request_disk.dec_enc mblock_disk.dec_enc rheader_disk.dec_enc rentry_disk.dec_enc
    request_disk.enc_dec mblock_disk.enc_dec rheader_disk.enc_dec rentry_disk.enc_dec
    leader_disk.enc_dec dblock_disk.enc_dec by simp

theorem ondisk_structs_roundtrip_witness:
  "mode_block_in (mode_block_out \<lparr>mb_flags = 1, mb_generation = 258\<rparr> (replicate mblock_size 7)) =
     \<lparr>mb_flags = 1, mb_generation = 258\<rparr>"
  using ondisk_structs_roundtrip [of "replicate request_size 0" "replicate mblock_size 7" "replicate rheader_size 0"
      "replicate rentry_size 0" "replicate leader_size 0" "replicate dblock_size 0"
      "rindex_header_in (replicate rheader_size 0)" "rindex_entry_in (replicate rentry_size 0)"
      "\<lparr>rr_magic = 0, rr_version = 0, rr_lver = 0, rr_force_mode = 0\<rparr>" "\<lparr>mb_flags = 1, mb_generation = 258\<rparr>"]
    rheader_disk.dec_ok rentry_disk.dec_ok by simp

end
