(* ===== verification/Sizeflags.thy ===== *)
theory Sizeflags
  imports Ondisk
begin

text \<open>
  Lease geometry: \<open>src/sizeflags.c\<close>.  A lease has a sector size of 512 or 4096 bytes and an area of
  1, 2, 4 or 8 MB; the two sizes travel as flag bits in leader records, resource index headers and the
  client structures for resources, lockspaces and resource indexes, and fix how many hosts the lease
  has room for.
\<close>

abbreviation ALIGN_SIZE_1M :: int where "ALIGN_SIZE_1M \<equiv> 1048576"
abbreviation ALIGN_SIZE_2M :: int where "ALIGN_SIZE_2M \<equiv> 2097152"
abbreviation ALIGN_SIZE_4M :: int where "ALIGN_SIZE_4M \<equiv> 4194304"
abbreviation ALIGN_SIZE_8M :: int where "ALIGN_SIZE_8M \<equiv> 8388608"

abbreviation LFL_ALIGN_1M :: u32 where "LFL_ALIGN_1M \<equiv> 0x00000010"
abbreviation LFL_ALIGN_2M :: u32 where "LFL_ALIGN_2M \<equiv> 0x00000020"
abbreviation LFL_ALIGN_4M :: u32 where "LFL_ALIGN_4M \<equiv> 0x00000040"
abbreviation LFL_ALIGN_8M :: u32 where "LFL_ALIGN_8M \<equiv> 0x00000080"
abbreviation RHF_ALIGN_1M :: u32 where "RHF_ALIGN_1M \<equiv> 0x00000001"
abbreviation RHF_ALIGN_2M :: u32 where "RHF_ALIGN_2M \<equiv> 0x00000002"
abbreviation RHF_ALIGN_4M :: u32 where "RHF_ALIGN_4M \<equiv> 0x00000004"
abbreviation RHF_ALIGN_8M :: u32 where "RHF_ALIGN_8M \<equiv> 0x00000008"
abbreviation SANLK_LSF_ALIGN1M :: u32 where "SANLK_LSF_ALIGN1M \<equiv> 0x00000010"
abbreviation SANLK_LSF_ALIGN2M :: u32 where "SANLK_LSF_ALIGN2M \<equiv> 0x00000020"
abbreviation SANLK_LSF_ALIGN4M :: u32 where "SANLK_LSF_ALIGN4M \<equiv> 0x00000040"
abbreviation SANLK_LSF_ALIGN8M :: u32 where "SANLK_LSF_ALIGN8M \<equiv> 0x00000080"
abbreviation SANLK_RES_ALIGN1M :: u32 where "SANLK_RES_ALIGN1M \<equiv> 0x00000010"
abbreviation SANLK_RES_ALIGN2M :: u32 where "SANLK_RES_ALIGN2M \<equiv> 0x00000020"
abbreviation SANLK_RES_ALIGN4M :: u32 where "SANLK_RES_ALIGN4M \<equiv> 0x00000040"
abbreviation SANLK_RES_ALIGN8M :: u32 where "SANLK_RES_ALIGN8M \<equiv> 0x00000080"
abbreviation SANLK_RIF_ALIGN1M :: u32 where "SANLK_RIF_ALIGN1M \<equiv> 0x00000010"
abbreviation SANLK_RIF_ALIGN2M :: u32 where "SANLK_RIF_ALIGN2M \<equiv> 0x00000020"
abbreviation SANLK_RIF_ALIGN4M :: u32 where "SANLK_RIF_ALIGN4M \<equiv> 0x00000040"
abbreviation SANLK_RIF_ALIGN8M :: u32 where "SANLK_RIF_ALIGN8M \<equiv> 0x00000080"
abbreviation SANLK_LSF_SECTOR512 :: u32 where "SANLK_LSF_SECTOR512 \<equiv> 0x00000100"
abbreviation SANLK_LSF_SECTOR4K :: u32 where "SANLK_LSF_SECTOR4K \<equiv> 0x00000200"
abbreviation SANLK_RES_SECTOR512 :: u32 where "SANLK_RES_SECTOR512 \<equiv> 0x00000100"
abbreviation SANLK_RES_SECTOR4K :: u32 where "SANLK_RES_SECTOR4K \<equiv> 0x00000200"
abbreviation SANLK_RIF_SECTOR512 :: u32 where "SANLK_RIF_SECTOR512 \<equiv> 0x00000100"
abbreviation SANLK_RIF_SECTOR4K :: u32 where "SANLK_RIF_SECTOR4K \<equiv> 0x00000200"

section \<open>Sizes and flags\<close>

definition size_to_max_hosts :: "int \<Rightarrow> int \<Rightarrow> int" where
  "size_to_max_hosts sector_size align_size =
    (if align_size = ALIGN_SIZE_1M \<and> sector_size = 512 then 2000
     else if align_size = ALIGN_SIZE_1M \<and> sector_size = 4096 then 250
     else if align_size = ALIGN_SIZE_2M \<and> sector_size = 4096 then 500
     else if align_size = ALIGN_SIZE_4M \<and> sector_size = 4096 then 1000
     else if align_size = ALIGN_SIZE_8M \<and> sector_size = 4096 then 2000
     else 0)"

definition sector_size_to_align_size_old :: "int \<Rightarrow> int" where
  "sector_size_to_align_size_old sector_size =
    (if sector_size = 512 then ALIGN_SIZE_1M else if sector_size = 4096 then ALIGN_SIZE_8M else -1)"

definition align_size_debug_str :: "int \<Rightarrow> string option" where
  "align_size_debug_str align_size =
    (if align_size = ALIGN_SIZE_1M then Some ''1M''
     else if align_size = ALIGN_SIZE_2M then Some ''2M''
     else if align_size = ALIGN_SIZE_4M then Some ''4M''
     else if align_size = ALIGN_SIZE_8M then Some ''8M''
     else None)"

definition leader_align_flag_from_size :: "int \<Rightarrow> u32" where
  "leader_align_flag_from_size align_size =
    (if align_size = ALIGN_SIZE_1M then LFL_ALIGN_1M
     else if align_size = ALIGN_SIZE_2M then LFL_ALIGN_2M
     else if align_size = ALIGN_SIZE_4M then LFL_ALIGN_4M
     else if align_size = ALIGN_SIZE_8M then LFL_ALIGN_8M
     else 0)"

definition leader_align_size_from_flag :: "u32 \<Rightarrow> int" where
  "leader_align_size_from_flag flags =
    (if flags AND LFL_ALIGN_1M \<noteq> 0 then ALIGN_SIZE_1M
     else if flags AND LFL_ALIGN_2M \<noteq> 0 then ALIGN_SIZE_2M
     else if flags AND LFL_ALIGN_4M \<noteq> 0 then ALIGN_SIZE_4M
     else if flags AND LFL_ALIGN_8M \<noteq> 0 then ALIGN_SIZE_8M
     else 0)"

definition rindex_header_align_flag_from_size :: "int \<Rightarrow> u32" where
  "rindex_header_align_flag_from_size align_size =
    (if align_size = ALIGN_SIZE_1M then RHF_ALIGN_1M
     else if align_size = ALIGN_SIZE_2M then RHF_ALIGN_2M
     else if align_size = ALIGN_SIZE_4M then RHF_ALIGN_4M
     else if align_size = ALIGN_SIZE_8M then RHF_ALIGN_8M
     else 0)"

definition rindex_header_align_size_from_flag :: "u32 \<Rightarrow> int" where
  "rindex_header_align_size_from_flag flags =
    (if flags AND RHF_ALIGN_1M \<noteq> 0 then ALIGN_SIZE_1M
     else if flags AND RHF_ALIGN_2M \<noteq> 0 then ALIGN_SIZE_2M
     else if flags AND RHF_ALIGN_4M \<noteq> 0 then ALIGN_SIZE_4M
     else if flags AND RHF_ALIGN_8M \<noteq> 0 then ALIGN_SIZE_8M
     else 0)"

definition sanlk_lsf_sector_flag_to_size :: "u32 \<Rightarrow> int" where
  "sanlk_lsf_sector_flag_to_size flags =
    (if flags AND SANLK_LSF_SECTOR512 \<noteq> 0 then 512 else if flags AND SANLK_LSF_SECTOR4K \<noteq> 0 then 4096 else 0)"

definition sanlk_lsf_sector_size_to_flag :: "int \<Rightarrow> u32" where
  "sanlk_lsf_sector_size_to_flag sector_size =
    (if sector_size = 512 then SANLK_LSF_SECTOR512 else if sector_size = 4096 then SANLK_LSF_SECTOR4K else 0)"

definition sanlk_lsf_sector_flags_clear :: "u32 \<Rightarrow> u32" where
  "sanlk_lsf_sector_flags_clear flags = (flags AND NOT SANLK_LSF_SECTOR512) AND NOT SANLK_LSF_SECTOR4K"

definition sanlk_lsf_align_flags_clear :: "u32 \<Rightarrow> u32" where
  "sanlk_lsf_align_flags_clear flags = (((flags AND NOT SANLK_LSF_ALIGN1M) AND NOT SANLK_LSF_ALIGN2M) AND NOT SANLK_LSF_ALIGN4M) AND NOT SANLK_LSF_ALIGN8M"

definition sanlk_lsf_align_flag_to_size :: "u32 \<Rightarrow> int" where
  "sanlk_lsf_align_flag_to_size flags =
    (if flags AND SANLK_LSF_ALIGN1M \<noteq> 0 then ALIGN_SIZE_1M
     else if flags AND SANLK_LSF_ALIGN2M \<noteq> 0 then ALIGN_SIZE_2M
     else if flags AND SANLK_LSF_ALIGN4M \<noteq> 0 then ALIGN_SIZE_4M
     else if flags AND SANLK_LSF_ALIGN8M \<noteq> 0 then ALIGN_SIZE_8M
     else 0)"

definition sanlk_lsf_align_size_to_flag :: "int \<Rightarrow> u32" where
  "sanlk_lsf_align_size_to_flag align_size =
    (if align_size = ALIGN_SIZE_1M then SANLK_LSF_ALIGN1M
     else if align_size = ALIGN_SIZE_2M then SANLK_LSF_ALIGN2M
     else if align_size = ALIGN_SIZE_4M then SANLK_LSF_ALIGN4M
     else if align_size = ALIGN_SIZE_8M then SANLK_LSF_ALIGN8M
     else 0)"

definition sanlk_res_sector_flag_to_size :: "u32 \<Rightarrow> int" where
  "sanlk_res_sector_flag_to_size flags =
    (if flags AND SANLK_RES_SECTOR512 \<noteq> 0 then 512 else if flags AND SANLK_RES_SECTOR4K \<noteq> 0 then 4096 else 0)"

definition sanlk_res_sector_size_to_flag :: "int \<Rightarrow> u32" where
  "sanlk_res_sector_size_to_flag sector_size =
    (if sector_size = 512 then SANLK_RES_SECTOR512 else if sector_size = 4096 then SANLK_RES_SECTOR4K else 0)"

definition sanlk_res_sector_flags_clear :: "u32 \<Rightarrow> u32" where
  "sanlk_res_sector_flags_clear flags = (flags AND NOT SANLK_RES_SECTOR512) AND NOT SANLK_RES_SECTOR4K"

definition sanlk_res_align_flags_clear :: "u32 \<Rightarrow> u32" where
  "sanlk_res_align_flags_clear flags = (((flags AND NOT SANLK_RES_ALIGN1M) AND NOT SANLK_RES_ALIGN2M) AND NOT SANLK_RES_ALIGN4M) AND NOT SANLK_RES_ALIGN8M"

definition sanlk_res_align_flag_to_size :: "u32 \<Rightarrow> int" where
  "sanlk_res_align_flag_to_size flags =
    (if flags AND SANLK_RES_ALIGN1M \<noteq> 0 then ALIGN_SIZE_1M
     else if flags AND SANLK_RES_ALIGN2M \<noteq> 0 then ALIGN_SIZE_2M
     else if flags AND SANLK_RES_ALIGN4M \<noteq> 0 then ALIGN_SIZE_4M
     else if flags AND SANLK_RES_ALIGN8M \<noteq> 0 then ALIGN_SIZE_8M
     else 0)"

definition sanlk_res_align_size_to_flag :: "int \<Rightarrow> u32" where
  "sanlk_res_align_size_to_flag align_size =
    (if align_size = ALIGN_SIZE_1M then SANLK_RES_ALIGN1M
     else if align_size = ALIGN_SIZE_2M then SANLK_RES_ALIGN2M
     else if align_size = ALIGN_SIZE_4M then SANLK_RES_ALIGN4M
     else if align_size = ALIGN_SIZE_8M then SANLK_RES_ALIGN8M
     else 0)"

definition sanlk_rif_sector_flag_to_size :: "u32 \<Rightarrow> int" where
  "sanlk_rif_sector_flag_to_size flags =
    (if flags AND SANLK_RIF_SECTOR512 \<noteq> 0 then 512 else if flags AND SANLK_RIF_SECTOR4K \<noteq> 0 then 4096 else 0)"

definition sanlk_rif_sector_size_to_flag :: "int \<Rightarrow> u32" where
  "sanlk_rif_sector_size_to_flag sector_size =
    (if sector_size = 512 then SANLK_RIF_SECTOR512 else if sector_size = 4096 then SANLK_RIF_SECTOR4K else 0)"

definition sanlk_rif_align_flag_to_size :: "u32 \<Rightarrow> int" where
  "sanlk_rif_align_flag_to_size flags =
    (if flags AND SANLK_RIF_ALIGN1M \<noteq> 0 then ALIGN_SIZE_1M
     else if flags AND SANLK_RIF_ALIGN2M \<noteq> 0 then ALIGN_SIZE_2M
     else if flags AND SANLK_RIF_ALIGN4M \<noteq> 0 then ALIGN_SIZE_4M
     else if flags AND SANLK_RIF_ALIGN8M \<noteq> 0 then ALIGN_SIZE_8M
     else 0)"

definition sanlk_rif_align_size_to_flag :: "int \<Rightarrow> u32" where
  "sanlk_rif_align_size_to_flag align_size =
    (if align_size = ALIGN_SIZE_1M then SANLK_RIF_ALIGN1M
     else if align_size = ALIGN_SIZE_2M then SANLK_RIF_ALIGN2M
     else if align_size = ALIGN_SIZE_4M then SANLK_RIF_ALIGN4M
     else if align_size = ALIGN_SIZE_8M then SANLK_RIF_ALIGN8M
     else 0)"

text \<open>
  \<open>sizes_from_flags flags kind\<close> returns the return value and the sector size, area size and number of
  hosts stored through the three pointers.
\<close>

definition sizes_from_flags :: "u32 \<Rightarrow> string \<Rightarrow> int \<times> int \<times> int \<times> int" where
  "sizes_from_flags flags kind =
    (case (if kind = ''RES'' then Some (sanlk_res_align_flag_to_size flags, sanlk_res_sector_flag_to_size flags)
           else if kind = ''LSF'' then Some (sanlk_lsf_align_flag_to_size flags, sanlk_lsf_sector_flag_to_size flags)
           else if kind = ''RIF'' then Some (sanlk_rif_align_flag_to_size flags, sanlk_rif_sector_flag_to_size flags)
           else None) of
       None \<Rightarrow> (-1, 0, 0, 0)
     | Some (align_size, sector_size) \<Rightarrow>
         if (sector_size = 0) \<noteq> (align_size = 0) then (-1, sector_size, align_size, 0)
         else if sector_size = 0 then (0, sector_size, align_size, 0)
         else
           (let max_hosts = size_to_max_hosts sector_size align_size
            in if max_hosts = 0 then (-1, sector_size, align_size, max_hosts)
               else (0, sector_size, align_size, max_hosts)))"

section \<open>The interface of a pair of flag conversions\<close>

text \<open>
  Each kind of flags has a conversion from a size to its bit and one back, and leaves the other bits
  of the word alone.
\<close>

locale size_flags =
  fixes sizes :: "int set" and to_flag :: "int \<Rightarrow> u32" and to_size :: "u32 \<Rightarrow> int" and bits :: u32
  assumes to_size_or: "s \<in> sizes \<Longrightarrow> other AND bits = 0 \<Longrightarrow> to_size (other OR to_flag s) = s"
    and to_size_range: "to_size flags = 0 \<or> to_size flags \<in> sizes"
    and to_size_zero: "to_size flags = 0 \<longleftrightarrow> flags AND bits = 0"
    and to_flag_bits: "to_flag s AND bits = to_flag s"
begin

lemma to_size_to_flag: "s \<in> sizes \<Longrightarrow> to_size (to_flag s) = s"
  using to_size_or [of s 0] by simp

lemma to_flag_inj: "s \<in> sizes \<Longrightarrow> t \<in> sizes \<Longrightarrow> to_flag s = to_flag t \<Longrightarrow> s = t"
  using to_size_to_flag by metis

text \<open>Replacing the size of a flags word: clear the bits, then set the new one.\<close>

lemma to_size_replace: "s \<in> sizes \<Longrightarrow> to_size ((flags AND NOT bits) OR to_flag s) = s"
  by (rule to_size_or) (simp_all add: and.assoc)

end

definition align_sizes :: "int set" where
  "align_sizes = {ALIGN_SIZE_1M, ALIGN_SIZE_2M, ALIGN_SIZE_4M, ALIGN_SIZE_8M}"

definition sector_sizes :: "int set" where
  "sector_sizes = {512, 4096}"

section \<open>Flag bits\<close>

lemma and_flag_zero: "(x :: u32) AND 2 ^ n = 0 \<longleftrightarrow> \<not> bit x n"
  by (rule and_exp_eq_0_iff_not_bit)

lemma and_or_zero: "(x :: u32) AND (a OR b) = 0 \<longleftrightarrow> x AND a = 0 \<and> x AND b = 0"
  by (simp add: bit.conj_disj_distrib or_eq_0_iff)

lemma flag_bits [size_simps]:
  fixes x :: u32
  shows "x AND 1 = 0 \<longleftrightarrow> \<not> bit x 0" and "x AND 2 = 0 \<longleftrightarrow> \<not> bit x 1"
    and "x AND 4 = 0 \<longleftrightarrow> \<not> bit x 2" and "x AND 8 = 0 \<longleftrightarrow> \<not> bit x 3"
    and "x AND 0x10 = 0 \<longleftrightarrow> \<not> bit x 4" and "x AND 0x20 = 0 \<longleftrightarrow> \<not> bit x 5"
    and "x AND 0x40 = 0 \<longleftrightarrow> \<not> bit x 6" and "x AND 0x80 = 0 \<longleftrightarrow> \<not> bit x 7"
    and "x AND 0x100 = 0 \<longleftrightarrow> \<not> bit x 8" and "x AND 0x200 = 0 \<longleftrightarrow> \<not> bit x 9"
  using and_flag_zero [of x 0] and_flag_zero [of x 1] and_flag_zero [of x 2] and_flag_zero [of x 3]
    and_flag_zero [of x 4] and_flag_zero [of x 5] and_flag_zero [of x 6] and_flag_zero [of x 7]
    and_flag_zero [of x 8] and_flag_zero [of x 9]
  by simp_all

lemma flag_masks [size_simps]:
  fixes x :: u32
  shows "x AND 0xF = 0 \<longleftrightarrow> \<not> bit x 0 \<and> \<not> bit x 1 \<and> \<not> bit x 2 \<and> \<not> bit x 3"
    and "x AND 0xF0 = 0 \<longleftrightarrow> \<not> bit x 4 \<and> \<not> bit x 5 \<and> \<not> bit x 6 \<and> \<not> bit x 7"
    and "x AND 0x300 = 0 \<longleftrightarrow> \<not> bit x 8 \<and> \<not> bit x 9"
proof -
  have masks: "(0xF :: u32) = 1 OR (2 OR (4 OR 8))" "(0xF0 :: u32) = 0x10 OR (0x20 OR (0x40 OR 0x80))"
    "(0x300 :: u32) = 0x100 OR 0x200" by simp_all
  show "x AND 0xF = 0 \<longleftrightarrow> \<not> bit x 0 \<and> \<not> bit x 1 \<and> \<not> bit x 2 \<and> \<not> bit x 3"
    unfolding masks(1) and_or_zero flag_bits ..
  show "x AND 0xF0 = 0 \<longleftrightarrow> \<not> bit x 4 \<and> \<not> bit x 5 \<and> \<not> bit x 6 \<and> \<not> bit x 7"
    unfolding masks(2) and_or_zero flag_bits ..
  show "x AND 0x300 = 0 \<longleftrightarrow> \<not> bit x 8 \<and> \<not> bit x 9"
    unfolding masks(3) and_or_zero flag_bits ..
qed

lemmas size_flag_simps = align_sizes_def sector_sizes_def bit_or_iff size_simps

interpretation leader_align: size_flags align_sizes leader_align_flag_from_size leader_align_size_from_flag "0xF0"
  by unfold_locales
    (auto simp: leader_align_flag_from_size_def leader_align_size_from_flag_def size_flag_simps)

interpretation rheader_align: size_flags align_sizes rindex_header_align_flag_from_size
  rindex_header_align_size_from_flag "0xF"
  by unfold_locales
    (auto simp: rindex_header_align_flag_from_size_def rindex_header_align_size_from_flag_def size_flag_simps)

interpretation lsf_align: size_flags align_sizes sanlk_lsf_align_size_to_flag sanlk_lsf_align_flag_to_size "0xF0"
  by unfold_locales (auto simp: sanlk_lsf_align_size_to_flag_def sanlk_lsf_align_flag_to_size_def size_flag_simps)

interpretation lsf_sector: size_flags sector_sizes sanlk_lsf_sector_size_to_flag sanlk_lsf_sector_flag_to_size "0x300"
  by unfold_locales (auto simp: sanlk_lsf_sector_size_to_flag_def sanlk_lsf_sector_flag_to_size_def size_flag_simps)

interpretation res_align: size_flags align_sizes sanlk_res_align_size_to_flag sanlk_res_align_flag_to_size "0xF0"
  by unfold_locales (auto simp: sanlk_res_align_size_to_flag_def sanlk_res_align_flag_to_size_def size_flag_simps)

interpretation res_sector: size_flags sector_sizes sanlk_res_sector_size_to_flag sanlk_res_sector_flag_to_size "0x300"
  by unfold_locales (auto simp: sanlk_res_sector_size_to_flag_def sanlk_res_sector_flag_to_size_def size_flag_simps)

interpretation rif_align: size_flags align_sizes sanlk_rif_align_size_to_flag sanlk_rif_align_flag_to_size "0xF0"
  by unfold_locales (auto simp: sanlk_rif_align_size_to_flag_def sanlk_rif_align_flag_to_size_def size_flag_simps)

interpretation rif_sector: size_flags sector_sizes sanlk_rif_sector_size_to_flag sanlk_rif_sector_flag_to_size "0x300"
  by unfold_locales (auto simp: sanlk_rif_sector_size_to_flag_def sanlk_rif_sector_flag_to_size_def size_flag_simps)

section \<open>Clearing flags\<close>

lemma align_flags_clear_mask:
  "sanlk_res_align_flags_clear flags = flags AND NOT 0xF0" "sanlk_lsf_align_flags_clear flags = flags AND NOT 0xF0"
  by (simp_all add: sanlk_res_align_flags_clear_def sanlk_lsf_align_flags_clear_def and.assoc)

lemma sector_flags_clear_mask:
  "sanlk_res_sector_flags_clear flags = flags AND NOT 0x300" "sanlk_lsf_sector_flags_clear flags = flags AND NOT 0x300"
  by (simp_all add: sanlk_res_sector_flags_clear_def sanlk_lsf_sector_flags_clear_def and.assoc)

section \<open>Properties\<close>

text \<open>
  C35: When \<open>sizes_from_flags\<close> accepts flags that carry sizes, the sector size is 512 or 4096, the area
  is 1, 2, 4 or 8 MB, and the leader sector, the request sector and one sector for each of the
  \<open>max_hosts\<close> hosts fit in the area.  When it accepts flags that carry none, all three sizes are 0.
  It returns nothing but 0 and -1.
\<close>

theorem sizes_from_flags_fit:
  assumes "sizes_from_flags flags kind = (rv, sector_size, align_size, max_hosts)"
  shows "(rv = 0 \<or> rv = -1) \<and>
    (rv = 0 \<and> sector_size \<noteq> 0 \<longrightarrow> sector_size \<in> sector_sizes \<and> align_size \<in> align_sizes \<and>
      0 < max_hosts \<and> max_hosts \<le> 2000 \<and> (2 + max_hosts) * sector_size \<le> align_size) \<and>
    (rv = 0 \<and> sector_size = 0 \<longrightarrow> align_size = 0 \<and> max_hosts = 0)"
proof -
  have fit: "size_to_max_hosts s a \<noteq> 0 \<Longrightarrow> s \<in> sector_sizes \<and> a \<in> align_sizes \<and>
      0 < size_to_max_hosts s a \<and> size_to_max_hosts s a \<le> 2000 \<and> (2 + size_to_max_hosts s a) * s \<le> a" for s a
    by (auto simp: size_to_max_hosts_def align_sizes_def sector_sizes_def split: if_splits)
  show ?thesis
    using assms by (auto simp: sizes_from_flags_def Let_def fit split: if_splits)
qed

theorem sizes_from_flags_fit_witness:
  "sizes_from_flags 0x210 ''RES'' = (0, 4096, 1048576, 250) \<and> (2 + 250) * (4096 :: int) \<le> 1048576"
proof -
  have "sizes_from_flags 0x210 ''RES'' = (0, 4096, 1048576, 250)"
    by (simp add: sizes_from_flags_def sanlk_res_align_flag_to_size_def sanlk_res_sector_flag_to_size_def
        size_to_max_hosts_def)
  then show ?thesis using sizes_from_flags_fit [of "0x210" "''RES''"] by simp
qed

text \<open>
  C36: Setting the sizes of a resource or of a lockspace in any flags word (clear the old bits, then set
  those of the new sizes) and translating the flags back gives the sizes and the number of hosts they
  have room for; a leader record and a resource index header give the area size back from their flags.
\<close>

theorem size_flags_roundtrip:
  assumes "size_to_max_hosts s a = m" and "m \<noteq> 0"
  shows "sizes_from_flags (sanlk_res_sector_flags_clear (sanlk_res_align_flags_clear flags)
        OR sanlk_res_align_size_to_flag a OR sanlk_res_sector_size_to_flag s) ''RES'' = (0, s, a, m) \<and>
    sizes_from_flags (sanlk_lsf_sector_flags_clear (sanlk_lsf_align_flags_clear flags)
        OR sanlk_lsf_align_size_to_flag a OR sanlk_lsf_sector_size_to_flag s) ''LSF'' = (0, s, a, m) \<and>
    leader_align_size_from_flag (LFL_SHORT_HOLD OR leader_align_flag_from_size a) = a \<and>
    leader_align_size_from_flag (leader_align_flag_from_size a) = a \<and>
    rindex_header_align_size_from_flag (rindex_header_align_flag_from_size a) = a"
proof -
  have s: "s = 512 \<or> s = 4096" and a: "a \<in> align_sizes"
    using assms by (auto simp: size_to_max_hosts_def align_sizes_def split: if_splits)
  define f where "f = sanlk_res_sector_flags_clear (sanlk_res_align_flags_clear flags)"
  have clear: "sanlk_res_sector_flags_clear (sanlk_res_align_flags_clear flags) = f"
    "sanlk_lsf_sector_flags_clear (sanlk_lsf_align_flags_clear flags) = f"
    by (simp_all only: f_def align_flags_clear_mask sector_flags_clear_mask)
  have f: "\<not> bit f 4" "\<not> bit f 5" "\<not> bit f 6" "\<not> bit f 7" "\<not> bit f 8" "\<not> bit f 9"
    by (simp_all add: f_def align_flags_clear_mask sector_flags_clear_mask bit_and_iff bit_not_iff)
  have "sanlk_res_align_flag_to_size (f OR sanlk_res_align_size_to_flag a OR sanlk_res_sector_size_to_flag s) = a"
    "sanlk_lsf_align_flag_to_size (f OR sanlk_lsf_align_size_to_flag a OR sanlk_lsf_sector_size_to_flag s) = a"
    "sanlk_res_sector_flag_to_size (f OR sanlk_res_align_size_to_flag a OR sanlk_res_sector_size_to_flag s) = s"
    "sanlk_lsf_sector_flag_to_size (f OR sanlk_lsf_align_size_to_flag a OR sanlk_lsf_sector_size_to_flag s) = s"
    using s a f
    by (auto simp: sanlk_res_align_flag_to_size_def sanlk_lsf_align_flag_to_size_def
        sanlk_res_align_size_to_flag_def sanlk_lsf_align_size_to_flag_def sanlk_res_sector_size_to_flag_def
        sanlk_lsf_sector_size_to_flag_def sanlk_res_sector_flag_to_size_def sanlk_lsf_sector_flag_to_size_def
        size_flag_simps)
  moreover have "a \<noteq> 0" using a by (auto simp: align_sizes_def)
  ultimately show ?thesis
    using assms s a leader_align.to_size_or [of a 1] leader_align.to_size_to_flag rheader_align.to_size_to_flag
    by (auto simp: sizes_from_flags_def Let_def clear)
qed

theorem size_flags_roundtrip_witness:
  "sizes_from_flags (sanlk_res_sector_flags_clear (sanlk_res_align_flags_clear 0x184)
     OR sanlk_res_align_size_to_flag ALIGN_SIZE_2M OR sanlk_res_sector_size_to_flag 4096) ''RES'' =
     (0, 4096, ALIGN_SIZE_2M, 500)"
  using size_flags_roundtrip [of 4096 ALIGN_SIZE_2M 500 "0x184"] by (simp add: size_to_max_hosts_def)

end
