(* ===== verification/Diskio.thy ===== *)
theory Diskio
  imports Sizeflags
begin

text \<open>
  Disk access: \<open>src/diskio.c\<close>.  The code that talks to the disks, to the clock and to the shared state
  of the daemon is modelled by trees of operations (\<open>io\<close>): each node is one call that leaves the
  translated code (a device read or write, \<open>posix_memalign\<close>, \<open>monotime\<close>, \<open>sleep\<close>, ...) with the
  continuation that receives its result.  \<open>Shared g k\<close> is a critical section on the state that the threads
  of the daemon share: it finds \<open>s\<close>, leaves \<open>g s\<close> and goes on with \<open>k s\<close>.  \<open>Call\<close> is any other call that
  leaves the daemon, for instance to the watchdog daemon, with its arguments and its result.  Three semantics are given to the same trees:

  \<^item> \<open>wp Q m h\<close>: the result of \<open>m\<close>, and the history of calls it made after \<open>h\<close>, satisfy \<open>Q\<close> whatever
    the calls return, so under every behaviour of the devices, of the other hosts and of the other
    threads;

  \<^item> \<open>exec m e\<close>: the run of \<open>m\<close> in the environment \<open>e\<close>, whose disks nobody else writes;

  \<^item> the interleaving of several hosts, in the theories on ballots.

  Loops whose number of rounds the code does not bound take a fuel argument and end in \<open>Out_of_fuel\<close>,
  which stands for a run that is not over yet, when it is used up.
\<close>

section \<open>Operations\<close>

record sync_disk =
  sd_path :: string
  sd_offset :: u64
  sd_sector_size :: u32
  sd_fd :: int

datatype ('st, 'a) io =
    Ret 'a
  | Out_of_fuel
  | Posix_memalign nat "int \<Rightarrow> bytes \<Rightarrow> ('st, 'a) io"
  | Uninit nat "bytes \<Rightarrow> ('st, 'a) io"
  | Write_iobuf sync_disk u64 bytes int "int \<Rightarrow> ('st, 'a) io"
  | Read_iobuf sync_disk u64 nat int "int \<Rightarrow> bytes \<Rightarrow> ('st, 'a) io"
  | Open_path string "int \<Rightarrow> ('st, 'a) io"
  | Monotime "u64 \<Rightarrow> ('st, 'a) io"
  | Sleep nat "('st, 'a) io"
  | Usleep int "('st, 'a) io"
  | Get_rand int int "int \<Rightarrow> ('st, 'a) io"
  | Call string "int list" "int \<Rightarrow> ('st, 'a) io"
  | Shared "'st \<Rightarrow> 'st" "'st \<Rightarrow> ('st, 'a) io"

abbreviation Get_shared :: "('st \<Rightarrow> ('st, 'a) io) \<Rightarrow> ('st, 'a) io" where "Get_shared k \<equiv> Shared (\<lambda>s. s) k"

primrec bnd :: "('st, 'a) io \<Rightarrow> ('a \<Rightarrow> ('st, 'b) io) \<Rightarrow> ('st, 'b) io" where
  "bnd (Ret x) f = f x"
| "bnd Out_of_fuel f = Out_of_fuel"
| "bnd (Posix_memalign n k) f = Posix_memalign n (\<lambda>rv b. bnd (k rv b) f)"
| "bnd (Uninit n k) f = Uninit n (\<lambda>b. bnd (k b) f)"
| "bnd (Write_iobuf d off b t k) f = Write_iobuf d off b t (\<lambda>rv. bnd (k rv) f)"
| "bnd (Read_iobuf d off n t k) f = Read_iobuf d off n t (\<lambda>rv b. bnd (k rv b) f)"
| "bnd (Open_path p k) f = Open_path p (\<lambda>rv. bnd (k rv) f)"
| "bnd (Monotime k) f = Monotime (\<lambda>t. bnd (k t) f)"
| "bnd (Sleep n k) f = Sleep n (bnd k f)"
| "bnd (Usleep n k) f = Usleep n (bnd k f)"
| "bnd (Get_rand a b k) f = Get_rand a b (\<lambda>r. bnd (k r) f)"
| "bnd (Call c args k) f = Call c args (\<lambda>rv. bnd (k rv) f)"
| "bnd (Shared g k) f = Shared g (\<lambda>s. bnd (k s) f)"

lemma io_induct [case_names Ret Out_of_fuel Posix_memalign Uninit Write_iobuf Read_iobuf Open_path
    Monotime Sleep Usleep Get_rand Call Shared, induct type: io]:
  assumes "\<And>x. P (Ret x)" and "P Out_of_fuel"
    and "\<And>n k. (\<And>rv b. P (k rv b)) \<Longrightarrow> P (Posix_memalign n k)"
    and "\<And>n k. (\<And>b. P (k b)) \<Longrightarrow> P (Uninit n k)"
    and "\<And>d off b t k. (\<And>rv. P (k rv)) \<Longrightarrow> P (Write_iobuf d off b t k)"
    and "\<And>d off n t k. (\<And>rv b. P (k rv b)) \<Longrightarrow> P (Read_iobuf d off n t k)"
    and "\<And>p k. (\<And>rv. P (k rv)) \<Longrightarrow> P (Open_path p k)"
    and "\<And>k. (\<And>t. P (k t)) \<Longrightarrow> P (Monotime k)"
    and "\<And>n k. P k \<Longrightarrow> P (Sleep n k)" and "\<And>n k. P k \<Longrightarrow> P (Usleep n k)"
    and "\<And>a b k. (\<And>r. P (k r)) \<Longrightarrow> P (Get_rand a b k)"
    and "\<And>c args k. (\<And>rv. P (k rv)) \<Longrightarrow> P (Call c args k)"
    and "\<And>g k. (\<And>s. P (k s)) \<Longrightarrow> P (Shared g k)"
  shows "P m"
  by (rule io.induct) (rule assms; blast)+

lemma bnd_assoc: "bnd (bnd m f) g = bnd m (\<lambda>x. bnd (f x) g)"
  by (induction m) simp_all

lemma bnd_if [io_simps]: "bnd (if c then m else m') f = (if c then bnd m f else bnd m' f)"
  by simp

text \<open>A size passed where C expects a \<open>size_t\<close>: a negative \<open>int\<close> becomes very large.\<close>

definition size_t :: "int \<Rightarrow> nat" where
  "size_t n = unat (word_of_int n :: u64)"

lemma size_t_nonneg [simp]: "0 \<le> n \<Longrightarrow> n < 2 ^ 63 \<Longrightarrow> size_t n = nat n"
  by (simp add: size_t_def unsigned_of_int take_bit_int_eq_self)

section \<open>All behaviours of the environment\<close>

datatype 'st event =
    E_memalign nat int bytes
  | E_uninit bytes
  | E_write sync_disk u64 bytes int
  | E_read sync_disk u64 nat int bytes
  | E_open string int
  | E_time u64
  | E_sleep nat
  | E_usleep int
  | E_rand int
  | E_call string "int list" int
  | E_shared 'st

text \<open>
  What the calls can return: \<open>posix_memalign\<close> returns 0 or a positive error number, device I/O returns 0
  or a negative error, a buffer has the size asked for, \<open>get_rand a b\<close> returns a negative number on
  failure and otherwise one in its range.
\<close>

primrec wp :: "('a \<Rightarrow> 'st event list \<Rightarrow> bool) \<Rightarrow> ('st, 'a) io \<Rightarrow> 'st event list \<Rightarrow> bool" where
  "wp Q (Ret x) = (\<lambda>h. Q x h)"
| "wp Q Out_of_fuel = (\<lambda>h. True)"
| "wp Q (Posix_memalign n k) = (\<lambda>h. \<forall>rv b. 0 \<le> rv \<longrightarrow> length b = n \<longrightarrow> wp Q (k rv b) (h @ [E_memalign n rv b]))"
| "wp Q (Uninit n k) = (\<lambda>h. \<forall>b. length b = n \<longrightarrow> wp Q (k b) (h @ [E_uninit b]))"
| "wp Q (Write_iobuf d off b t k) = (\<lambda>h. \<forall>rv. rv \<le> 0 \<longrightarrow> wp Q (k rv) (h @ [E_write d off b rv]))"
| "wp Q (Read_iobuf d off n t k) =
    (\<lambda>h. \<forall>rv b. rv \<le> 0 \<longrightarrow> length b = n \<longrightarrow> wp Q (k rv b) (h @ [E_read d off n rv b]))"
| "wp Q (Open_path p k) = (\<lambda>h. \<forall>rv. wp Q (k rv) (h @ [E_open p rv]))"
| "wp Q (Monotime k) = (\<lambda>h. \<forall>t. wp Q (k t) (h @ [E_time t]))"
| "wp Q (Sleep n k) = (\<lambda>h. wp Q k (h @ [E_sleep n]))"
| "wp Q (Usleep n k) = (\<lambda>h. wp Q k (h @ [E_usleep n]))"
| "wp Q (Get_rand a b k) = (\<lambda>h. \<forall>r. r < 0 \<or> a \<le> r \<and> r \<le> b \<longrightarrow> wp Q (k r) (h @ [E_rand r]))"
| "wp Q (Call c args k) = (\<lambda>h. \<forall>rv. wp Q (k rv) (h @ [E_call c args rv]))"
| "wp Q (Shared g k) = (\<lambda>h. \<forall>s. wp Q (k s) (h @ [E_shared s]))"

lemma wp_bnd [io_simps]: "wp Q (bnd m f) h = wp (\<lambda>x. wp Q (f x)) m h"
  by (induction m arbitrary: h) simp_all

lemma wp_mono: "wp Q m h \<Longrightarrow> (\<And>x h. Q x h \<Longrightarrow> R x h) \<Longrightarrow> wp R m h"
  by (induction m arbitrary: h) auto

lemma wp_conj: "wp (\<lambda>x h. Q x h \<and> R x h) m h \<longleftrightarrow> wp Q m h \<and> wp R m h"
  by (induction m arbitrary: h) auto

lemma wp_true [simp]: "wp (\<lambda>x h. True) m h"
  by (induction m arbitrary: h) auto

section \<open>Runs in one environment\<close>

text \<open>
  The outcome of one device operation: success, a failure without effect, or a failure reported for a
  write that reached the disk nevertheless.
\<close>

datatype io_result = Done | Failed int | Landed int

primrec result_rv :: "io_result \<Rightarrow> int" where
  "result_rv Done = 0"
| "result_rv (Failed e) = (if e < 0 then e else -1)"
| "result_rv (Landed e) = (if e < 0 then e else -1)"

primrec result_lands :: "io_result \<Rightarrow> bool" where
  "result_lands Done = True"
| "result_lands (Failed e) = False"
| "result_lands (Landed e) = True"

type_synonym disks = "string \<Rightarrow> nat \<Rightarrow> u8"

definition disk_read :: "disks \<Rightarrow> string \<Rightarrow> nat \<Rightarrow> nat \<Rightarrow> bytes" where
  "disk_read ds p off n = map (ds p) [off..<off + n]"

definition disk_write :: "disks \<Rightarrow> string \<Rightarrow> nat \<Rightarrow> bytes \<Rightarrow> disks" where
  "disk_write ds p off b =
    ds(p := \<lambda>a. if off \<le> a \<and> a < off + length b then b ! (a - off) else ds p a)"

text \<open>
  An environment: the disks; the clock; the memory contents that uninitialised variables show; the
  outcomes of the next device operations, allocations, and random numbers (when a list is used up, the
  operation succeeds); the time each device operation takes; the shared state.
\<close>

record 'st env =
  env_disks :: disks
  env_time :: u64
  env_junk :: "nat \<Rightarrow> u8"
  env_io :: "io_result list"
  env_ticks :: "nat list"
  env_mem :: "nat list"
  env_rand :: "int list"
  env_open :: "int list"
  env_calls :: "int list"
  env_shared :: 'st

definition next_or :: "'a \<Rightarrow> 'a list \<Rightarrow> 'a" where
  "next_or x xs = (case xs of [] \<Rightarrow> x | y # ys \<Rightarrow> y)"

definition env_tick :: "'st env \<Rightarrow> 'st env" where
  "env_tick e = e\<lparr>env_io := tl (env_io e), env_ticks := tl (env_ticks e),
     env_time := env_time e + of_nat (next_or 0 (env_ticks e))\<rparr>"

definition env_write :: "'st env \<Rightarrow> sync_disk \<Rightarrow> u64 \<Rightarrow> bytes \<Rightarrow> int \<times> 'st env" where
  "env_write e d off b =
    (let r = next_or Done (env_io e); e' = env_tick e
     in (result_rv r,
         if result_lands r then e'\<lparr>env_disks := disk_write (env_disks e) (sd_path d) (unat off) b\<rparr> else e'))"

definition env_read :: "'st env \<Rightarrow> sync_disk \<Rightarrow> u64 \<Rightarrow> nat \<Rightarrow> int \<times> bytes \<times> 'st env" where
  "env_read e d off n =
    (let r = next_or Done (env_io e)
     in (result_rv r, if r = Done then disk_read (env_disks e) (sd_path d) (unat off) n else map (env_junk e) [0..<n],
         env_tick e))"

primrec exec :: "('st, 'a) io \<Rightarrow> 'st env \<Rightarrow> ('a \<times> 'st env) option" where
  "exec (Ret x) = (\<lambda>e. Some (x, e))"
| "exec Out_of_fuel = (\<lambda>e. None)"
| "exec (Posix_memalign n k) =
    (\<lambda>e. exec (k (int (next_or 0 (env_mem e))) (map (env_junk e) [0..<n])) (e\<lparr>env_mem := tl (env_mem e)\<rparr>))"
| "exec (Uninit n k) = (\<lambda>e. exec (k (map (env_junk e) [0..<n])) e)"
| "exec (Write_iobuf d off b t k) = (\<lambda>e. case env_write e d off b of (rv, e') \<Rightarrow> exec (k rv) e')"
| "exec (Read_iobuf d off n t k) = (\<lambda>e. case env_read e d off n of (rv, b, e') \<Rightarrow> exec (k rv b) e')"
| "exec (Open_path p k) = (\<lambda>e. exec (k (next_or 3 (env_open e))) (e\<lparr>env_open := tl (env_open e)\<rparr>))"
| "exec (Monotime k) = (\<lambda>e. exec (k (env_time e)) e)"
| "exec (Sleep n k) = (\<lambda>e. exec k (e\<lparr>env_time := env_time e + of_nat n\<rparr>))"
| "exec (Usleep n k) = (\<lambda>e. exec k e)"
| "exec (Get_rand a b k) =
    (\<lambda>e. let r = next_or a (env_rand e) in exec (k (if a \<le> r \<and> r \<le> b then r else -1)) (e\<lparr>env_rand := tl (env_rand e)\<rparr>))"
| "exec (Call c args k) = (\<lambda>e. exec (k (next_or 0 (env_calls e))) (e\<lparr>env_calls := tl (env_calls e)\<rparr>))"
| "exec (Shared g k) = (\<lambda>e. exec (k (env_shared e)) (e\<lparr>env_shared := g (env_shared e)\<rparr>))"

lemma exec_bnd [io_simps]:
  "exec (bnd m f) e = (case exec m e of None \<Rightarrow> None | Some (x, e') \<Rightarrow> exec (f x) e')"
  by (induction m arbitrary: e) (simp_all add: Let_def split: prod.splits)

lemma result_rv_le [simp]: "result_rv r \<le> 0"
  by (cases r) auto

lemma length_disk_read [simp, size_simps]: "length (disk_read ds p off n) = n"
  by (simp add: disk_read_def)

text \<open>What holds of every run under \<open>wp\<close> holds of the run in an environment.\<close>

lemma exec_wp: "wp Q m h \<Longrightarrow> exec m e = Some (x, e') \<Longrightarrow> \<exists>h'. Q x h'"
proof (induction m arbitrary: h e)
  case (Write_iobuf d off b t k)
  obtain rv e2 where w: "env_write e d off b = (rv, e2)" by fastforce
  then have "rv \<le> 0" by (auto simp: env_write_def Let_def)
  with w Write_iobuf show ?case by fastforce
next
  case (Read_iobuf d off n t k)
  have "length (if next_or Done (env_io e) = Done then disk_read (env_disks e) (sd_path d) (unat off) n
      else map (env_junk e) [0..<n]) = n" by simp
  with Read_iobuf show ?case unfolding exec.simps wp.simps env_read_def Let_def by (metis prod.case result_rv_le)
next
  case (Get_rand a b k)
  define r where "r = (if a \<le> next_or a (env_rand e) \<and> next_or a (env_rand e) \<le> b then next_or a (env_rand e) else -1)"
  then have "r < 0 \<or> a \<le> r \<and> r \<le> b" by auto
  moreover have "exec (k r) (e\<lparr>env_rand := tl (env_rand e)\<rparr>) = Some (x, e')"
    using Get_rand.prems(2) by (simp add: Let_def r_def)
  ultimately show ?case using Get_rand.IH [of r] Get_rand.prems(1) by auto
next
  case (Posix_memalign n k)
  then have "wp Q (k (int (next_or 0 (env_mem e))) (map (env_junk e) [0..<n]))
      (h @ [E_memalign n (int (next_or 0 (env_mem e))) (map (env_junk e) [0..<n])])" by simp
  then show ?case using Posix_memalign.IH Posix_memalign.prems(2) by fastforce
next
  case (Uninit n k)
  then have "wp Q (k (map (env_junk e) [0..<n])) (h @ [E_uninit (map (env_junk e) [0..<n])])" by simp
  then show ?case using Uninit.IH Uninit.prems(2) by fastforce
qed (auto, blast+)

section \<open>Byte stores\<close>

text \<open>
  The laws of the disks that the lease code relies on: a read returns what was last written to each of
  its bytes, and a write changes nothing else.
\<close>

locale byte_store =
  fixes rd :: "'s \<Rightarrow> 'p \<Rightarrow> nat \<Rightarrow> nat \<Rightarrow> bytes" and wr :: "'s \<Rightarrow> 'p \<Rightarrow> nat \<Rightarrow> bytes \<Rightarrow> 's"
  assumes rd_length: "length (rd s p off n) = n"
    and rd_slice: "o' + n' \<le> n \<Longrightarrow> slice o' n' (rd s p off n) = rd s p (off + o') n'"
    and rd_wr_same: "rd (wr s p off b) p off (length b) = b"
    and rd_wr_other: "p \<noteq> q \<or> off' + n \<le> off \<or> off + length b \<le> off' \<Longrightarrow> rd (wr s p off b) q off' n = rd s q off' n"
begin

lemma rd_wr_inside:
  assumes "off \<le> off'" and "off' + n \<le> off + length b"
  shows "rd (wr s p off b) p off' n = slice (off' - off) n b"
  using rd_slice [of "off' - off" n "length b" "wr s p off b" p off] assms by (simp add: rd_wr_same)

text \<open>Sector \<open>i\<close> of an area that starts at \<open>base\<close>.\<close>

lemma rd_wr_sector:
  assumes "length b = ss" and "i \<noteq> j"
  shows "rd (wr s p (base + i * ss) b) p (base + j * ss) ss = rd s p (base + j * ss) ss"
proof -
  have "base + j * ss + ss \<le> base + i * ss \<or> base + i * ss + length b \<le> base + j * ss"
  proof (cases "i < j")
    case True
    then have "(i + 1) * ss \<le> j * ss" by (intro mult_right_mono) auto
    then show ?thesis using assms by (simp add: algebra_simps)
  next
    case False
    then have "(j + 1) * ss \<le> i * ss" using assms by (intro mult_right_mono) auto
    then show ?thesis by (simp add: algebra_simps)
  qed
  then show ?thesis by (intro rd_wr_other) auto
qed

end

interpretation disk_store: byte_store disk_read disk_write
proof
  show "o' + n' \<le> n \<Longrightarrow> slice o' n' (disk_read s p off n) = disk_read s p (off + o') n'"
    for o' n' n s p off
    by (simp add: disk_read_def slice_map_upt)
  show "disk_read (disk_write s p off b) p off (length b) = b" for s p off b
    by (rule nth_equalityI) (auto simp: disk_read_def disk_write_def)
  show "p \<noteq> q \<or> off' + n \<le> off \<or> off + length b \<le> off' \<Longrightarrow>
      disk_read (disk_write s p off b) q off' n = disk_read s q off' n" for p q off' n off b s
    by (auto simp: disk_read_def disk_write_def)
qed simp

section \<open>Majorities\<close>

definition majority_disks :: "nat \<Rightarrow> nat \<Rightarrow> bool" where
  "majority_disks num_disks num =
    (if num_disks = 1 \<and> num = 0 then False
     else if num_disks mod 2 \<noteq> 0 then num \<ge> num_disks div 2 + 1
     else if num > num_disks div 2 then True
     else if num < num_disks div 2 then False
     else False)"

lemma majority_disks_iff: "majority_disks n k \<longleftrightarrow> n < 2 * k"
  unfolding majority_disks_def by presburger

text \<open>The contract of a majority, used by the ballots: any two of them share a disk.\<close>

locale quorum_system =
  fixes quorum :: "'d set \<Rightarrow> bool"
  assumes quorum_intersect: "quorum A \<Longrightarrow> quorum B \<Longrightarrow> A \<inter> B \<noteq> {}"
begin

lemma quorum_common: "quorum A \<Longrightarrow> quorum B \<Longrightarrow> \<exists>d. d \<in> A \<and> d \<in> B"
  using quorum_intersect by blast

lemma quorum_nonempty: "quorum A \<Longrightarrow> A \<noteq> {}"
  using quorum_intersect by blast

end

definition disk_quorum :: "nat \<Rightarrow> nat set \<Rightarrow> bool" where
  "disk_quorum n A \<longleftrightarrow> A \<subseteq> {..<n} \<and> majority_disks n (card A)"

interpretation majority: quorum_system "disk_quorum n" for n
proof
  fix A B
  assume "disk_quorum n A" and "disk_quorum n B"
  then have sub: "A \<subseteq> {..<n}" "B \<subseteq> {..<n}" and maj: "n < 2 * card A" "n < 2 * card B"
    by (auto simp: disk_quorum_def majority_disks_iff)
  then have fin: "finite A" "finite B" using finite_subset by blast+
  show "A \<inter> B \<noteq> {}"
  proof
    assume "A \<inter> B = {}"
    then have "card A + card B = card (A \<union> B)" using fin by (simp add: card_Un_disjoint)
    also have "\<dots> \<le> card {..<n}" using sub by (intro card_mono) auto
    finally show False using maj by simp
  qed
qed

section \<open>Sector reads and writes\<close>

text \<open>
  \<open>do_write_sectors\<close> is the source's \<open>_write_sectors\<close>.  The destination of a read is passed with its
  previous contents, which stay when the read fails.
\<close>

definition do_write_sectors ::
    "sync_disk \<Rightarrow> int \<Rightarrow> u64 \<Rightarrow> bytes \<Rightarrow> int \<Rightarrow> int \<Rightarrow> ('st, int) io" where
  "do_write_sectors disk sector_size sector_nr data iobuf_len ioto =
    (let offset = sd_offset disk + sector_nr * word_of_int sector_size
     in Posix_memalign (size_t iobuf_len) (\<lambda>rv mem.
          if rv \<noteq> 0 then Ret (- ENOMEM)
          else Write_iobuf disk offset (splice_at 0 data (replicate (size_t iobuf_len) 0)) ioto Ret))"

definition write_sector :: "sync_disk \<Rightarrow> int \<Rightarrow> u64 \<Rightarrow> bytes \<Rightarrow> int \<Rightarrow> ('st, int) io" where
  "write_sector disk sector_size sector_nr data ioto =
    (if sector_size \<noteq> 4096 \<and> sector_size \<noteq> 512 then Ret (- EINVAL)
     else if int (length data) > sector_size then Ret (-1)
     else do_write_sectors disk sector_size sector_nr data sector_size ioto)"

definition write_sectors :: "sync_disk \<Rightarrow> int \<Rightarrow> u64 \<Rightarrow> u32 \<Rightarrow> bytes \<Rightarrow> int \<Rightarrow> ('st, int) io" where
  "write_sectors disk sector_size sector_nr sector_count data ioto =
    (if sector_size \<noteq> 4096 \<and> sector_size \<noteq> 512 then Ret (- EINVAL)
     else if (of_nat (length data) :: u32) \<noteq> sector_count * word_of_int sector_size then Ret (-1)
     else do_write_sectors disk sector_size sector_nr data (int (length data)) ioto)"

definition read_sectors ::
    "sync_disk \<Rightarrow> int \<Rightarrow> u64 \<Rightarrow> u32 \<Rightarrow> bytes \<Rightarrow> int \<Rightarrow> ('st, int \<times> bytes) io" where
  "read_sectors disk sector_size sector_nr sector_count data ioto =
    (if sector_size \<noteq> 512 \<and> sector_size \<noteq> 4096 then Ret (- EINVAL, data)
     else
       (let iobuf_len = sint (sector_count * word_of_int sector_size);
            offset = sd_offset disk + sector_nr * word_of_int sector_size
        in Posix_memalign (size_t iobuf_len) (\<lambda>rv mem.
             if rv \<noteq> 0 then Ret (- ENOMEM, data)
             else Read_iobuf disk offset (size_t iobuf_len) ioto (\<lambda>rv iobuf.
               if rv = 0 then Ret (rv, take (length data) iobuf) else Ret (rv, data)))))"

section \<open>Opening and closing\<close>

definition close_disks :: "sync_disk list \<Rightarrow> sync_disk list" where
  "close_disks disks = map (\<lambda>d. if sd_fd d = -1 then d else d\<lparr>sd_fd := -1\<rparr>) disks"

text \<open>The loop of \<open>open_disks_fd\<close>: \<open>done\<close> are the disks already visited.\<close>

fun open_disks_fd_loop ::
    "nat \<Rightarrow> sync_disk list \<Rightarrow> sync_disk list \<Rightarrow> nat \<Rightarrow> int \<Rightarrow> ('st, int \<times> sync_disk list) io" where
  "open_disks_fd_loop num_disks visited [] num_opens rv =
    (if \<not> majority_disks num_disks num_opens then Ret (rv, close_disks visited) else Ret (0, visited))"
| "open_disks_fd_loop num_disks visited (disk # rest) num_opens rv =
    (if sd_fd disk \<noteq> -1 then Ret (-1, close_disks (visited @ disk # rest))
     else Open_path (sd_path disk) (\<lambda>fd.
       if fd < 0 then open_disks_fd_loop num_disks (visited @ [disk]) rest num_opens fd
       else open_disks_fd_loop num_disks (visited @ [disk\<lparr>sd_fd := fd\<rparr>]) rest (num_opens + 1) rv))"

definition open_disks_fd :: "sync_disk list \<Rightarrow> ('st, int \<times> sync_disk list) io" where
  "open_disks_fd disks = open_disks_fd_loop (length disks) [] disks 0 (-1)"

text \<open>
  What \<open>fstat\<close> and \<open>libblkid\<close> say about a path: the latter is code outside this repository, so the answer
  is a parameter.
\<close>

datatype disk_probe = Fstat_error int | Regular_file | No_probe | Probe u32

definition open_disk :: "(string \<Rightarrow> disk_probe) \<Rightarrow> sync_disk \<Rightarrow> ('st, int \<times> sync_disk) io" where
  "open_disk probe disk =
    Open_path (sd_path disk) (\<lambda>fd.
      if fd < 0 then Ret (fd, disk)
      else case probe (sd_path disk) of
        Fstat_error errno \<Rightarrow> Ret (if - errno \<ge> 0 then -1 else - errno, disk)
      | Regular_file \<Rightarrow> Ret (0, disk\<lparr>sd_sector_size := 512, sd_fd := fd\<rparr>)
      | No_probe \<Rightarrow> Ret (-1, disk)
      | Probe sector_size \<Rightarrow> Ret (0, disk\<lparr>sd_sector_size := sector_size, sd_fd := fd\<rparr>))"

text \<open>Different sector sizes are only logged.\<close>

fun open_disks_loop ::
    "(string \<Rightarrow> disk_probe) \<Rightarrow> nat \<Rightarrow> sync_disk list \<Rightarrow> sync_disk list \<Rightarrow> nat \<Rightarrow> int \<Rightarrow> ('st, int \<times> sync_disk list) io" where
  "open_disks_loop probe num_disks visited [] num_opens rv =
    (if \<not> majority_disks num_disks num_opens then Ret (rv, close_disks visited) else Ret (0, visited))"
| "open_disks_loop probe num_disks visited (disk # rest) num_opens rv =
    (if sd_fd disk \<noteq> -1 then Ret (- ENOTEMPTY, close_disks (visited @ disk # rest))
     else bnd (open_disk probe disk) (\<lambda>(err, disk).
       if err < 0 then open_disks_loop probe num_disks (visited @ [disk]) rest num_opens err
       else open_disks_loop probe num_disks (visited @ [disk]) rest (num_opens + 1) rv))"

definition open_disks :: "(string \<Rightarrow> disk_probe) \<Rightarrow> sync_disk list \<Rightarrow> ('st, int \<times> sync_disk list) io" where
  "open_disks probe disks = open_disks_loop probe (length disks) [] disks 0 (-1)"

section \<open>Undisturbed runs\<close>

text \<open>An environment in which device operations and allocations succeed.\<close>

definition smooth :: "'st env \<Rightarrow> bool" where
  "smooth e \<longleftrightarrow> env_io e = [] \<and> env_mem e = []"

lemma smooth_memalign: "smooth e \<Longrightarrow> exec (Posix_memalign n k) e = exec (k 0 (map (env_junk e) [0..<n])) e"
proof -
  assume "smooth e"
  then have mem: "env_mem e = []" by (simp add: smooth_def)
  then have eq: "e\<lparr>env_mem := []\<rparr> = e" by simp
  show ?thesis by (simp only: exec.simps mem next_or_def list.case list.sel eq) simp
qed

definition after_io :: "'st env \<Rightarrow> disks \<Rightarrow> 'st env" where
  "after_io e ds = (env_tick e)\<lparr>env_disks := ds\<rparr>"

lemma smooth_write:
  "smooth e \<Longrightarrow> exec (Write_iobuf d off b t k) e = exec (k 0) (after_io e (disk_write (env_disks e) (sd_path d) (unat off) b))"
  by (simp add: smooth_def env_write_def next_or_def Let_def after_io_def)

lemma smooth_read:
  "smooth e \<Longrightarrow> exec (Read_iobuf d off n t k) e = exec (k 0 (disk_read (env_disks e) (sd_path d) (unat off) n)) (after_io e (env_disks e))"
  by (simp add: smooth_def env_read_def next_or_def Let_def after_io_def env_tick_def)

lemma smooth_after_io [simp]: "smooth e \<Longrightarrow> smooth (after_io e ds)"
  by (simp add: smooth_def after_io_def env_tick_def)

lemma disks_after_io [simp]: "env_disks (after_io e ds) = ds"
  by (simp add: after_io_def)

section \<open>Sector operations in an undisturbed environment\<close>

definition sector_off :: "sync_disk \<Rightarrow> int \<Rightarrow> u64 \<Rightarrow> nat" where
  "sector_off disk sector_size sector_nr = unat (sd_offset disk + sector_nr * word_of_int sector_size)"

definition sector_at :: "disks \<Rightarrow> sync_disk \<Rightarrow> int \<Rightarrow> u64 \<Rightarrow> bytes" where
  "sector_at ds disk sector_size sector_nr = disk_read ds (sd_path disk) (sector_off disk sector_size sector_nr) (nat sector_size)"

lemma length_sector_at [simp, size_simps]: "length (sector_at ds disk ss nr) = nat ss"
  by (simp add: sector_at_def)

definition write_sector_at :: "disks \<Rightarrow> sync_disk \<Rightarrow> int \<Rightarrow> u64 \<Rightarrow> bytes \<Rightarrow> disks" where
  "write_sector_at ds disk sector_size sector_nr data = disk_write ds (sd_path disk) (sector_off disk sector_size sector_nr)
     (data @ replicate (nat sector_size - length data) 0)"

lemma sector_at_write: "length data \<le> nat ss \<Longrightarrow>
    sector_at (write_sector_at ds disk ss nr data) disk ss nr = data @ replicate (nat ss - length data) 0"
  using disk_store.rd_wr_same [of ds "sd_path disk" "sector_off disk ss nr" "data @ replicate (nat ss - length data) 0"]
  by (simp add: sector_at_def write_sector_at_def)

lemma exec_write_sector:
  assumes "sector_size = 512 \<or> sector_size = 4096" and "int (length data) \<le> sector_size" and "smooth e"
  shows "exec (write_sector disk sector_size nr data ioto) e = Some (0, after_io e (write_sector_at (env_disks e) disk sector_size nr data))"
proof -
  have "size_t sector_size = nat sector_size" using assms(1) by auto
  then have b: "splice_at 0 data (replicate (size_t sector_size) 0) = data @ replicate (nat sector_size - length data) 0"
    using assms(2) by (simp add: splice_at_def)
  show ?thesis
    using assms by (auto simp: write_sector_def do_write_sectors_def Let_def smooth_memalign smooth_write b sector_off_def write_sector_at_def
        simp del: exec.simps(3,5))
qed

lemma exec_read_sectors:
  assumes "sector_size = 512 \<or> sector_size = 4096" and "smooth e"
  shows "exec (read_sectors disk sector_size nr 1 data ioto) e =
    Some ((0, take (length data) (sector_at (env_disks e) disk sector_size nr)), after_io e (env_disks e))"
proof -
  have "size_t (sint (word_of_int sector_size :: u32)) = nat sector_size" using assms(1) by auto
  then show ?thesis
    using assms
    by (auto simp: read_sectors_def Let_def smooth_memalign smooth_read sector_off_def sector_at_def simp del: exec.simps(3,6))
qed

end
