(* ===== verification/Timeouts.thy ===== *)
theory Timeouts
  imports Prelude
begin

text \<open>
  The time constants of \<open>src/timeouts.c\<close>, in seconds.  The part of the daemon's options (\<open>com\<close>,
  \<open>struct command_line\<close>) they depend on is the record \<open>com_options\<close>.
\<close>

abbreviation DEFAULT_WATCHDOG_FIRE_TIMEOUT :: int where "DEFAULT_WATCHDOG_FIRE_TIMEOUT \<equiv> 60"

record com_options =
  com_watchdog_fire_timeout :: int
  com_kill_grace_seconds :: int
  com_kill_grace_set :: bool
  com_set_bitmap_seconds :: int
  com_use_watchdog :: int
  com_io_timeout :: int
  com_write_init_io_timeout :: int
  com_renewal_history_size :: int
  com_renewal_read_extend_sec_set :: int
  com_renewal_read_extend_sec :: u32

definition setup_timeouts :: "com_options \<Rightarrow> com_options" where
  "setup_timeouts com =
    (if \<not> com_kill_grace_set com \<and> com_watchdog_fire_timeout com < DEFAULT_WATCHDOG_FIRE_TIMEOUT then
       (if com_watchdog_fire_timeout com < 60 \<and> com_watchdog_fire_timeout com \<ge> 30
        then com\<lparr>com_kill_grace_seconds := 15\<rparr>
        else if com_watchdog_fire_timeout com < 30 then com\<lparr>com_kill_grace_seconds := 0\<rparr>
        else com)
     else com)"

definition calc_host_dead_seconds :: "com_options \<Rightarrow> int \<Rightarrow> int" where
  "calc_host_dead_seconds com io_timeout = 8 * io_timeout + com_watchdog_fire_timeout com"

definition calc_id_renewal_seconds :: "int \<Rightarrow> int" where
  "calc_id_renewal_seconds io_timeout = 2 * io_timeout"

definition calc_id_renewal_fail_seconds :: "int \<Rightarrow> int" where
  "calc_id_renewal_fail_seconds io_timeout = 8 * io_timeout"

definition calc_id_renewal_warn_seconds :: "int \<Rightarrow> int" where
  "calc_id_renewal_warn_seconds io_timeout = 6 * io_timeout"

definition calc_set_bitmap_seconds :: "com_options \<Rightarrow> int \<Rightarrow> int" where
  "calc_set_bitmap_seconds com io_timeout =
    (if com_set_bitmap_seconds com \<noteq> 0 then com_set_bitmap_seconds com else 6 * io_timeout)"

text \<open>The bounds that \<open>log_timeouts\<close> computes and writes to the log, by name.\<close>

definition log_timeouts :: "com_options \<Rightarrow> int \<Rightarrow> (string \<times> int) list" where
  "log_timeouts com io_timeout_arg =
    (let io_timeout_seconds = io_timeout_arg;
         id_renewal_seconds = 2 * io_timeout_seconds;
         id_renewal_fail_seconds = 8 * io_timeout_seconds;
         id_renewal_warn_seconds = 6 * io_timeout_seconds;
         host_dead_seconds = id_renewal_fail_seconds + com_watchdog_fire_timeout com;
         delta_large_delay = id_renewal_seconds + 6 * io_timeout_seconds;
         delta_short_delay = 2 * io_timeout_seconds;
         mx = (if delta_large_delay > host_dead_seconds then delta_large_delay else host_dead_seconds)
     in [(''io_timeout_seconds'', io_timeout_seconds),
         (''id_renewal_seconds'', id_renewal_seconds),
         (''id_renewal_fail_seconds'', id_renewal_fail_seconds),
         (''id_renewal_warn_seconds'', id_renewal_warn_seconds),
         (''host_dead_seconds'', host_dead_seconds),
         (''delta_large_delay'', delta_large_delay),
         (''delta_short_delay'', delta_short_delay),
         (''delta_acquire_held_max'', mx + delta_short_delay + 4 * io_timeout_seconds),
         (''delta_acquire_held_min'', mx),
         (''delta_acquire_free_max'', delta_short_delay + 3 * io_timeout_seconds),
         (''delta_acquire_free_min'', delta_short_delay),
         (''delta_renew_max'', 2 * io_timeout_seconds),
         (''delta_renew_min'', 0),
         (''paxos_acquire_held_max'', host_dead_seconds + 7 * io_timeout_seconds),
         (''paxos_acquire_held_min'', host_dead_seconds),
         (''paxos_acquire_free_max'', 6 * io_timeout_seconds),
         (''paxos_acquire_free_min'', 0),
         (''request_finish_seconds'', 3 * id_renewal_seconds)])"

end
