(* ===== verification/Lockspace.thy ===== *)
theory Lockspace
  imports Diskio Timeouts
begin

text \<open>
  Lockspaces in the daemon: the part of \<open>src/lockspace.c\<close> that looks up lockspaces, records the
  liveness of the other hosts from the delta leases read at each renewal, checks the own lease, and
  the bitmaps with which hosts notify each other.  A function that takes \<open>spaces_mutex\<close> for its whole
  body is a function of the shared state; a single \<open>monotime()\<close> at its start is the argument \<open>now\<close>.
\<close>

abbreviation DEFAULT_MAX_HOSTS :: nat where "DEFAULT_MAX_HOSTS \<equiv> 2000"

section \<open>Data\<close>

record host_status =
  hs_first_check :: u64
  hs_last_check :: u64
  hs_last_live :: u64
  hs_last_req :: u64
  hs_owner_id :: u64
  hs_owner_generation :: u64
  hs_timestamp :: u64
  hs_set_bit_time :: u64
  hs_io_timeout :: u16
  hs_lease_bad :: u16
  hs_owner_name :: bytes

record sanlk_host_event =
  he_host_id :: u64
  he_generation :: u64
  he_event :: u64
  he_data :: u64

record renewal_history =
  rhi_timestamp :: u64
  rhi_read_ms :: int
  rhi_write_ms :: int
  rhi_next_timeouts :: int
  rhi_next_errors :: int

record lease_status =
  ls_corrupt_result :: int
  ls_acquire_last_result :: int
  ls_renewal_last_result :: int
  ls_acquire_last_attempt :: u64
  ls_acquire_last_success :: u64
  ls_renewal_last_attempt :: u64
  ls_renewal_last_success :: u64
  ls_renewal_read_count :: u32
  ls_renewal_read_check :: u32
  ls_renewal_read_buf :: bytes

record space =
  sp_space_name :: bytes
  sp_space_id :: u32
  sp_host_id :: u64
  sp_host_generation :: u64
  sp_host_id_disk :: sync_disk
  sp_io_timeout :: u32
  sp_set_bitmap_seconds :: u32
  sp_sector_size :: int
  sp_align_size :: int
  sp_max_hosts :: int
  sp_killing_pids :: int
  sp_external_remove :: bool
  sp_renewal_read_extend_sec :: u32
  sp_host_event :: sanlk_host_event
  sp_lease_status :: lease_status
  sp_host_status :: "host_status list"
  sp_flags :: u32
  sp_rindex_op :: u32
  sp_space_dead :: int
  sp_thread_stop :: int
  sp_wd_fd :: int
  sp_event_fds :: "int list"
  sp_set_event_time :: u64
  sp_renewal_history :: "renewal_history list"
  sp_renewal_history_next :: int
  sp_renewal_history_prev :: int

record space_info =
  spi_space_id :: u32
  spi_io_timeout :: u32
  spi_host_id :: u64
  spi_host_generation :: u64
  spi_sector_size :: int
  spi_align_size :: int
  spi_killing_pids :: int

text \<open>The globals of the daemon that the lease code reads.\<close>

record daemon =
  dm_com :: com_options
  dm_spaces :: "space list"
  dm_spaces_rem :: "space list"
  dm_spaces_add :: "space list"
  dm_external_shutdown :: int
  dm_space_id_counter :: u32

text \<open>Whether a lockspace is being removed by a client, or the daemon is being shut down.\<close>

definition removed_or_shutdown :: "daemon \<Rightarrow> space \<Rightarrow> bool" where
  "removed_or_shutdown dm sp \<longleftrightarrow>
    list_ex (\<lambda>s. sp_space_id s = sp_space_id sp \<and> sp_external_remove s) (dm_spaces dm @ dm_spaces_rem dm @ dm_spaces_add dm) \<or>
    dm_external_shutdown dm \<noteq> 0"

text \<open>A lockspace as the daemon keeps it.\<close>

definition space_ok :: "space \<Rightarrow> bool" where
  "space_ok sp \<longleftrightarrow> length (sp_host_status sp) = DEFAULT_MAX_HOSTS \<and>
    (sp_sector_size sp = 512 \<or> sp_sector_size sp = 4096) \<and>
    0 < sp_max_hosts sp \<and> sp_max_hosts sp \<le> int DEFAULT_MAX_HOSTS \<and>
    sp_align_size sp \<in> align_sizes \<and> sp_max_hosts sp * sp_sector_size sp \<le> sp_align_size sp"

record sanlk_lockspace =
  lsp_name :: bytes
  lsp_host_id :: u64
  lsp_flags :: u32
  lsp_host_id_disk :: sync_disk

type_synonym 'a sio = "(daemon, 'a) io"

section \<open>Finding lockspaces\<close>

definition space_matches :: "bytes option \<Rightarrow> sync_disk option \<Rightarrow> u64 \<Rightarrow> space \<Rightarrow> bool" where
  "space_matches name disk host_id sp \<longleftrightarrow>
    (case name of None \<Rightarrow> True | Some n \<Rightarrow> strneq NAME_ID_SIZE (sp_space_name sp) n) \<and>
    (case disk of None \<Rightarrow> True
     | Some d \<Rightarrow> sd_path (sp_host_id_disk sp) = sd_path d \<and> sd_offset (sp_host_id_disk sp) = sd_offset d) \<and>
    (host_id = 0 \<or> sp_host_id sp = host_id)"

fun search_space :: "bytes option \<Rightarrow> sync_disk option \<Rightarrow> u64 \<Rightarrow> space list list \<Rightarrow> int \<Rightarrow> (space \<times> int) option" where
  "search_space name disk host_id [] i = None"
| "search_space name disk host_id (hd1 # heads) i =
    (case find (space_matches name disk host_id) hd1 of
       Some sp \<Rightarrow> Some (sp, i + 1)
     | None \<Rightarrow> search_space name disk host_id heads (i + 1))"

definition find_lockspace :: "daemon \<Rightarrow> bytes \<Rightarrow> space option" where
  "find_lockspace dm name =
    map_option fst (search_space (Some name) None 0 [dm_spaces dm, dm_spaces_rem dm, dm_spaces_add dm] 0)"

definition find_lockspace_id :: "daemon \<Rightarrow> u32 \<Rightarrow> space option" where
  "find_lockspace_id dm space_id = find (\<lambda>sp. sp_space_id sp = space_id) (dm_spaces dm)"

definition set_space_info :: "space \<Rightarrow> space_info" where
  "set_space_info sp = \<lparr>spi_space_id = sp_space_id sp, spi_io_timeout = sp_io_timeout sp,
     spi_host_id = sp_host_id sp, spi_host_generation = sp_host_generation sp,
     spi_sector_size = sp_sector_size sp, spi_align_size = sp_align_size sp,
     spi_killing_pids = sp_killing_pids sp\<rparr>"

definition lockspace_info :: "daemon \<Rightarrow> bytes \<Rightarrow> int \<times> space_info option" where
  "lockspace_info dm space_name =
    (case find (\<lambda>sp. strneq NAME_ID_SIZE (sp_space_name sp) space_name) (dm_spaces dm) of
       Some sp \<Rightarrow> (0, Some (set_space_info sp))
     | None \<Rightarrow> (-1, None))"

text \<open>The loop of \<open>lockspace_disk\<close> has no \<open>break\<close>: the last match is returned.\<close>

fun lockspace_disk_loop ::
    "space list \<Rightarrow> bytes \<Rightarrow> int \<times> (sync_disk \<times> int) option \<Rightarrow> int \<times> (sync_disk \<times> int) option" where
  "lockspace_disk_loop [] space_name acc = acc"
| "lockspace_disk_loop (sp # sps) space_name acc =
    (if \<not> strneq NAME_ID_SIZE (sp_space_name sp) space_name then lockspace_disk_loop sps space_name acc
     else lockspace_disk_loop sps space_name (0, Some ((sp_host_id_disk sp)\<lparr>sd_fd := -1\<rparr>, sp_sector_size sp)))"

definition lockspace_disk :: "daemon \<Rightarrow> bytes \<Rightarrow> int \<times> (sync_disk \<times> int) option" where
  "lockspace_disk dm space_name = lockspace_disk_loop (dm_spaces dm) space_name (-1, None)"

section \<open>Bitmaps of host ids\<close>

text \<open>A bitmap has one bit per host id, starting with host id 1.\<close>

definition set_id_bit :: "nat \<Rightarrow> bytes \<Rightarrow> bytes" where
  "set_id_bit host_id bitmap =
    bitmap[(host_id - 1) div 8 := (bitmap ! ((host_id - 1) div 8)) OR push_bit ((host_id - 1) mod 8) 1]"

definition test_id_bit :: "nat \<Rightarrow> bytes \<Rightarrow> bool" where
  "test_id_bit host_id bitmap \<longleftrightarrow>
    (bitmap ! ((host_id - 1) div 8)) AND push_bit ((host_id - 1) mod 8) 1 \<noteq> 0"

section \<open>Liveness of hosts\<close>

text \<open>
  \<open>host_info\<close> returns the status of a host; the copy is only written on success.  A host whose timeout is
  not known yet is given our own.
\<close>

definition host_info :: "daemon \<Rightarrow> bytes \<Rightarrow> u64 \<Rightarrow> int \<times> host_status option" where
  "host_info dm space_name host_id =
    (if host_id = 0 \<or> host_id > of_nat DEFAULT_MAX_HOSTS then (- EINVAL, None)
     else case find (\<lambda>sp. strneq NAME_ID_SIZE (sp_space_name sp) space_name) (dm_spaces dm) of
       None \<Rightarrow> (- ENOSPC, None)
     | Some sp \<Rightarrow>
         if host_id > word_of_int (sp_max_hosts sp) then (- EINVAL, None)
         else
           (let hs = sp_host_status sp ! unat (host_id - 1)
            in (0, Some (if hs_io_timeout hs = 0 then hs\<lparr>hs_io_timeout := ucast (sp_io_timeout sp)\<rparr> else hs))))"

definition host_status_set_bit :: "space list \<Rightarrow> bytes \<Rightarrow> u64 \<Rightarrow> u64 \<Rightarrow> int \<times> space list" where
  "host_status_set_bit sps space_name host_id now =
    (if host_id = 0 \<or> host_id > of_nat DEFAULT_MAX_HOSTS then (- EINVAL, sps)
     else case List.extract (\<lambda>sp. strneq NAME_ID_SIZE (sp_space_name sp) space_name) sps of
       None \<Rightarrow> (- ENOSPC, sps)
     | Some (before, sp, after) \<Rightarrow>
         if host_id > word_of_int (sp_max_hosts sp) then (- EINVAL, sps)
         else
           (let i = unat (host_id - 1)
            in (0, before @ sp\<lparr>sp_host_status :=
                 (sp_host_status sp)[i := (sp_host_status sp ! i)\<lparr>hs_set_bit_time := now\<rparr>]\<rparr> # after)))"

text \<open>The loop of \<open>create_bitmap_and_extra\<close> over the hosts \<open>i\<close>, ...; it may clear \<open>set_bit_time\<close>.\<close>

definition bitmap_host :: "space \<Rightarrow> u64 \<Rightarrow> nat \<Rightarrow> bytes \<times> host_status list \<Rightarrow> bytes \<times> host_status list" where
  "bitmap_host sp now i acc =
    (case acc of (bitmap, hss) \<Rightarrow>
       if of_nat (i + 1) = sp_host_id sp then (bitmap, hss)
       else if hs_set_bit_time (hss ! i) = 0 then (bitmap, hss)
       else if now - hs_set_bit_time (hss ! i) > ucast (sp_set_bitmap_seconds sp)
       then (bitmap, hss[i := (hss ! i)\<lparr>hs_set_bit_time := 0\<rparr>])
       else (set_id_bit (i + 1) bitmap, hss))"

record delta_extra =
  field1 :: u64
  field2 :: u64
  field3 :: u64

definition create_bitmap_and_extra :: "space \<Rightarrow> bytes \<Rightarrow> u64 \<Rightarrow> space \<times> bytes \<times> delta_extra" where
  "create_bitmap_and_extra sp bitmap now =
    (case fold (bitmap_host sp now) [0..<nat (sp_max_hosts sp)] (bitmap, sp_host_status sp) of (bm, hss) \<Rightarrow>
       (sp\<lparr>sp_host_status := hss\<rparr>, bm,
        \<lparr>field1 = he_generation (sp_host_event sp), field2 = he_event (sp_host_event sp),
         field3 = he_data (sp_host_event sp)\<rparr>))"

text \<open>
  One round of \<open>check_other_leases\<close>: the new status of the host in slot \<open>i\<close>, the host event it sends us,
  and whether it requests an examination of our resources.  \<open>leader_end\<close> is the buffer from its sector
  on.
\<close>

definition lease_bad_next :: "space \<Rightarrow> host_status \<Rightarrow> leader_record \<Rightarrow> u16" where
  "lease_bad_next sp hs leader =
    (if lr_magic leader \<noteq> DELTA_DISK_MAGIC \<or> \<not> strneq NAME_ID_SIZE (lr_space_name leader) (sp_space_name sp)
     then (if hs_lease_bad hs + 1 = 0 then 1 else hs_lease_bad hs + 1)
     else 0)"

definition note_lease :: "space \<Rightarrow> u64 \<Rightarrow> leader_record \<Rightarrow> host_status \<Rightarrow> host_status" where
  "note_lease sp now leader hs0 =
    (let hs1 = hs0\<lparr>hs_last_check := now,
           hs_first_check := (if hs_first_check hs0 = 0 then now else hs_first_check hs0)\<rparr>;
         hs2 = hs1\<lparr>hs_lease_bad := lease_bad_next sp hs1 leader\<rparr>
     in if hs_lease_bad hs2 = 0 \<and>
           (\<not> strneq NAME_ID_SIZE (hs_owner_name hs2) (lr_resource_name leader) \<or>
            hs_owner_generation hs2 \<noteq> lr_owner_generation leader)
        then hs2\<lparr>hs_owner_name := strncpy NAME_ID_SIZE (lr_resource_name leader)\<rparr> else hs2)"

definition lease_seen :: "host_status \<Rightarrow> leader_record \<Rightarrow> bool" where
  "lease_seen hs leader \<longleftrightarrow> hs_owner_id hs = lr_owner_id leader \<and>
    hs_owner_generation hs = lr_owner_generation leader \<and> hs_timestamp hs = lr_timestamp leader"

definition update_lease :: "u64 \<Rightarrow> leader_record \<Rightarrow> host_status \<Rightarrow> host_status" where
  "update_lease now leader hs3 =
    (let hs4 = (if hs_lease_bad hs3 = 0
                then hs3\<lparr>hs_owner_id := lr_owner_id leader,
                       hs_owner_generation := lr_owner_generation leader,
                       hs_owner_name := strncpy NAME_ID_SIZE (lr_resource_name leader),
                       hs_io_timeout := lr_io_timeout leader\<rparr>
                else hs3)
     in hs4\<lparr>hs_timestamp := lr_timestamp leader, hs_last_live := now\<rparr>)"

definition check_other_lease ::
    "space \<Rightarrow> u64 \<Rightarrow> nat \<Rightarrow> bytes \<Rightarrow> host_status \<Rightarrow> host_status \<times> (sanlk_host_event \<times> u64 \<times> u64) option \<times> bool" where
  "check_other_lease sp now i leader_end hs0 =
    (let leader = leader_record_in leader_end; hs3 = note_lease sp now leader hs0
     in
       if lease_seen hs3 leader then (hs3, None, False)
       else
         (let hs5 = update_lease now leader hs3
          in
            if of_nat (i + 1) = sp_host_id sp then (hs5, None, False)
            else if \<not> test_id_bit (unat (sp_host_id sp)) (drop HOSTID_BITMAP_OFFSET leader_end) then (hs5, None, False)
            else
              (let he = \<lparr>he_host_id = sp_host_id sp, he_generation = lr_write_id leader,
                     he_event = lr_write_generation leader, he_data = lr_write_timestamp leader\<rparr>;
                   ev = (if he_event he \<noteq> 0 then Some (he, hs_owner_id hs5, hs_owner_generation hs5) else None)
               in
                 if now - hs_last_req hs5 < ucast (sp_set_bitmap_seconds sp) then (hs5, ev, False)
                 else (hs5\<lparr>hs_last_req := now\<rparr>, ev, True))))"

text \<open>
  \<open>check_other_leases sp buf now\<close> returns the updated lockspace, the host events handed to the resource
  thread in order, and whether the resource thread is asked to examine the lockspace's resources.
\<close>

definition check_other_leases ::
    "space \<Rightarrow> bytes \<Rightarrow> u64 \<Rightarrow> space \<times> (sanlk_host_event \<times> u64 \<times> u64) list \<times> bool" where
  "check_other_leases sp buf now =
    (let n = nat (sp_max_hosts sp);
         results = map (\<lambda>i. check_other_lease sp now i (drop (i * nat (sp_sector_size sp)) buf) (sp_host_status sp ! i)) [0..<n]
     in (sp\<lparr>sp_host_status := map fst results @ drop n (sp_host_status sp)\<rparr>,
         List.map_filter (\<lambda>r. fst (snd r)) results,
         \<exists>r \<in> set results. snd (snd r)))"

section \<open>The own lease\<close>

text \<open>
  \<open>check_our_lease\<close> returns its result, the lockspace, and the buffer of a renewal that the main loop has
  not looked at yet.  \<open>gap\<close> is an \<open>int\<close> assigned from a difference of 64-bit times.
\<close>

definition check_our_lease :: "space \<Rightarrow> u64 \<Rightarrow> int \<times> space \<times> bytes option" where
  "check_our_lease sp now =
    (let ls = sp_lease_status sp;
         last_success = ls_renewal_last_success ls;
         corrupt = ls_corrupt_result ls;
         (sp', buf) =
           (if ls_renewal_read_count ls > ls_renewal_read_check ls
            then (sp\<lparr>sp_lease_status := ls\<lparr>ls_renewal_read_check := ls_renewal_read_count ls\<rparr>\<rparr>,
                  Some (take (nat (sp_align_size sp)) (ls_renewal_read_buf ls)))
            else (sp, None))
     in
       if corrupt \<noteq> 0 then (-1, sp', buf)
       else
         (let gap = sint (ucast (now - last_success) :: u32)
          in if gap \<ge> calc_id_renewal_fail_seconds (uint (sp_io_timeout sp)) then (-1, sp', buf)
             else (0, sp', buf)))"

definition corrupt_result :: "int \<Rightarrow> int" where
  "corrupt_result result =
    (if result \<in> {SANLK_RENEW_OWNER, SANLK_RENEW_DIFF, SANLK_LEADER_MAGIC, SANLK_LEADER_VERSION,
                  SANLK_LEADER_SECTORSIZE, SANLK_LEADER_LOCKSPACE, SANLK_LEADER_CHECKSUM}
     then result else 0)"

section \<open>Lemmas\<close>

lemma bit_index_eq:
  assumes "0 < (a :: nat)" and "0 < b" and "(a - 1) div 8 = (b - 1) div 8" and "(a - 1) mod 8 = (b - 1) mod 8"
  shows "a = b"
  using assms by (metis Suc_diff_1 div_mult_mod_eq)

lemma test_set_id_bit:
  assumes "0 < a" and "0 < b" and "(a - 1) div 8 < length bm"
  shows "test_id_bit b (set_id_bit a bm) \<longleftrightarrow> a = b \<or> test_id_bit b bm"
proof (cases "(b - 1) div 8 = (a - 1) div 8")
  case True
  have bitb: "(w AND 2 ^ k \<noteq> 0) = bit w k" for w :: u8 and k
    by (simp add: and_exp_eq_0_iff_not_bit)
  have "test_id_bit b (set_id_bit a bm) \<longleftrightarrow>
      bit ((bm ! ((a - 1) div 8)) OR push_bit ((a - 1) mod 8) 1) ((b - 1) mod 8)"
    using assms True by (simp add: test_id_bit_def set_id_bit_def bitb)
  also have "\<dots> \<longleftrightarrow> bit (bm ! ((a - 1) div 8)) ((b - 1) mod 8) \<or> (a - 1) mod 8 = (b - 1) mod 8"
    by (auto simp: bit_or_iff bit_exp_iff)
  also have "\<dots> \<longleftrightarrow> test_id_bit b bm \<or> a = b"
    using assms True bit_index_eq [of a b] by (auto simp: test_id_bit_def bitb)
  finally show ?thesis by blast
next
  case False
  then show ?thesis using assms by (auto simp: test_id_bit_def set_id_bit_def)
qed

lemma length_set_id_bit [simp, size_simps]: "length (set_id_bit i bm) = length bm"
  by (simp add: set_id_bit_def)

text \<open>The record of the host in slot \<open>i\<close> in a buffer with all delta leases.\<close>

definition slot_leader :: "space \<Rightarrow> bytes \<Rightarrow> nat \<Rightarrow> leader_record" where
  "slot_leader sp buf i = leader_record_in (drop (i * nat (sp_sector_size sp)) buf)"

lemma check_other_leases_nth:
  assumes "space_ok sp" and "i < nat (sp_max_hosts sp)"
  shows "sp_host_status (fst (check_other_leases sp buf now)) ! i =
    fst (check_other_lease sp now i (drop (i * nat (sp_sector_size sp)) buf) (sp_host_status sp ! i))"
  using assms by (simp add: check_other_leases_def Let_def nth_append)

lemma check_other_leases_space:
  assumes "space_ok sp"
  shows "sp_max_hosts (fst (check_other_leases sp buf now)) = sp_max_hosts sp"
    and "sp_sector_size (fst (check_other_leases sp buf now)) = sp_sector_size sp"
    and "sp_space_name (fst (check_other_leases sp buf now)) = sp_space_name sp"
    and "sp_host_id (fst (check_other_leases sp buf now)) = sp_host_id sp"
    and "space_ok (fst (check_other_leases sp buf now))"
  using assms by (auto simp: check_other_leases_def Let_def space_ok_def)

lemma note_lease_fields [simp]:
  "hs_last_check (note_lease sp now leader hs) = now"
  "hs_last_live (note_lease sp now leader hs) = hs_last_live hs"
  "hs_timestamp (note_lease sp now leader hs) = hs_timestamp hs"
  "lease_seen (note_lease sp now leader hs) leader' = lease_seen hs leader'"
  "hs_lease_bad (note_lease sp now leader hs) = lease_bad_next sp hs leader"
  by (simp_all add: note_lease_def Let_def lease_bad_next_def lease_seen_def)

lemma update_lease_fields [simp]:
  "hs_last_check (update_lease now leader hs) = hs_last_check hs"
  "hs_last_live (update_lease now leader hs) = now"
  "hs_timestamp (update_lease now leader hs) = lr_timestamp leader"
  "hs_lease_bad (update_lease now leader hs) = hs_lease_bad hs"
  "hs_lease_bad hs = 0 \<Longrightarrow> lease_seen (update_lease now leader hs) leader"
  by (simp_all add: update_lease_def Let_def lease_seen_def)

text \<open>The status after a round is the one noted or the updated one; requests only change \<open>last_req\<close>.\<close>

lemma check_other_lease_cases:
  fixes leader_end
  defines "leader \<equiv> leader_record_in leader_end"
  obtains req where "fst (check_other_lease sp now i leader_end hs) =
    (if lease_seen hs leader then note_lease sp now leader hs
     else (update_lease now leader (note_lease sp now leader hs))\<lparr>hs_last_req := req\<rparr>)"
proof (cases "lease_seen hs leader")
  case True
  then show ?thesis using that [of 0] by (simp add: check_other_lease_def Let_def leader_def)
next
  case False
  let ?u = "update_lease now leader (note_lease sp now leader hs)"
  have "fst (check_other_lease sp now i leader_end hs) = ?u\<lparr>hs_last_req := hs_last_req ?u\<rparr> \<or>
      fst (check_other_lease sp now i leader_end hs) = ?u\<lparr>hs_last_req := now\<rparr>"
    using False by (simp add: check_other_lease_def Let_def leader_def)
  then show ?thesis using that [of "hs_last_req ?u"] that [of now] False by argo
qed

lemma check_other_lease_status:
  fixes leader_end
  defines "leader \<equiv> leader_record_in leader_end"
  assumes "fst (check_other_lease sp now i leader_end hs) = hs'"
  shows "hs_last_check hs' = now" and "hs_timestamp hs' = lr_timestamp leader"
    and "hs_last_live hs' = (if lease_seen hs leader then hs_last_live hs else now)"
    and "lease_bad_next sp hs leader = 0 \<Longrightarrow> lease_seen hs' leader"
proof -
  obtain req where hs': "hs' = (if lease_seen hs leader then note_lease sp now leader hs
     else (update_lease now leader (note_lease sp now leader hs))\<lparr>hs_last_req := req\<rparr>)"
    using check_other_lease_cases assms by metis
  have req: "lease_seen (h\<lparr>hs_last_req := req\<rparr>) leader = lease_seen h leader" for h
    by (simp add: lease_seen_def)
  show "hs_last_check hs' = now" and "hs_last_live hs' = (if lease_seen hs leader then hs_last_live hs else now)"
    and "lease_bad_next sp hs leader = 0 \<Longrightarrow> lease_seen hs' leader"
    by (simp_all add: hs' req)
  show "hs_timestamp hs' = lr_timestamp leader"
    by (auto simp: hs' lease_seen_def)
qed

definition lease_good :: "space \<Rightarrow> leader_record \<Rightarrow> bool" where
  "lease_good sp leader \<longleftrightarrow>
    lr_magic leader = DELTA_DISK_MAGIC \<and> strneq NAME_ID_SIZE (lr_space_name leader) (sp_space_name sp)"

text \<open>Successive renewals, each with the buffer it read and the time it is looked at.\<close>

definition check_rounds :: "space \<Rightarrow> (bytes \<times> u64) list \<Rightarrow> space" where
  "check_rounds sp rounds = fold (\<lambda>(buf, now) sp. fst (check_other_leases sp buf now)) rounds sp"

lemma check_rounds_space:
  "space_ok sp \<Longrightarrow> space_ok (check_rounds sp rounds) \<and> sp_max_hosts (check_rounds sp rounds) = sp_max_hosts sp \<and>
    sp_sector_size (check_rounds sp rounds) = sp_sector_size sp \<and>
    sp_space_name (check_rounds sp rounds) = sp_space_name sp"
proof (induction rounds arbitrary: sp)
  case Nil
  then show ?case by (simp add: check_rounds_def)
next
  case (Cons x rounds)
  have "check_rounds sp (x # rounds) = check_rounds (fst (check_other_leases sp (fst x) (snd x))) rounds"
    by (simp add: check_rounds_def case_prod_beta)
  then show ?case using Cons check_other_leases_space [of sp "fst x" "snd x"] by simp
qed

lemma check_rounds_frozen:
  assumes "space_ok sp" and "i < nat (sp_max_hosts sp)" and "lease_seen (sp_host_status sp ! i) r"
    and "\<forall>(buf, now) \<in> set rounds. slot_leader sp buf i = r" and "lease_good sp r"
  shows "hs_last_live (sp_host_status (check_rounds sp rounds) ! i) = hs_last_live (sp_host_status sp ! i)"
  using assms
proof (induction rounds arbitrary: sp)
  case Nil
  then show ?case by (simp add: check_rounds_def)
next
  case (Cons x rounds)
  obtain buf now where x: "x = (buf, now)" by force
  define sp' where "sp' = fst (check_other_leases sp buf now)"
  have r: "leader_record_in (drop (i * nat (sp_sector_size sp)) buf) = r"
    using Cons.prems(4) by (simp add: x slot_leader_def)
  note st = check_other_lease_status [OF check_other_leases_nth [OF Cons.prems(1,2), of buf now, symmetric],
      folded sp'_def, unfolded r]
  have seen: "lease_seen (sp_host_status sp' ! i) r" and "hs_last_live (sp_host_status sp' ! i) = hs_last_live (sp_host_status sp ! i)"
    using st Cons.prems(3,5) by (simp_all add: lease_bad_next_def lease_good_def)
  moreover have "hs_last_live (sp_host_status (check_rounds sp' rounds) ! i) = hs_last_live (sp_host_status sp' ! i)"
    using Cons.prems seen check_other_leases_space [OF Cons.prems(1), of buf now, folded sp'_def]
    by (intro Cons.IH) (auto simp: slot_leader_def lease_good_def)
  ultimately show ?case by (simp add: check_rounds_def x sp'_def)
qed

section \<open>Properties\<close>

text \<open>
  C32: A host that stops renewing its delta lease is noticed: when its (intact) lease record is the same
  in every buffer from some round on, the time it was last seen alive stays the one of the first of
  these rounds or an earlier one, however many rounds follow, while the time of the last check moves
  on.  So the age of \<open>last_live\<close> that the acquire code compares with \<open>host_dead_seconds\<close> grows with time.
\<close>

theorem stale_host_last_live_frozen:
  assumes "space_ok sp" and "i < nat (sp_max_hosts sp)"
    and "\<forall>(buf, now) \<in> set ((buf0, now0) # rounds). slot_leader sp buf i = r" and "lease_good sp r"
  shows "hs_last_live (sp_host_status (check_rounds sp ((buf0, now0) # rounds)) ! i) =
      (if lease_seen (sp_host_status sp ! i) r then hs_last_live (sp_host_status sp ! i) else now0) \<and>
    hs_last_check (sp_host_status (check_rounds sp ((buf0, now0) # rounds)) ! i) = snd (last ((buf0, now0) # rounds))"
proof
  define sp' where "sp' = fst (check_other_leases sp buf0 now0)"
  have r: "leader_record_in (drop (i * nat (sp_sector_size sp)) buf0) = r"
    using assms(3) by (simp add: slot_leader_def)
  note st = check_other_lease_status [OF check_other_leases_nth [OF assms(1,2), of buf0 now0, symmetric],
      folded sp'_def, unfolded r]
  note inv = check_other_leases_space [OF assms(1), of buf0 now0, folded sp'_def]
  have seen: "lease_seen (sp_host_status sp' ! i) r"
    using st assms(4) by (simp add: lease_bad_next_def lease_good_def)
  have "hs_last_live (sp_host_status (check_rounds sp' rounds) ! i) = hs_last_live (sp_host_status sp' ! i)"
    using assms seen inv by (intro check_rounds_frozen [of _ _ r]) (auto simp: slot_leader_def lease_good_def)
  then show "hs_last_live (sp_host_status (check_rounds sp ((buf0, now0) # rounds)) ! i) =
      (if lease_seen (sp_host_status sp ! i) r then hs_last_live (sp_host_status sp ! i) else now0)"
    using st(3) by (simp add: check_rounds_def sp'_def)
  have "check_rounds sp ((buf0, now0) # rounds) =
      fst (check_other_leases (check_rounds sp (butlast ((buf0, now0) # rounds)))
        (fst (last ((buf0, now0) # rounds))) (snd (last ((buf0, now0) # rounds))))"
    unfolding check_rounds_def
    by (subst append_butlast_last_id [of "(buf0, now0) # rounds", symmetric]) (simp_all del: append_butlast_last_id add: case_prod_beta)
  moreover have "space_ok (check_rounds sp (butlast ((buf0, now0) # rounds)))"
    "i < nat (sp_max_hosts (check_rounds sp (butlast ((buf0, now0) # rounds))))"
    using check_rounds_space [OF assms(1), of "butlast ((buf0, now0) # rounds)"] assms(2) by simp_all
  ultimately show "hs_last_check (sp_host_status (check_rounds sp ((buf0, now0) # rounds)) ! i) = snd (last ((buf0, now0) # rounds))"
    using check_other_lease_status(1) [OF refl] check_other_leases_nth by simp
qed

definition witness_status :: host_status where
  "witness_status = \<lparr>hs_first_check = 0, hs_last_check = 0, hs_last_live = 0, hs_last_req = 0, hs_owner_id = 0,
     hs_owner_generation = 0, hs_timestamp = 0, hs_set_bit_time = 0, hs_io_timeout = 0, hs_lease_bad = 0,
     hs_owner_name = replicate 48 0\<rparr>"

definition witness_space :: space where
  "witness_space = \<lparr>sp_space_name = replicate 48 0, sp_space_id = 1, sp_host_id = 1, sp_host_generation = 1,
     sp_host_id_disk = \<lparr>sd_path = ''d'', sd_offset = 0, sd_sector_size = 512, sd_fd = 3\<rparr>, sp_io_timeout = 10,
     sp_set_bitmap_seconds = 60, sp_sector_size = 512, sp_align_size = 1048576, sp_max_hosts = 2000,
     sp_killing_pids = 0, sp_external_remove = False, sp_renewal_read_extend_sec = 10, sp_host_event = \<lparr>he_host_id = 0, he_generation = 0, he_event = 0, he_data = 0\<rparr>,
     sp_lease_status = \<lparr>ls_corrupt_result = 0, ls_acquire_last_result = 0, ls_renewal_last_result = 0,
       ls_acquire_last_attempt = 0, ls_acquire_last_success = 0, ls_renewal_last_attempt = 0,
       ls_renewal_last_success = 0, ls_renewal_read_count = 0, ls_renewal_read_check = 0, ls_renewal_read_buf = []\<rparr>,
     sp_host_status = replicate 2000 witness_status, sp_flags = 0, sp_rindex_op = 0, sp_space_dead = 0, sp_thread_stop = 0, sp_wd_fd = 0,
     sp_event_fds = replicate 32 (-1), sp_set_event_time = 0, sp_renewal_history = [], sp_renewal_history_next = 0, sp_renewal_history_prev = 0\<rparr>"

text \<open>Host 2 of the witness lockspace: its record (owner 2, generation 3, timestamp 7) never changes.\<close>

definition witness_lease_sector :: bytes where
  "witness_lease_sector = leader_record_out (zero_leader\<lparr>lr_magic := DELTA_DISK_MAGIC, lr_owner_id := 2,
     lr_owner_generation := 3, lr_timestamp := 7\<rparr>) (replicate leader_size 0)"

theorem stale_host_last_live_frozen_witness:
  "hs_last_live (sp_host_status (check_rounds witness_space
     [(replicate 512 0 @ witness_lease_sector, 100), (replicate 512 0 @ witness_lease_sector, 150),
      (replicate 512 0 @ witness_lease_sector, 190)]) ! 1) = 100"
proof -
  have ok: "leader_ok (zero_leader\<lparr>lr_magic := DELTA_DISK_MAGIC, lr_owner_id := 2, lr_owner_generation := 3, lr_timestamp := 7\<rparr>)"
    by (simp add: leader_ok_def zero_leader_def)
  have rec: "slot_leader witness_space (replicate 512 0 @ witness_lease_sector) 1 = (zero_leader\<lparr>lr_magic := DELTA_DISK_MAGIC,
      lr_owner_id := 2, lr_owner_generation := 3, lr_timestamp := 7\<rparr>)\<lparr>lr_checksum := lr_checksum (leader_record_in (replicate leader_size 0))\<rparr>"
    using leader_disk.dec_enc [OF ok, of "replicate leader_size 0"]
    by (simp add: slot_leader_def witness_space_def witness_lease_sector_def)
  have "space_ok witness_space" by (simp add: space_ok_def witness_space_def align_sizes_def)
  then show ?thesis
    using stale_host_last_live_frozen [of witness_space 1 "replicate 512 0 @ witness_lease_sector" 100
        "[(replicate 512 0 @ witness_lease_sector, 150), (replicate 512 0 @ witness_lease_sector, 190)]", OF _ _ _ _] rec
    by (simp add: witness_space_def witness_status_def lease_good_def lease_seen_def zero_leader_def)
qed

text \<open>
  C33: The notification bitmaps work: after \<open>set_id_bit\<close> for one host id, \<open>test_id_bit\<close> is true for that
  host id and unchanged for every other, for all host ids the bitmap has room for; in particular all
  \<open>DEFAULT_MAX_HOSTS\<close> fit in the bitmap of a delta lease sector and in a token's \<open>shared_bitmap\<close>.
\<close>

theorem id_bitmap_correct:
  assumes "1 \<le> a" and "1 \<le> b" and "a \<le> 8 * length bm"
  shows "(test_id_bit b (set_id_bit a bm) \<longleftrightarrow> b = a \<or> test_id_bit b bm) \<and>
    length (set_id_bit a bm) = length bm \<and> DEFAULT_MAX_HOSTS \<le> 8 * HOSTID_BITMAP_SIZE"
proof -
  have "(a - 1) div 8 < length bm" using assms by linarith
  then show ?thesis using test_set_id_bit [of a b bm] assms by auto
qed

theorem id_bitmap_correct_witness:
  "test_id_bit 2000 (set_id_bit 2000 (replicate HOSTID_BITMAP_SIZE 0)) \<and>
   \<not> test_id_bit 1999 (set_id_bit 2000 (replicate HOSTID_BITMAP_SIZE 0))"
  using id_bitmap_correct [of 2000 2000 "replicate HOSTID_BITMAP_SIZE 0"]
    id_bitmap_correct [of 2000 1999 "replicate HOSTID_BITMAP_SIZE 0"]
  by (simp add: test_id_bit_def)

end
