(* ===== verification/Paxos_Lease.thy ===== *)
theory Paxos_Lease
  imports Lockspace
begin

text \<open>
  Resource leases: the first half of \<open>src/paxos_lease.c\<close>.  The token of a lease request, the sectors of
  a lease area (leader record, request record, one block per host), verification, and \<open>run_ballot\<close>,
  one ballot of Disk Paxos over the disks of the lease.  Logging, and the values only logging uses,
  are left out.  Where the source fills an uninitialised structure completely before it is written to
  disk (\<open>lr_end\<close>, \<open>pd_end\<close>), the structure starts as zeros; lemmas \<open>leader_seal_junk\<close> and
  \<open>dblock_seal_junk\<close> show that it does not matter.
\<close>

section \<open>Tokens\<close>

abbreviation T_RETRACT_PAXOS :: u32 where "T_RETRACT_PAXOS \<equiv> 0x00000004"
abbreviation T_WRITE_DBLOCK_MBLOCK_SH :: u32 where "T_WRITE_DBLOCK_MBLOCK_SH \<equiv> 0x00000008"
abbreviation T_CHECK_EXISTS :: u32 where "T_CHECK_EXISTS \<equiv> 0x00000010"

abbreviation PAXOS_ACQUIRE_FORCE :: u32 where "PAXOS_ACQUIRE_FORCE \<equiv> 0x00000001"
abbreviation PAXOS_ACQUIRE_SHARED :: u32 where "PAXOS_ACQUIRE_SHARED \<equiv> 0x00000004"
abbreviation PAXOS_ACQUIRE_OWNER_NOWAIT :: u32 where "PAXOS_ACQUIRE_OWNER_NOWAIT \<equiv> 0x00000008"

record sanlk_resource =
  r_lockspace_name :: bytes
  r_name :: bytes
  r_lver :: u64
  r_data64 :: u64
  r_data32 :: u32
  r_flags :: u32

text \<open>\<open>r.num_disks\<close> is the length of the list of disks.\<close>

record token =
  tk_host_id :: u64
  tk_host_generation :: u64
  tk_io_timeout :: u32
  tk_flags :: u32
  tk_sector_size :: int
  tk_align_size :: int
  tk_shared_count :: int
  tk_shared_bitmap :: bytes
  tk_disks :: "sync_disk list"
  tk_r :: sanlk_resource

abbreviation num_disks :: "token \<Rightarrow> nat" where "num_disks tk \<equiv> length (tk_disks tk)"
abbreviation disk0 :: "token \<Rightarrow> sync_disk" where "disk0 tk \<equiv> tk_disks tk ! 0"
abbreviation ioto :: "token \<Rightarrow> int" where "ioto tk \<equiv> uint (tk_io_timeout tk)"

definition roundup_power_of_two :: "u32 \<Rightarrow> u32" where
  "roundup_power_of_two val =
    (let v0 = val - 1;
         v1 = v0 OR drop_bit 1 v0;
         v2 = v1 OR drop_bit 2 v1;
         v3 = v2 OR drop_bit 4 v2;
         v4 = v3 OR drop_bit 8 v3;
         v5 = v4 OR drop_bit 16 v4
     in v5 + 1)"

section \<open>Request records\<close>

definition paxos_lease_request_read :: "token \<Rightarrow> request_record \<Rightarrow> (int \<times> request_record) sio" where
  "paxos_lease_request_read tk rr =
    Uninit request_size (\<lambda>rr_end.
      bnd (read_sectors (disk0 tk) (tk_sector_size tk) 1 1 rr_end (ioto tk)) (\<lambda>(rv, rr_end).
        if rv < 0 then Ret (rv, rr) else Ret (SANLK_OK, request_record_in rr_end)))"

definition paxos_lease_request_write :: "token \<Rightarrow> request_record \<Rightarrow> int sio" where
  "paxos_lease_request_write tk rr =
    Uninit request_size (\<lambda>rr_end.
      bnd (write_sector (disk0 tk) (tk_sector_size tk) 1 (request_record_out rr rr_end) (ioto tk)) (\<lambda>rv.
        if rv < 0 then Ret rv else Ret SANLK_OK))"

section \<open>Host blocks\<close>

text \<open>
  The writers of a host block return the block with the checksum that was set in it.  The sector that
  \<open>write_dblock_mblock_sh\<close> writes holds, outside of the two structures, whatever the allocated memory
  held.
\<close>

definition write_dblock_mblock_sh :: "token \<Rightarrow> sync_disk \<Rightarrow> u64 \<Rightarrow> paxos_dblock \<Rightarrow> (int \<times> paxos_dblock) sio" where
  "write_dblock_mblock_sh tk disk host_id pd =
    (let mb = \<lparr>mb_flags = MBLOCK_SHARED, mb_generation = tk_host_generation tk\<rparr>;
         iobuf_len = tk_sector_size tk
     in
       if iobuf_len = 0 then Ret (- EINVAL, pd)
       else Posix_memalign (size_t iobuf_len) (\<lambda>rv iobuf.
         if rv \<noteq> 0 then Ret (- ENOMEM, pd)
         else
           (let offset = sd_offset disk + (2 + host_id - 1) * word_of_int (tk_sector_size tk);
                (pd, pd_end) = dblock_seal pd (replicate dblock_size 0)
            in Uninit mblock_size (\<lambda>mb_end.
                 Write_iobuf disk offset
                   (splice_at MBLOCK_OFFSET (mode_block_out mb mb_end) (splice_at 0 pd_end iobuf)) (ioto tk) (\<lambda>rv.
                     Ret (rv, pd))))))"

definition write_dblock :: "token \<Rightarrow> sync_disk \<Rightarrow> u64 \<Rightarrow> paxos_dblock \<Rightarrow> (int \<times> paxos_dblock) sio" where
  "write_dblock tk disk host_id pd =
    (if tk_flags tk AND T_WRITE_DBLOCK_MBLOCK_SH \<noteq> 0 then write_dblock_mblock_sh tk disk host_id pd
     else
       (let (pd, pd_end) = dblock_seal pd (replicate dblock_size 0)
        in bnd (write_sector disk (tk_sector_size tk) (2 + host_id - 1) pd_end (ioto tk)) (\<lambda>rv. Ret (rv, pd))))"

fun erase_dblock_loop :: "token \<Rightarrow> u64 \<Rightarrow> sync_disk list \<Rightarrow> paxos_dblock \<Rightarrow> nat \<Rightarrow> int \<Rightarrow> int sio" where
  "erase_dblock_loop tk host_id [] pd num_writes error =
    (if \<not> majority_disks (num_disks tk) num_writes then Ret error else Ret SANLK_OK)"
| "erase_dblock_loop tk host_id (disk # disks) pd num_writes error =
    bnd (write_dblock tk disk host_id pd) (\<lambda>(rv, pd).
      if rv < 0 then erase_dblock_loop tk host_id disks pd num_writes rv
      else erase_dblock_loop tk host_id disks pd (num_writes + 1) error)"

definition paxos_erase_dblock :: "token \<Rightarrow> u64 \<Rightarrow> int sio" where
  "paxos_erase_dblock tk host_id = erase_dblock_loop tk host_id (tk_disks tk) zero_dblock 0 (-1)"

definition read_dblock :: "token \<Rightarrow> sync_disk \<Rightarrow> u64 \<Rightarrow> (int \<times> paxos_dblock) sio" where
  "read_dblock tk disk host_id =
    Uninit dblock_size (\<lambda>pd_end.
      bnd (read_sectors disk (tk_sector_size tk) (2 + host_id - 1) 1 pd_end (ioto tk)) (\<lambda>(rv, pd_end).
        Ret (rv, paxos_dblock_in pd_end)))"

definition verify_dblock :: "paxos_dblock \<Rightarrow> u32 \<Rightarrow> int" where
  "verify_dblock pd checksum =
    (if pd_checksum pd = 0 \<and> pd_mbal pd = 0 \<and> pd_bal pd = 0 \<and> pd_inp pd = 0 \<and> pd_lver pd = 0 then SANLK_OK
     else if pd_checksum pd \<noteq> checksum then SANLK_DBLOCK_CHECKSUM
     else SANLK_OK)"

text \<open>\<open>check_mode_block\<close> of \<open>src/resource.c\<close> notes the hosts that hold the lease in shared mode.\<close>

definition check_mode_block :: "token \<Rightarrow> nat \<Rightarrow> bytes \<Rightarrow> token" where
  "check_mode_block tk q dblock_buf =
    (let mb = mode_block_in (drop MBLOCK_OFFSET dblock_buf)
     in if mb_flags mb AND MBLOCK_SHARED \<noteq> 0
        then tk\<lparr>tk_shared_bitmap := set_id_bit (q + 1) (tk_shared_bitmap tk),
                tk_shared_count := tk_shared_count tk + 1\<rparr>
        else tk)"

section \<open>Ballots\<close>

text \<open>Allocation of one buffer per disk; the first failure is returned as it is.\<close>

fun ballot_memaligns :: "nat \<Rightarrow> nat \<Rightarrow> int sio" where
  "ballot_memaligns iobuf_len 0 = Ret 0"
| "ballot_memaligns iobuf_len (Suc d) =
    Posix_memalign iobuf_len (\<lambda>rv mem. if rv \<noteq> 0 then Ret rv else ballot_memaligns iobuf_len d)"

text \<open>Writing our block to every disk: the number of successful writes, and the block with its checksum.\<close>

fun ballot_writes :: "token \<Rightarrow> sync_disk list \<Rightarrow> paxos_dblock \<Rightarrow> nat \<Rightarrow> (nat \<times> paxos_dblock) sio" where
  "ballot_writes tk [] dblock num_writes = Ret (num_writes, dblock)"
| "ballot_writes tk (disk # disks) dblock num_writes =
    bnd (write_dblock tk disk (tk_host_id tk) dblock) (\<lambda>(rv, dblock).
      ballot_writes tk disks dblock (if rv < 0 then num_writes else num_writes + 1))"

text \<open>
  The blocks \<open>qs\<close> of a lease area read in phase 1.  The result is the error the ballot is aborted with,
  if any, the token, and the block with the largest \<open>bal\<close> so far.
\<close>

fun phase1_scan ::
    "nat \<Rightarrow> bytes \<Rightarrow> paxos_dblock \<Rightarrow> nat list \<Rightarrow> token \<Rightarrow> paxos_dblock \<Rightarrow> int option \<times> token \<times> paxos_dblock" where
  "phase1_scan sector_size iobuf dblock [] tk bk_max = (None, tk, bk_max)"
| "phase1_scan sector_size iobuf dblock (q # qs) tk bk_max =
    (let bk_end = drop ((2 + q) * sector_size) iobuf;
         bk = paxos_dblock_in bk_end
     in
       if verify_dblock bk (dblock_checksum bk_end) < 0 then phase1_scan sector_size iobuf dblock qs tk bk_max
       else
         (let tk = check_mode_block tk q bk_end
          in
            if pd_lver bk < pd_lver dblock then phase1_scan sector_size iobuf dblock qs tk bk_max
            else if pd_lver bk > pd_lver dblock then (Some SANLK_DBLOCK_LVER, tk, bk_max)
            else if pd_mbal bk > pd_mbal dblock then (Some SANLK_DBLOCK_MBAL, tk, bk_max)
            else if pd_inp bk = 0 then phase1_scan sector_size iobuf dblock qs tk bk_max
            else if pd_bal bk = 0 then phase1_scan sector_size iobuf dblock qs tk bk_max
            else phase1_scan sector_size iobuf dblock qs tk (if pd_bal bk > pd_bal bk_max then bk else bk_max)))"

text \<open>The blocks read in phase 2: the error the ballot is aborted with, if any.\<close>

fun phase2_scan :: "nat \<Rightarrow> bytes \<Rightarrow> paxos_dblock \<Rightarrow> nat list \<Rightarrow> int option" where
  "phase2_scan sector_size iobuf dblock [] = None"
| "phase2_scan sector_size iobuf dblock (q # qs) =
    (let bk_end = drop ((2 + q) * sector_size) iobuf;
         bk = paxos_dblock_in bk_end
     in
       if verify_dblock bk (dblock_checksum bk_end) < 0 then phase2_scan sector_size iobuf dblock qs
       else if pd_lver bk < pd_lver dblock then phase2_scan sector_size iobuf dblock qs
       else if pd_lver bk > pd_lver dblock then Some SANLK_DBLOCK_LVER
       else if pd_mbal bk > pd_mbal dblock then Some SANLK_DBLOCK_MBAL
       else phase2_scan sector_size iobuf dblock qs)"

text \<open>
  The reads of both phases.  A disk comes with whether its buffer is still there: a buffer whose read
  timed out is given up, and the disk is not read again in phase 2.  \<open>bufs\<close> collects this for the disks
  already visited.
\<close>

fun phase1_reads ::
    "int \<Rightarrow> nat \<Rightarrow> paxos_dblock \<Rightarrow> (sync_disk \<times> bool) list \<Rightarrow> token \<Rightarrow> nat \<Rightarrow> paxos_dblock \<Rightarrow> bool list \<Rightarrow>
     (int option \<times> token \<times> nat \<times> paxos_dblock \<times> bool list) sio" where
  "phase1_reads num_hosts iobuf_len dblock [] tk num_reads bk_max bufs = Ret (None, tk, num_reads, bk_max, bufs)"
| "phase1_reads num_hosts iobuf_len dblock ((disk, have_buf) # disks) tk num_reads bk_max bufs =
    (if \<not> have_buf then phase1_reads num_hosts iobuf_len dblock disks tk num_reads bk_max (bufs @ [False])
     else Read_iobuf disk (sd_offset disk) iobuf_len (ioto tk) (\<lambda>rv iobuf.
       if rv < 0
       then phase1_reads num_hosts iobuf_len dblock disks tk num_reads bk_max (bufs @ [rv \<noteq> SANLK_AIO_TIMEOUT])
       else
         (case phase1_scan (nat (tk_sector_size tk)) iobuf dblock [0..<nat num_hosts] tk bk_max of
            (Some error, tk, bk_max) \<Rightarrow> Ret (Some error, tk, num_reads + 1, bk_max, bufs @ [True])
          | (None, tk, bk_max) \<Rightarrow>
              phase1_reads num_hosts iobuf_len dblock disks tk (num_reads + 1) bk_max (bufs @ [True]))))"

fun phase2_reads ::
    "int \<Rightarrow> nat \<Rightarrow> paxos_dblock \<Rightarrow> (sync_disk \<times> bool) list \<Rightarrow> token \<Rightarrow> nat \<Rightarrow> (int option \<times> nat) sio" where
  "phase2_reads num_hosts iobuf_len dblock [] tk num_reads = Ret (None, num_reads)"
| "phase2_reads num_hosts iobuf_len dblock ((disk, have_buf) # disks) tk num_reads =
    (if \<not> have_buf then phase2_reads num_hosts iobuf_len dblock disks tk num_reads
     else Read_iobuf disk (sd_offset disk) iobuf_len (ioto tk) (\<lambda>rv iobuf.
       if rv < 0 then phase2_reads num_hosts iobuf_len dblock disks tk num_reads
       else
         (case phase2_scan (nat (tk_sector_size tk)) iobuf dblock [0..<nat num_hosts] of
            Some error \<Rightarrow> Ret (Some error, num_reads + 1)
          | None \<Rightarrow> phase2_reads num_hosts iobuf_len dblock disks tk (num_reads + 1))))"

text \<open>The exit of \<open>run_ballot\<close>: an I/O error after phase 2 was entered marks the token for retraction.\<close>

definition ballot_out :: "token \<Rightarrow> bool \<Rightarrow> int \<Rightarrow> paxos_dblock \<Rightarrow> int \<times> paxos_dblock \<times> token" where
  "ballot_out tk phase2 error dblock =
    (error, dblock,
     if phase2 \<and> error < 0 \<and> (error = SANLK_DBLOCK_READ \<or> error = SANLK_DBLOCK_WRITE)
     then tk\<lparr>tk_flags := tk_flags tk OR T_RETRACT_PAXOS\<rparr> else tk)"

definition ballot_phase2 ::
    "token \<Rightarrow> int \<Rightarrow> nat \<Rightarrow> bool list \<Rightarrow> paxos_dblock \<Rightarrow> (int \<times> paxos_dblock \<times> token) sio" where
  "ballot_phase2 tk num_hosts iobuf_len bufs dblock =
    bnd (ballot_writes tk (tk_disks tk) dblock 0) (\<lambda>(num_writes, dblock).
      if \<not> majority_disks (num_disks tk) num_writes then Ret (ballot_out tk True SANLK_DBLOCK_WRITE dblock)
      else bnd (phase2_reads num_hosts iobuf_len dblock (zip (tk_disks tk) bufs) tk 0) (\<lambda>(error, num_reads).
        case error of
          Some e \<Rightarrow> Ret (ballot_out tk True e dblock)
        | None \<Rightarrow>
            if \<not> majority_disks (num_disks tk) num_reads then Ret (ballot_out tk True SANLK_DBLOCK_READ dblock)
            else Ret (ballot_out tk True SANLK_OK dblock)))"

text \<open>Between the phases: the value of the block with the largest \<open>bal\<close>, or else our own.\<close>

definition ballot_choose ::
    "token \<Rightarrow> int \<Rightarrow> nat \<Rightarrow> bool list \<Rightarrow> paxos_dblock \<Rightarrow> paxos_dblock \<Rightarrow> (int \<times> paxos_dblock \<times> token) sio" where
  "ballot_choose tk num_hosts iobuf_len bufs dblock bk_max =
    (if pd_inp bk_max \<noteq> 0
     then ballot_phase2 tk num_hosts iobuf_len bufs
       (dblock\<lparr>pd_inp := pd_inp bk_max, pd_inp2 := pd_inp2 bk_max, pd_inp3 := pd_inp3 bk_max,
               pd_bal := pd_mbal dblock, pd_checksum := 0\<rparr>)
     else Monotime (\<lambda>now. ballot_phase2 tk num_hosts iobuf_len bufs
       (dblock\<lparr>pd_inp := tk_host_id tk, pd_inp2 := tk_host_generation tk, pd_inp3 := now,
               pd_bal := pd_mbal dblock, pd_checksum := 0\<rparr>)))"

definition ballot_phase1 :: "token \<Rightarrow> int \<Rightarrow> nat \<Rightarrow> paxos_dblock \<Rightarrow> (int \<times> paxos_dblock \<times> token) sio" where
  "ballot_phase1 tk num_hosts iobuf_len dblock =
    bnd (ballot_writes tk (tk_disks tk) dblock 0) (\<lambda>(num_writes, dblock).
      if \<not> majority_disks (num_disks tk) num_writes then Ret (ballot_out tk False SANLK_DBLOCK_WRITE dblock)
      else bnd (phase1_reads num_hosts iobuf_len dblock (map (\<lambda>d. (d, True)) (tk_disks tk)) tk 0 zero_dblock [])
        (\<lambda>(error, tk, num_reads, bk_max, bufs).
          case error of
            Some e \<Rightarrow> Ret (ballot_out tk False e dblock)
          | None \<Rightarrow>
              if \<not> majority_disks (num_disks tk) num_reads then Ret (ballot_out tk False SANLK_DBLOCK_READ dblock)
              else ballot_choose tk num_hosts iobuf_len bufs dblock bk_max))"

text \<open>
  \<open>run_ballot tk num_hosts next_lver our_mbal dblock_out\<close>: the error, the block stored in \<open>dblock_out\<close>
  (unchanged when the function returns before phase 1), and the token.
\<close>

definition ballot_iobuf_len :: "token \<Rightarrow> int \<Rightarrow> int" where
  "ballot_iobuf_len tk num_hosts =
    sint (roundup_power_of_two (word_of_int (num_hosts + 2)) * word_of_int (tk_sector_size tk))"

definition run_ballot :: "token \<Rightarrow> int \<Rightarrow> u64 \<Rightarrow> u64 \<Rightarrow> paxos_dblock \<Rightarrow> (int \<times> paxos_dblock \<times> token) sio" where
  "run_ballot tk num_hosts next_lver our_mbal dblock_out =
    (let iobuf_len = ballot_iobuf_len tk num_hosts
     in
       if iobuf_len = 0 then Ret (- EINVAL, dblock_out, tk)
       else bnd (ballot_memaligns (size_t iobuf_len) (num_disks tk)) (\<lambda>rv.
         if rv \<noteq> 0 then Ret (rv, dblock_out, tk)
         else ballot_phase1 tk num_hosts (size_t iobuf_len)
           (zero_dblock\<lparr>pd_mbal := our_mbal, pd_lver := next_lver, pd_checksum := 0\<rparr>)))"

end
