(* ===== verification/Paxos_Leader.thy ===== *)
theory Paxos_Leader
  imports Paxos_Lease
begin

text \<open>
  The leader record of a resource lease: reading, verifying and writing it on one or more disks, the
  initial read of \<open>paxos_lease_acquire\<close>, \<open>paxos_lease_release\<close> and \<open>paxos_lease_init\<close>
  (\<open>src/paxos_lease.c\<close>).  Output parameters are passed with their previous contents and returned.
\<close>

section \<open>One disk\<close>

definition write_leader :: "token \<Rightarrow> sync_disk \<Rightarrow> leader_record \<Rightarrow> (int \<times> leader_record) sio" where
  "write_leader tk disk lr =
    (let (lr, lr_end) = leader_seal lr (replicate leader_size 0)
     in bnd (write_sector disk (tk_sector_size tk) 0 lr_end (ioto tk)) (\<lambda>rv. Ret (rv, lr)))"

definition paxos_lease_leader_clobber :: "token \<Rightarrow> leader_record \<Rightarrow> (int \<times> leader_record) sio" where
  "paxos_lease_leader_clobber tk leader =
    (let (leader, lr_end) = leader_seal leader (replicate leader_size 0)
     in bnd (write_sector (disk0 tk) (tk_sector_size tk) 0 lr_end (ioto tk)) (\<lambda>rv. Ret (rv, leader)))"

text \<open>When the read fails, the record is converted from an uninitialised copy.\<close>

definition read_leader :: "token \<Rightarrow> sync_disk \<Rightarrow> leader_record \<Rightarrow> u32 \<Rightarrow> (int \<times> leader_record \<times> u32) sio" where
  "read_leader tk disk lr checksum =
    Uninit leader_size (\<lambda>lr_end.
      if tk_sector_size tk = 0 then Ret (- EINVAL, lr, checksum)
      else bnd (read_sectors disk (tk_sector_size tk) 0 1 lr_end (ioto tk)) (\<lambda>(rv, lr_end).
        Ret (rv, leader_record_in lr_end, leader_checksum lr_end)))"

text \<open>The checks of \<open>_verify_leader\<close>, in the order of the source.\<close>

definition verify_leader_result :: "token \<Rightarrow> leader_record \<Rightarrow> u32 \<Rightarrow> int" where
  "verify_leader_result tk lr checksum =
    (if lr_magic lr \<noteq> PAXOS_DISK_MAGIC then SANLK_LEADER_MAGIC
     else if lr_version lr AND 0xFFFF0000 \<noteq> PAXOS_DISK_VERSION_MAJOR then SANLK_LEADER_VERSION
     else if \<not> strneq NAME_ID_SIZE (lr_space_name lr) (r_lockspace_name (tk_r tk)) then SANLK_LEADER_LOCKSPACE
     else if \<not> strneq NAME_ID_SIZE (lr_resource_name lr) (r_name (tk_r tk)) then SANLK_LEADER_RESOURCE
     else if lr_num_hosts lr < tk_host_id tk then SANLK_LEADER_NUMHOSTS
     else if lr_checksum lr \<noteq> checksum then SANLK_LEADER_CHECKSUM
     else SANLK_OK)"

text \<open>A failed verification rereads the sector to log it; a cleared leader is not logged.\<close>

definition verify_leader_gen :: "bool \<Rightarrow> token \<Rightarrow> sync_disk \<Rightarrow> leader_record \<Rightarrow> u32 \<Rightarrow> int sio" where
  "verify_leader_gen print_error tk disk lr checksum =
    (if lr_magic lr = PAXOS_DISK_CLEAR then Ret SANLK_LEADER_MAGIC
     else
       (let result = verify_leader_result tk lr checksum
        in
          if result = SANLK_OK then Ret SANLK_OK
          else if \<not> print_error then Ret result
          else bnd (read_sectors disk (tk_sector_size tk) 0 1 (replicate leader_size 0) 1) (\<lambda>(rv, leader_end). Ret result)))"

definition verify_leader :: "token \<Rightarrow> sync_disk \<Rightarrow> leader_record \<Rightarrow> u32 \<Rightarrow> int sio" where
  "verify_leader = verify_leader_gen True"

definition verify_leader_no_error :: "token \<Rightarrow> sync_disk \<Rightarrow> leader_record \<Rightarrow> u32 \<Rightarrow> int sio" where
  "verify_leader_no_error = verify_leader_gen False"

definition paxos_verify_leader :: "token \<Rightarrow> sync_disk \<Rightarrow> leader_record \<Rightarrow> u32 \<Rightarrow> int sio" where
  "paxos_verify_leader = verify_leader"

text \<open>\<open>leaders_match\<close> compares the first \<open>LEADER_COMPARE_LEN\<close> bytes: the fields before the timestamp.\<close>

definition leaders_match :: "leader_record \<Rightarrow> leader_record \<Rightarrow> bool" where
  "leaders_match a b \<longleftrightarrow>
    lr_magic a = lr_magic b \<and> lr_version a = lr_version b \<and> lr_flags a = lr_flags b \<and>
    lr_sector_size a = lr_sector_size b \<and> lr_num_hosts a = lr_num_hosts b \<and> lr_max_hosts a = lr_max_hosts b \<and>
    lr_owner_id a = lr_owner_id b \<and> lr_owner_generation a = lr_owner_generation b \<and> lr_lver a = lr_lver b \<and>
    lr_space_name a = lr_space_name b \<and> lr_resource_name a = lr_resource_name b"

definition paxos_read_resource :: "token \<Rightarrow> sanlk_resource \<Rightarrow> (int \<times> token \<times> sanlk_resource) sio" where
  "paxos_read_resource tk res =
    (let tmp_sector_size = (tk_sector_size tk = 0);
         tk = (if tmp_sector_size
               then tk\<lparr>tk_sector_size := 4096, tk_align_size := sector_size_to_align_size_old 4096\<rparr> else tk)
     in bnd (read_leader tk (disk0 tk) zero_leader 0) (\<lambda>(rv, leader, checksum).
       if rv < 0 then Ret (rv, tk, res)
       else
         (let tk = (if r_lockspace_name res ! 0 = 0
                    then tk\<lparr>tk_r := (tk_r tk)\<lparr>r_lockspace_name := lr_space_name leader\<rparr>\<rparr> else tk);
              tk = (if r_name res ! 0 = 0
                    then tk\<lparr>tk_r := (tk_r tk)\<lparr>r_name := lr_resource_name leader\<rparr>\<rparr> else tk)
          in bnd (if tk_flags tk AND T_CHECK_EXISTS \<noteq> 0
                  then Ret (if lr_magic leader \<noteq> PAXOS_DISK_MAGIC then SANLK_LEADER_MAGIC else SANLK_OK)
                  else verify_leader_no_error tk (disk0 tk) leader checksum) (\<lambda>rv.
            if rv \<noteq> SANLK_OK then Ret (rv, tk, res)
            else
              (let res = res\<lparr>r_lockspace_name := lr_space_name leader, r_name := lr_resource_name leader,
                     r_lver := lr_lver leader\<rparr>
               in
                 if lr_sector_size leader = 512 \<or> lr_sector_size leader = 4096
                 then
                   (let sector_size = uint (lr_sector_size leader);
                        align_size = leader_align_size_from_flag (lr_flags leader);
                        align_size = (if align_size = 0 then sector_size_to_align_size_old sector_size else align_size);
                        tk = tk\<lparr>tk_sector_size := sector_size, tk_align_size := align_size\<rparr>;
                        flags = sanlk_res_align_flags_clear (sanlk_res_sector_flags_clear (r_flags res))
                    in Ret (rv, tk, res\<lparr>r_flags := flags OR sanlk_res_sector_size_to_flag sector_size
                              OR sanlk_res_align_size_to_flag align_size\<rparr>))
                 else if tmp_sector_size then Ret (rv, tk\<lparr>tk_sector_size := 0, tk_align_size := 0\<rparr>, res)
                 else Ret (rv, tk, res))))))"

definition paxos_read_buf :: "token \<Rightarrow> (int \<times> bytes option) sio" where
  "paxos_read_buf tk =
    (if tk_sector_size tk = 0 \<or> tk_align_size tk = 0 then Ret (- EINVAL, None)
     else if tk_align_size tk < 0 then Ret (tk_align_size tk, None)
     else Posix_memalign (size_t (tk_align_size tk)) (\<lambda>rv mem.
       if rv \<noteq> 0 then Ret (rv, None)
       else Read_iobuf (disk0 tk) (sd_offset (disk0 tk)) (size_t (tk_align_size tk)) (ioto tk) (\<lambda>rv iobuf.
         Ret (rv, Some iobuf))))"

section \<open>A leader read from one disk, or from a majority\<close>

definition leader_read_one :: "token \<Rightarrow> leader_record \<Rightarrow> (int \<times> leader_record) sio" where
  "leader_read_one tk leader_ret =
    bnd (read_leader tk (disk0 tk) zero_leader 0) (\<lambda>(rv, leader, checksum).
      if rv < 0 then Ret (rv, leader_ret)
      else bnd (verify_leader tk (disk0 tk) leader checksum) (\<lambda>rv. Ret (rv, leader)))"

text \<open>The first earlier disk whose leader matches gets one more repetition.\<close>

fun count_rep :: "leader_record list \<Rightarrow> nat list \<Rightarrow> leader_record \<Rightarrow> nat list" where
  "count_rep (l # ls) (r # rs) leader = (if leaders_match leader l then (r + 1) # rs else r # count_rep ls rs leader)"
| "count_rep ls rs leader = rs"

text \<open>
  The read loop: \<open>leaders\<close> and \<open>reps\<close> are the arrays for the disks already visited.  A record that could
  not be read or verified stays in \<open>leaders\<close>, with no repetitions of its own.
\<close>

fun leader_read_num_loop ::
    "token \<Rightarrow> sync_disk list \<Rightarrow> leader_record list \<Rightarrow> nat list \<Rightarrow> nat \<Rightarrow> (leader_record list \<times> nat list \<times> nat) sio" where
  "leader_read_num_loop tk [] leaders reps num_reads = Ret (leaders, reps, num_reads)"
| "leader_read_num_loop tk (disk # disks) leaders reps num_reads =
    bnd (read_leader tk disk zero_leader 0) (\<lambda>(rv, leader, checksum).
      if rv < 0 then leader_read_num_loop tk disks (leaders @ [leader]) (reps @ [0]) num_reads
      else bnd (verify_leader tk disk leader checksum) (\<lambda>rv.
        if rv < 0 then leader_read_num_loop tk disks (leaders @ [leader]) (reps @ [0]) num_reads
        else leader_read_num_loop tk disks (leaders @ [leader]) (count_rep leaders reps leader @ [1]) (num_reads + 1)))"

text \<open>The first leader that is the same on a majority of the disks.\<close>

fun find_majority :: "nat \<Rightarrow> leader_record list \<Rightarrow> nat list \<Rightarrow> leader_record option" where
  "find_majority n (l # ls) (r # rs) = (if majority_disks n r then Some l else find_majority n ls rs)"
| "find_majority n ls rs = None"

definition malloc :: "nat \<Rightarrow> (bool \<Rightarrow> 'a sio) \<Rightarrow> 'a sio" where
  "malloc n k = Posix_memalign n (\<lambda>rv mem. k (rv = 0))"

definition leader_read_num :: "token \<Rightarrow> leader_record \<Rightarrow> (int \<times> leader_record) sio" where
  "leader_read_num tk leader_ret =
    malloc (num_disks tk * leader_size) (\<lambda>ok1.
      if \<not> ok1 then Ret (- ENOMEM, leader_ret)
      else malloc (num_disks tk * 4) (\<lambda>ok2.
        if \<not> ok2 then Ret (- ENOMEM, leader_ret)
        else bnd (leader_read_num_loop tk (tk_disks tk) [] [] 0) (\<lambda>(leaders, reps, num_reads).
          if \<not> majority_disks (num_disks tk) num_reads then Ret (SANLK_LEADER_READ, zero_leader)
          else case find_majority (num_disks tk) leaders reps of
            None \<Rightarrow> Ret (SANLK_LEADER_DIFF, zero_leader)
          | Some leader \<Rightarrow> Ret (SANLK_OK, leader))))"

definition paxos_lease_leader_read :: "token \<Rightarrow> leader_record \<Rightarrow> (int \<times> leader_record) sio" where
  "paxos_lease_leader_read tk leader_ret =
    (if num_disks tk > 1 then leader_read_num tk leader_ret else leader_read_one tk leader_ret)"

section \<open>The initial read of a lease\<close>

text \<open>
  The largest \<open>mbal\<close> of the host blocks \<open>qs\<close> of an area, or the error of the first block that does not
  verify.
\<close>

fun lease_scan :: "nat \<Rightarrow> bytes \<Rightarrow> nat list \<Rightarrow> int \<Rightarrow> u64 \<Rightarrow> int \<times> u64" where
  "lease_scan sector_size iobuf [] rv tmp_mbal = (rv, tmp_mbal)"
| "lease_scan sector_size iobuf (q # qs) rv tmp_mbal =
    (let bk_end = drop ((2 + q) * sector_size) iobuf;
         bk = paxos_dblock_in bk_end;
         rv = verify_dblock bk (dblock_checksum bk_end)
     in if rv < 0 then (rv, tmp_mbal)
        else lease_scan sector_size iobuf qs rv (if tmp_mbal = 0 \<or> pd_mbal bk > tmp_mbal then pd_mbal bk else tmp_mbal))"

definition lease_read_one :: "token \<Rightarrow> sync_disk \<Rightarrow> leader_record \<Rightarrow> u64 \<Rightarrow> (int \<times> leader_record \<times> u64) sio" where
  "lease_read_one tk disk leader_ret max_mbal =
    (if tk_align_size tk < 0 then Ret (tk_align_size tk, leader_ret, max_mbal)
     else Posix_memalign (size_t (tk_align_size tk)) (\<lambda>rv mem.
       if rv \<noteq> 0 then Ret (rv, leader_ret, max_mbal)
       else Read_iobuf disk (sd_offset disk) (size_t (tk_align_size tk)) (ioto tk) (\<lambda>rv iobuf.
         if rv < 0 then Ret (rv, leader_ret, max_mbal)
         else
           (let leader_end = take leader_size iobuf;
                leader_ret = leader_record_in leader_end
            in bnd (verify_leader tk disk leader_ret (leader_checksum leader_end)) (\<lambda>rv.
              if rv < 0 then Ret (rv, leader_ret, max_mbal)
              else
                (case lease_scan (nat (tk_sector_size tk)) iobuf [0..<unat (lr_num_hosts leader_ret)] rv 0 of
                   (rv, tmp_mbal) \<Rightarrow>
                     if rv < 0 then Ret (rv, leader_ret, max_mbal) else Ret (rv, leader_ret, tmp_mbal)))))))"

text \<open>
  On several disks: \<open>leader_one\<close> and \<open>mbal_one\<close> are the variables each read stores into, \<open>rv\<close> the result
  of the last one.
\<close>

fun lease_read_num_loop ::
    "token \<Rightarrow> sync_disk list \<Rightarrow> leader_record \<Rightarrow> u64 \<Rightarrow> leader_record list \<Rightarrow> nat list \<Rightarrow> nat \<Rightarrow> u64 \<Rightarrow> int \<Rightarrow>
     (int \<times> leader_record list \<times> nat list \<times> nat \<times> u64) sio" where
  "lease_read_num_loop tk [] leader_one mbal_one leaders reps num_reads tmp_mbal rv =
    Ret (rv, leaders, reps, num_reads, tmp_mbal)"
| "lease_read_num_loop tk (disk # disks) leader_one mbal_one leaders reps num_reads tmp_mbal rv =
    bnd (lease_read_one tk disk leader_one mbal_one) (\<lambda>(rv, leader_one, mbal_one).
      if rv < 0
      then lease_read_num_loop tk disks leader_one mbal_one (leaders @ [zero_leader]) (reps @ [0]) num_reads tmp_mbal rv
      else lease_read_num_loop tk disks leader_one mbal_one (leaders @ [leader_one])
        (count_rep leaders reps leader_one @ [1]) (num_reads + 1)
        (if tmp_mbal = 0 \<or> mbal_one > tmp_mbal then mbal_one else tmp_mbal) rv)"

definition lease_read_num :: "token \<Rightarrow> leader_record \<Rightarrow> u64 \<Rightarrow> (int \<times> leader_record \<times> u64) sio" where
  "lease_read_num tk leader_ret max_mbal =
    Uninit (leader_size + 8) (\<lambda>junk.
      malloc (num_disks tk * leader_size) (\<lambda>ok1.
        if \<not> ok1 then Ret (- ENOMEM, leader_ret, max_mbal)
        else malloc (num_disks tk * 4) (\<lambda>ok2.
          if \<not> ok2 then Ret (- ENOMEM, leader_ret, max_mbal)
          else bnd (lease_read_num_loop tk (tk_disks tk) (leader_record_in junk) (le_get (drop leader_size junk)) [] [] 0 0 0)
            (\<lambda>(rv, leaders, reps, num_reads, tmp_mbal).
              if num_reads = 0 then Ret (SANLK_DBLOCK_READ, leader_ret, tmp_mbal)
              else case find_majority (num_disks tk) leaders reps of
                None \<Rightarrow> Ret (SANLK_LEADER_DIFF, leader_ret, tmp_mbal)
              | Some leader \<Rightarrow> Ret (rv, leader, tmp_mbal)))))"

definition paxos_lease_read :: "token \<Rightarrow> leader_record \<Rightarrow> u64 \<Rightarrow> (int \<times> leader_record \<times> u64) sio" where
  "paxos_lease_read tk leader_ret max_mbal =
    (if num_disks tk > 1 then lease_read_num tk leader_ret max_mbal
     else lease_read_one tk (disk0 tk) leader_ret max_mbal)"

section \<open>Writing the leader\<close>

fun write_new_leader_loop ::
    "token \<Rightarrow> sync_disk list \<Rightarrow> leader_record \<Rightarrow> nat \<Rightarrow> bool \<Rightarrow> int \<Rightarrow> (int \<times> leader_record) sio" where
  "write_new_leader_loop tk [] nl num_writes timeout rv =
    Ret (if \<not> majority_disks (num_disks tk) num_writes
         then (if timeout then SANLK_AIO_TIMEOUT else if rv < 0 then rv else SANLK_LEADER_WRITE)
         else SANLK_OK, nl)"
| "write_new_leader_loop tk (disk # disks) nl num_writes timeout rv =
    bnd (write_leader tk disk nl) (\<lambda>(rv, nl).
      write_new_leader_loop tk disks nl (if rv < 0 then num_writes else num_writes + 1)
        (timeout \<or> rv = SANLK_AIO_TIMEOUT) rv)"

definition write_new_leader :: "token \<Rightarrow> leader_record \<Rightarrow> (int \<times> leader_record) sio" where
  "write_new_leader tk nl = write_new_leader_loop tk (tk_disks tk) nl 0 False 0"

section \<open>Release\<close>

text \<open>
  \<open>resrename\<close> and \<open>leader_last\<close> may be null pointers.  The comparison of the whole records is \<open>memcmp\<close>.
\<close>

definition released_leader :: "token \<Rightarrow> sanlk_resource option \<Rightarrow> u64 \<Rightarrow> leader_record \<Rightarrow> leader_record" where
  "released_leader tk resrename now leader =
    (let leader = (case resrename of None \<Rightarrow> leader | Some r \<Rightarrow> leader\<lparr>lr_resource_name := r_name r\<rparr>)
     in leader\<lparr>lr_timestamp := LEASE_FREE, lr_write_id := tk_host_id tk,
          lr_write_generation := tk_host_generation tk, lr_write_timestamp := now,
          lr_flags := lr_flags leader AND NOT LFL_SHORT_HOLD, lr_checksum := 0\<rparr>)"

definition paxos_lease_release ::
    "token \<Rightarrow> sanlk_resource option \<Rightarrow> leader_record option \<Rightarrow> leader_record \<Rightarrow> (int \<times> leader_record) sio" where
  "paxos_lease_release tk resrename leader_last leader_ret =
    bnd (paxos_lease_leader_read tk zero_leader) (\<lambda>(error, leader).
      if error < 0 then Ret (error, leader_ret)
      else
        (let last = (case leader_last of None \<Rightarrow> leader | Some l \<Rightarrow> l)
         in
           if lr_write_id leader \<noteq> tk_host_id tk then Ret (0, leader_ret)
           else if lr_lver leader \<noteq> lr_lver last then Ret (SANLK_RELEASE_LVER, leader_ret)
           else if lr_timestamp leader = LEASE_FREE then Ret (SANLK_RELEASE_OWNER, leader_ret)
           else if lr_owner_id leader \<noteq> tk_host_id tk \<or> lr_owner_generation leader \<noteq> tk_host_generation tk
           then Ret (SANLK_RELEASE_OWNER, leader_ret)
           else if leader \<noteq> last then Ret (SANLK_RELEASE_OWNER, leader_ret)
           else Monotime (\<lambda>now.
             bnd (write_new_leader tk (released_leader tk resrename now leader)) (\<lambda>(error, leader).
               if error < 0 then Ret (error, leader_ret) else Ret (error, leader)))))"

section \<open>Initialisation\<close>

fun lease_init_writes :: "sync_disk list \<Rightarrow> bytes \<Rightarrow> int \<Rightarrow> int sio" where
  "lease_init_writes [] iobuf write_io_timeout = Ret 0"
| "lease_init_writes (disk # disks) iobuf write_io_timeout =
    Write_iobuf disk (sd_offset disk) iobuf write_io_timeout (\<lambda>rv.
      if rv < 0 then Ret rv else lease_init_writes disks iobuf write_io_timeout)"

text \<open>The leader record of a new lease, or of one that is being cleared.\<close>

definition init_leader :: "token \<Rightarrow> bool \<Rightarrow> u64 \<Rightarrow> int \<Rightarrow> int \<Rightarrow> int \<Rightarrow> int \<Rightarrow> leader_record" where
  "init_leader tk write_clear now sector_size align_size num_hosts max_hosts =
    zero_leader\<lparr>lr_magic := (if write_clear then PAXOS_DISK_CLEAR else PAXOS_DISK_MAGIC),
      lr_write_timestamp := (if write_clear then now else 0),
      lr_timestamp := LEASE_FREE,
      lr_version := PAXOS_DISK_VERSION_MAJOR OR PAXOS_DISK_VERSION_MINOR,
      lr_flags := leader_align_flag_from_size align_size,
      lr_sector_size := word_of_int sector_size,
      lr_num_hosts := word_of_int num_hosts,
      lr_max_hosts := word_of_int max_hosts,
      lr_space_name := strncpy NAME_ID_SIZE (r_lockspace_name (tk_r tk)),
      lr_resource_name := strncpy NAME_ID_SIZE (r_name (tk_r tk)),
      lr_checksum := 0\<rparr>"

definition paxos_lease_init :: "token \<Rightarrow> int \<Rightarrow> bool \<Rightarrow> int \<Rightarrow> (int \<times> token) sio" where
  "paxos_lease_init tk num_hosts write_clear write_init_io_timeout =
    (case sizes_from_flags (r_flags (tk_r tk)) ''RES'' of (rv, sector_size, align_size, max_hosts) \<Rightarrow>
      if rv \<noteq> 0 then Ret (rv, tk)
      else
        (let (sector_size, align_size, max_hosts) =
               (if sector_size = 0
                then (let ss = sint (sd_sector_size (disk0 tk)) in (ss, sector_size_to_align_size_old ss, int DEFAULT_MAX_HOSTS))
                else (sector_size, align_size, max_hosts));
             num_hosts = (if num_hosts = 0 \<or> num_hosts > max_hosts then max_hosts else num_hosts);
             tk = tk\<lparr>tk_sector_size := sector_size, tk_align_size := align_size\<rparr>
         in Posix_memalign (size_t align_size) (\<lambda>rv mem.
           if rv \<noteq> 0 then Ret (rv, tk)
           else
             (let rest = (\<lambda>now. Uninit request_size (\<lambda>rr_end.
                let rr = \<lparr>rr_magic = REQ_DISK_MAGIC, rr_version = REQ_DISK_VERSION_MAJOR OR REQ_DISK_VERSION_MINOR,
                          rr_lver = 0, rr_force_mode = 0\<rparr>;
                    (leader, leader_end) =
                      leader_seal (init_leader tk write_clear now sector_size align_size num_hosts max_hosts) (replicate leader_size 0);
                    iobuf = splice_at (nat sector_size) (request_record_out rr rr_end)
                      (splice_at 0 leader_end (replicate (size_t align_size) 0));
                    write_io_timeout = (if write_init_io_timeout \<noteq> 0 then write_init_io_timeout else ioto tk)
                in bnd (lease_init_writes (tk_disks tk) iobuf write_io_timeout) (\<lambda>rv. Ret (rv, tk))))
              in if write_clear then Monotime rest else rest 0))))"

end
