(* ===== verification/Delta_Lease.thy ===== *)
theory Delta_Lease
  imports Lockspace
begin

text \<open>
  Delta leases: \<open>src/delta_lease.c\<close>.  A lockspace has one lease per host id, a leader record in sector
  \<open>host_id - 1\<close>; a host owns its host id while it renews the timestamp of that record.  The options
  \<open>com\<close> are an argument of the functions that use them.
\<close>

section \<open>Reading\<close>

definition delta_verify_leader :: "bytes \<Rightarrow> leader_record \<Rightarrow> u32 \<Rightarrow> int" where
  "delta_verify_leader space_name lr checksum =
    (if lr_magic lr \<noteq> DELTA_DISK_MAGIC then SANLK_LEADER_MAGIC
     else if lr_version lr AND 0xFFFF0000 \<noteq> DELTA_DISK_VERSION_MAJOR then SANLK_LEADER_VERSION
     else if \<not> strneq NAME_ID_SIZE (lr_space_name lr) space_name then SANLK_LEADER_LOCKSPACE
     else if lr_checksum lr \<noteq> checksum then SANLK_LEADER_CHECKSUM
     else SANLK_OK)"

definition delta_read_lockspace ::
    "sync_disk \<Rightarrow> int \<Rightarrow> u64 \<Rightarrow> sanlk_lockspace \<Rightarrow> int \<Rightarrow> int \<Rightarrow> (int \<times> sanlk_lockspace \<times> int) sio" where
  "delta_read_lockspace disk sector_size_hint host_id ls io_timeout io_timeout_ret =
    bnd (read_sectors disk sector_size_hint (host_id - 1) 1 (replicate leader_size 0) io_timeout) (\<lambda>(rv, leader_end).
      if rv < 0 then Ret (rv, ls, io_timeout_ret)
      else
        (let checksum = leader_checksum leader_end;
             leader = leader_record_in leader_end;
             space_name = (if lsp_name ls ! 0 = 0 then lr_space_name leader else lsp_name ls);
             error = delta_verify_leader space_name leader checksum
         in
           if error \<noteq> SANLK_OK then Ret (error, ls, io_timeout_ret)
           else
             (let sector_size = sint (lr_sector_size leader);
                  align_size = leader_align_size_from_flag (lr_flags leader);
                  align_size = (if align_size = 0 then sector_size_to_align_size_old sector_size else align_size);
                  flags = sanlk_lsf_align_flags_clear (sanlk_lsf_sector_flags_clear (lsp_flags ls))
              in Ret (error, ls\<lparr>lsp_name := lr_space_name leader, lsp_host_id := host_id,
                   lsp_flags := flags OR sanlk_lsf_sector_size_to_flag sector_size
                     OR sanlk_lsf_align_size_to_flag align_size\<rparr>, uint (lr_io_timeout leader)))))"

definition delta_read_lockspace_sizes :: "sync_disk \<Rightarrow> int \<Rightarrow> int \<Rightarrow> int \<Rightarrow> (int \<times> int \<times> int) sio" where
  "delta_read_lockspace_sizes disk io_timeout sector_size align_size =
    bnd (read_sectors disk 4096 0 1 (replicate leader_size 0) io_timeout) (\<lambda>(rv, leader_end).
      if rv < 0 then Ret (rv, sector_size, align_size)
      else
        (let leader = leader_record_in leader_end
         in
           if lr_magic leader \<noteq> DELTA_DISK_MAGIC then Ret (SANLK_LEADER_MAGIC, sector_size, align_size)
           else if lr_version leader AND 0xFFFF0000 \<noteq> DELTA_DISK_VERSION_MAJOR
           then Ret (SANLK_LEADER_VERSION, sector_size, align_size)
           else
             (let sector_size = sint (lr_sector_size leader);
                  align_size = leader_align_size_from_flag (lr_flags leader)
              in Ret (SANLK_OK, sector_size,
                   if align_size = 0 then sector_size_to_align_size_old sector_size else align_size))))"

definition delta_lease_leader_read ::
    "int \<Rightarrow> int \<Rightarrow> sync_disk \<Rightarrow> bytes \<Rightarrow> u64 \<Rightarrow> leader_record \<Rightarrow> (int \<times> leader_record) sio" where
  "delta_lease_leader_read sector_size io_timeout disk space_name host_id leader_ret =
    (if sector_size = 0 then Ret (- EINVAL, leader_ret)
     else bnd (read_sectors disk sector_size (host_id - 1) 1 (replicate leader_size 0) io_timeout) (\<lambda>(rv, leader_end).
       if rv < 0 then Ret (rv, zero_leader)
       else
         (let checksum = leader_checksum leader_end;
              leader = leader_record_in leader_end
          in Ret (delta_verify_leader space_name leader checksum, leader))))"

text \<open>The clobbering write does not set the checksum of the converted record.\<close>

definition delta_lease_leader_clobber :: "int \<Rightarrow> sync_disk \<Rightarrow> u64 \<Rightarrow> leader_record \<Rightarrow> int sio" where
  "delta_lease_leader_clobber io_timeout disk host_id leader =
    Uninit leader_size (\<lambda>leader_end.
      bnd (write_sector disk (sint (lr_sector_size leader)) (host_id - 1) (leader_record_out leader leader_end) io_timeout)
        (\<lambda>rv. if rv < 0 then Ret rv else Ret SANLK_OK))"

section \<open>Acquire\<close>

text \<open>Sleeping for a number of seconds; the result says whether the wait was completed.\<close>

fun delta_wait :: "space \<Rightarrow> nat \<Rightarrow> bool sio" where
  "delta_wait sp 0 = Ret True"
| "delta_wait sp (Suc n) =
    Get_shared (\<lambda>dm. if removed_or_shutdown dm sp then Ret False else Sleep 1 (delta_wait sp n))"

text \<open>The end of \<open>delta_lease_acquire\<close>: after our record was written, wait, and see whether it is still there.\<close>

definition delta_confirm ::
    "space \<Rightarrow> sync_disk \<Rightarrow> bytes \<Rightarrow> u64 \<Rightarrow> int \<Rightarrow> leader_record \<Rightarrow> leader_record \<Rightarrow> (int \<times> leader_record) sio" where
  "delta_confirm sp disk space_name host_id other_io_timeout leader1 leader_ret =
    bnd (delta_wait sp (nat (2 * other_io_timeout))) (\<lambda>waited.
      if \<not> waited then Ret (SANLK_ERROR, leader_ret)
      else bnd (delta_lease_leader_read (sp_sector_size sp) (uint (sp_io_timeout sp)) disk space_name host_id leader1)
        (\<lambda>(error, leader).
          if error < 0 then Ret (error, leader_ret)
          else if leader1 \<noteq> leader then Ret (SANLK_HOSTID_BUSY, leader_ret)
          else Ret (SANLK_OK, leader)))"

text \<open>The part of \<open>delta_lease_acquire\<close> from the label \<open>write_new\<close> on.\<close>

definition delta_new_leader :: "space \<Rightarrow> bytes \<Rightarrow> u64 \<Rightarrow> u64 \<Rightarrow> leader_record \<Rightarrow> leader_record" where
  "delta_new_leader sp our_host_name host_id new_ts leader =
    leader\<lparr>lr_timestamp := new_ts, lr_io_timeout := ucast (sp_io_timeout sp AND 0x00FF),
      lr_owner_id := host_id, lr_owner_generation := lr_owner_generation leader + 1,
      lr_resource_name := snprintf_s (lr_resource_name leader) NAME_ID_SIZE our_host_name, lr_checksum := 0\<rparr>"

definition delta_write_new ::
    "space \<Rightarrow> sync_disk \<Rightarrow> bytes \<Rightarrow> bytes \<Rightarrow> u64 \<Rightarrow> int \<Rightarrow> leader_record \<Rightarrow> leader_record \<Rightarrow> (int \<times> leader_record) sio" where
  "delta_write_new sp disk space_name our_host_name host_id other_io_timeout leader leader_ret =
    Monotime (\<lambda>new_ts.
      (let (leader1, leader_end) = leader_seal (delta_new_leader sp our_host_name host_id new_ts leader) (replicate leader_size 0)
       in bnd (write_sector disk (sp_sector_size sp) (host_id - 1) leader_end (uint (sp_io_timeout sp))) (\<lambda>rv.
         if rv < 0 then Ret (rv, leader_ret)
         else delta_confirm sp disk space_name host_id other_io_timeout leader1 leader_ret)))"

text \<open>
  The loop around the long wait is left in its first round: by \<open>break\<close> when the lease did not change or
  is free, by \<open>return\<close> otherwise.
\<close>

definition delta_lease_acquire ::
    "com_options \<Rightarrow> space \<Rightarrow> sync_disk \<Rightarrow> bytes \<Rightarrow> bytes \<Rightarrow> u64 \<Rightarrow> leader_record \<Rightarrow> (int \<times> leader_record) sio" where
  "delta_lease_acquire com sp disk space_name our_host_name host_id leader_ret =
    bnd (delta_lease_leader_read (sp_sector_size sp) (uint (sp_io_timeout sp)) disk space_name host_id zero_leader)
      (\<lambda>(error, leader).
        if error < 0 then Ret (error, leader_ret)
        else
          (let other_io_timeout =
                 (if lr_io_timeout leader = 0 then uint (sp_io_timeout sp) else uint (lr_io_timeout leader));
               write_new = (\<lambda>leader. delta_write_new sp disk space_name our_host_name host_id other_io_timeout leader leader_ret)
           in
             if lr_timestamp leader = LEASE_FREE then write_new leader
             else if strneq NAME_ID_SIZE (lr_resource_name leader) our_host_name then write_new leader
             else
               (let delay = calc_host_dead_seconds com other_io_timeout;
                    delta_large_delay = calc_id_renewal_seconds other_io_timeout + 6 * other_io_timeout;
                    delay = (if delta_large_delay > delay then delta_large_delay else delay);
                    leader1 = leader
                in bnd (delta_wait sp (nat delay)) (\<lambda>waited.
                  if \<not> waited then Ret (SANLK_ERROR, leader_ret)
                  else bnd (delta_lease_leader_read (sp_sector_size sp) (uint (sp_io_timeout sp)) disk space_name host_id leader)
                    (\<lambda>(error, leader).
                      if error < 0 then Ret (error, leader_ret)
                      else if leader1 = leader then write_new leader
                      else if lr_timestamp leader = LEASE_FREE then write_new leader
                      else Ret (SANLK_HOSTID_BUSY, leader_ret))))))"

section \<open>Renew\<close>

text \<open>
  The part of \<open>struct task\<close> that \<open>delta_lease_renew\<close> keeps between calls: whether a timed out read is
  still outstanding, and the buffer of the last read.
\<close>

record task =
  tsk_timeout_aicb :: bool
  tsk_iobuf :: "bytes option"

text \<open>The record that a renewal writes.\<close>

definition delta_renewed_leader :: "space \<Rightarrow> delta_extra option \<Rightarrow> u64 \<Rightarrow> leader_record \<Rightarrow> leader_record" where
  "delta_renewed_leader sp extra new_ts leader =
    (let leader = (if ucast (lr_io_timeout leader) \<noteq> sp_io_timeout sp
                   then leader\<lparr>lr_io_timeout := ucast (sp_io_timeout sp AND 0x00FF)\<rparr> else leader);
         leader = leader\<lparr>lr_timestamp := new_ts, lr_checksum := 0\<rparr>
     in case extra of None \<Rightarrow> leader
        | Some x \<Rightarrow> leader\<lparr>lr_write_id := field1 x, lr_write_generation := field2 x, lr_write_timestamp := field3 x\<rparr>)"

text \<open>
  From the label \<open>read_done\<close> on: \<open>iobuf\<close> holds the whole lockspace area.  The result is the return value,
  \<open>leader_ret\<close>, \<open>read_result\<close> and the task.
\<close>

definition delta_renew_write ::
    "com_options \<Rightarrow> space \<Rightarrow> sync_disk \<Rightarrow> bytes \<Rightarrow> bytes \<Rightarrow> delta_extra option \<Rightarrow> int \<Rightarrow> leader_record \<Rightarrow> leader_record \<Rightarrow>
     bytes \<Rightarrow> task \<Rightarrow> (int \<times> leader_record \<times> int \<times> task) sio" where
  "delta_renew_write com sp disk space_name bitmap extra prev_result prev leader_ret iobuf task =
    (let host_id = lr_owner_id prev;
         id_offset = (host_id - 1) * word_of_int (sp_sector_size sp);
         leader_end = take leader_size (drop (unat id_offset) iobuf);
         checksum = leader_checksum leader_end;
         leader = leader_record_in leader_end;
         rv = delta_verify_leader space_name leader checksum
     in
       if rv < 0 then Ret (rv, leader_ret, SANLK_OK, task)
       else if lr_owner_id leader \<noteq> lr_owner_id prev \<or> lr_owner_generation leader \<noteq> lr_owner_generation prev \<or>
               lr_resource_name leader \<noteq> lr_resource_name prev
       then Ret (SANLK_RENEW_OWNER, leader_ret, SANLK_OK, task)
       else if prev_result = SANLK_OK \<and> leader \<noteq> prev then Ret (SANLK_RENEW_DIFF, leader_ret, SANLK_OK, task)
       else Monotime (\<lambda>new_ts.
         Posix_memalign (size_t (sp_sector_size sp)) (\<lambda>rv mem.
           if rv \<noteq> 0 then Ret (- ENOMEM, leader_ret, SANLK_OK, task)
           else
             (let (leader, leader_end) = leader_seal (delta_renewed_leader sp extra new_ts leader) (replicate leader_size 0);
                  wbuf = splice_at LEADER_RECORD_MAX (take HOSTID_BITMAP_SIZE bitmap)
                    (splice_at 0 leader_end (replicate (size_t (sp_sector_size sp)) 0))
              in Write_iobuf disk (sd_offset disk + id_offset) wbuf (calc_host_dead_seconds com (uint (sp_io_timeout sp))) (\<lambda>rv.
                Monotime (\<lambda>now.
                  if rv < 0 then Ret (rv, leader_ret, SANLK_OK, task) else Ret (SANLK_OK, leader, SANLK_OK, task)))))))"

text \<open>
  The read of the whole area.  When the previous renewal timed out in its read, the result of that read
  is collected first (\<open>read_iobuf_reap\<close>, which delivers it or times out again).  After a failed
  allocation the code goes on to read into the null buffer, which fails.
\<close>

definition delta_lease_renew ::
    "com_options \<Rightarrow> space \<Rightarrow> sync_disk \<Rightarrow> bytes \<Rightarrow> bytes \<Rightarrow> delta_extra option \<Rightarrow> int \<Rightarrow> leader_record option \<Rightarrow>
     leader_record \<Rightarrow> int \<Rightarrow> task \<Rightarrow> (int \<times> leader_record \<times> int \<times> task) sio" where
  "delta_lease_renew com sp disk space_name bitmap extra prev_result leader_last leader_ret read_result task =
    (case leader_last of
       None \<Rightarrow> Ret (- EINVAL, leader_ret, read_result, task)
     | Some prev \<Rightarrow>
         (let id_offset = (lr_owner_id prev - 1) * word_of_int (sp_sector_size sp);
              iobuf_len = sp_align_size sp;
              read_done = (\<lambda>iobuf task. delta_renew_write com sp disk space_name bitmap extra prev_result prev leader_ret iobuf
                (task\<lparr>tsk_iobuf := Some iobuf\<rparr>));
              new_read = (\<lambda>task.
                let task = (if tsk_timeout_aicb task then task\<lparr>tsk_timeout_aicb := False, tsk_iobuf := None\<rparr> else task);
                    rd = (\<lambda>task. Read_iobuf disk (sd_offset disk) (size_t iobuf_len) (uint (sp_io_timeout sp)) (\<lambda>rv iobuf.
                      if rv \<noteq> 0
                      then Ret (rv, leader_ret, SANLK_ERROR,
                             if rv = SANLK_AIO_TIMEOUT then task\<lparr>tsk_timeout_aicb := True\<rparr> else task)
                      else if tsk_iobuf task = None then Ret (-1, leader_ret, SANLK_ERROR, task)
                      else read_done iobuf task))
                in case tsk_iobuf task of
                     Some b \<Rightarrow> rd task
                   | None \<Rightarrow> Posix_memalign (size_t iobuf_len) (\<lambda>rv mem.
                       if rv \<noteq> 0 then rd task else rd (task\<lparr>tsk_iobuf := Some mem\<rparr>)))
          in
            if id_offset > word_of_int iobuf_len then Ret (- EINVAL, leader_ret, SANLK_ERROR, task)
            else if prev_result = SANLK_AIO_TIMEOUT then
              (if \<not> tsk_timeout_aicb task \<or> tsk_iobuf task = None
               then new_read (task\<lparr>tsk_timeout_aicb := False, tsk_iobuf := None\<rparr>)
               else Read_iobuf disk (sd_offset disk) (size_t iobuf_len)
                 (if sp_renewal_read_extend_sec sp = 0 then 0 else uint (sp_renewal_read_extend_sec sp)) (\<lambda>rv iobuf.
                   if rv = 0 then read_done iobuf (task\<lparr>tsk_timeout_aicb := False\<rparr>)
                   else new_read (task\<lparr>tsk_timeout_aicb := False, tsk_iobuf := None\<rparr>)))
            else new_read task))"

section \<open>Release and initialisation\<close>

definition delta_lease_release ::
    "space \<Rightarrow> sync_disk \<Rightarrow> leader_record option \<Rightarrow> leader_record \<Rightarrow> (int \<times> leader_record) sio" where
  "delta_lease_release sp disk leader_last leader_ret =
    (case leader_last of
       None \<Rightarrow> Ret (- EINVAL, leader_ret)
     | Some prev \<Rightarrow>
         (let host_id = lr_owner_id prev;
              (leader, leader_end) =
                leader_seal (prev\<lparr>lr_timestamp := LEASE_FREE, lr_checksum := 0\<rparr>) (replicate leader_size 0)
          in bnd (write_sector disk (sp_sector_size sp) (host_id - 1) leader_end (uint (sp_io_timeout sp))) (\<lambda>rv.
               if rv < 0 then Ret (rv, leader_ret) else Ret (SANLK_OK, leader))))"

text \<open>The record of slot \<open>i\<close> of a new lockspace; the first one is invalid until the whole area is written.\<close>

definition delta_init_leader :: "sanlk_lockspace \<Rightarrow> int \<Rightarrow> int \<Rightarrow> int \<Rightarrow> nat \<Rightarrow> leader_record" where
  "delta_init_leader ls io_timeout sector_size align_size i =
    zero_leader\<lparr>lr_magic := (if i = 0 then 0 else DELTA_DISK_MAGIC),
      lr_version := DELTA_DISK_VERSION_MAJOR OR DELTA_DISK_VERSION_MINOR,
      lr_flags := leader_align_flag_from_size align_size,
      lr_sector_size := word_of_int sector_size,
      lr_max_hosts := 1,
      lr_timestamp := LEASE_FREE,
      lr_io_timeout := word_of_int io_timeout,
      lr_space_name := strncpy NAME_ID_SIZE (lsp_name ls),
      lr_checksum := 0\<rparr>"

fun delta_init_fill :: "(nat \<Rightarrow> leader_record) \<Rightarrow> nat \<Rightarrow> nat list \<Rightarrow> bytes \<Rightarrow> bytes" where
  "delta_init_fill leader sector_size [] iobuf = iobuf"
| "delta_init_fill leader sector_size (i # is) iobuf =
    delta_init_fill leader sector_size is
      (splice_at (i * sector_size) (snd (leader_seal (leader i) (replicate leader_size 0))) iobuf)"

definition delta_lease_init :: "int \<Rightarrow> int \<Rightarrow> sanlk_lockspace \<Rightarrow> int \<Rightarrow> sync_disk \<Rightarrow> int sio" where
  "delta_lease_init default_io_timeout write_init_io_timeout ls io_timeout disk =
    (let io_timeout = (if io_timeout = 0 then default_io_timeout else io_timeout)
     in case sizes_from_flags (lsp_flags ls) ''LSF'' of (rv, sector_size, align_size, max_hosts) \<Rightarrow>
       if rv \<noteq> 0 then Ret rv
       else
         (let (sector_size, align_size, max_hosts) =
                (if sector_size = 0
                 then (let ss = sint (sd_sector_size disk) in (ss, sector_size_to_align_size_old ss, int DEFAULT_MAX_HOSTS))
                 else (sector_size, align_size, max_hosts));
              leader = delta_init_leader ls io_timeout sector_size align_size
          in Posix_memalign (size_t align_size) (\<lambda>rv mem.
            if rv \<noteq> 0 then Ret rv
            else
              (let iobuf = delta_init_fill leader (nat sector_size) [0..<nat max_hosts] (replicate (size_t align_size) 0);
                   write_io_timeout = (if write_init_io_timeout \<noteq> 0 then write_init_io_timeout else io_timeout)
               in Write_iobuf disk (sd_offset disk) iobuf write_io_timeout (\<lambda>rv.
                 if rv < 0 then Ret rv
                 else
                   (let (leader_first, leader_end) =
                          leader_seal ((leader 0)\<lparr>lr_magic := DELTA_DISK_MAGIC, lr_checksum := 0\<rparr>) (replicate leader_size 0);
                        iobuf = splice_at 0 leader_end iobuf
                    in Write_iobuf disk (sd_offset disk) (take (nat sector_size) iobuf) write_io_timeout Ret))))))"

end
