(* ===== verification/Paxos_Acquire.thy ===== *)
theory Paxos_Acquire
  imports Paxos_Leader Delta_Lease
begin

text \<open>
  \<open>paxos_lease_acquire\<close> of \<open>src/paxos_lease.c\<close>.  Its three loops (the labels \<open>restart\<close> and
  \<open>retry_ballot\<close>, and the \<open>while\<close> loop that waits for a sign of life of the owner) are the functions
  \<open>acquire_restart\<close>, \<open>acquire_ballot\<close> and \<open>acquire_wait\<close>, which take the continuation \<open>goto\<close> for the
  jumps between them; \<open>acquire_from\<close> ties the knot, one unit of fuel per jump.  The local variables that
  live across the jumps are the record \<open>acquire_vars\<close>, those that the source does not initialise start
  with arbitrary contents.
\<close>

record acquire_vars =
  aq_tk :: token
  aq_leader_ret :: leader_record
  aq_dblock_ret :: paxos_dblock
  aq_dblock :: paxos_dblock
  aq_cur_leader :: leader_record
  aq_max_mbal :: u64
  aq_hs :: host_status
  aq_host_id_disk :: "(sync_disk \<times> int) option"

text \<open>The contents of uninitialised memory read as a \<open>struct host_status\<close> (120 bytes).\<close>

definition host_status_mem :: "bytes \<Rightarrow> host_status" where
  "host_status_mem b = \<lparr>hs_first_check = le_get (slice 0 8 b), hs_last_check = le_get (slice 8 8 b),
     hs_last_live = le_get (slice 16 8 b), hs_last_req = le_get (slice 24 8 b), hs_owner_id = le_get (slice 32 8 b),
     hs_owner_generation = le_get (slice 40 8 b), hs_timestamp = le_get (slice 48 8 b),
     hs_set_bit_time = le_get (slice 56 8 b), hs_io_timeout = le_get (slice 64 2 b),
     hs_lease_bad = le_get (slice 66 2 b), hs_owner_name = slice 68 48 b\<rparr>"

text \<open>The first ballot number to try, above every \<open>mbal\<close> seen and congruent to our host id.\<close>

definition first_mbal :: "u64 \<Rightarrow> u64 \<Rightarrow> u64 \<Rightarrow> u64" where
  "first_mbal max_mbal max_hosts host_id =
    (if max_mbal = 0 then host_id
     else (let num_mbal = max_mbal - max_mbal mod max_hosts in num_mbal + max_hosts + host_id))"

text \<open>The leader committed after a successful ballot.\<close>

definition committed_leader :: "token \<Rightarrow> u32 \<Rightarrow> int \<Rightarrow> u64 \<Rightarrow> leader_record \<Rightarrow> paxos_dblock \<Rightarrow> leader_record" where
  "committed_leader tk flags new_num_hosts now cur_leader dblock =
    (let new_leader = cur_leader\<lparr>lr_lver := pd_lver dblock, lr_owner_id := pd_inp dblock,
           lr_owner_generation := pd_inp2 dblock, lr_timestamp := pd_inp3 dblock,
           lr_write_id := tk_host_id tk, lr_write_generation := tk_host_generation tk, lr_write_timestamp := now\<rparr>;
         new_leader = (if new_num_hosts \<noteq> 0 then new_leader\<lparr>lr_num_hosts := word_of_int new_num_hosts\<rparr> else new_leader);
         new_leader = (if lr_owner_id new_leader = tk_host_id tk
                       then (if flags AND PAXOS_ACQUIRE_SHARED \<noteq> 0
                             then new_leader\<lparr>lr_flags := lr_flags new_leader OR LFL_SHORT_HOLD\<rparr>
                             else new_leader\<lparr>lr_flags := lr_flags new_leader AND NOT LFL_SHORT_HOLD\<rparr>)
                       else new_leader)
     in new_leader\<lparr>lr_checksum := 0\<rparr>)"

text \<open>After a successful ballot: write the leader and report who was committed as the owner.\<close>

definition acquire_commit :: "u32 \<Rightarrow> int \<Rightarrow> acquire_vars \<Rightarrow> (int \<times> acquire_vars) sio" where
  "acquire_commit flags new_num_hosts aq =
    Monotime (\<lambda>now.
      bnd (write_new_leader (aq_tk aq) (committed_leader (aq_tk aq) flags new_num_hosts now (aq_cur_leader aq) (aq_dblock aq)))
        (\<lambda>(error, new_leader).
          if error < 0
          then Ret (error, aq\<lparr>aq_tk := (aq_tk aq)\<lparr>tk_flags := tk_flags (aq_tk aq) OR T_RETRACT_PAXOS\<rparr>, aq_leader_ret := new_leader\<rparr>)
          else if lr_owner_id new_leader \<noteq> tk_host_id (aq_tk aq)
          then Ret (SANLK_ACQUIRE_OTHER, aq\<lparr>aq_leader_ret := new_leader\<rparr>)
          else Ret (SANLK_OK, aq\<lparr>aq_leader_ret := new_leader, aq_dblock_ret := aq_dblock aq\<rparr>)))"

text \<open>Whether the acquire may run a ballot at once, from the leader that was read.\<close>

definition owner_is_gone :: "token \<Rightarrow> leader_record \<Rightarrow> bool" where
  "owner_is_gone tk cur_leader \<longleftrightarrow>
    lr_timestamp cur_leader = LEASE_FREE \<or>
    (lr_owner_id cur_leader = tk_host_id tk \<and> lr_owner_generation cur_leader = tk_host_generation tk) \<or>
    (lr_owner_id cur_leader = tk_host_id tk \<and> lr_owner_generation cur_leader < tk_host_generation tk)"

text \<open>
  The points the code jumps to: \<open>restart\<close>; a round of the waiting loop, with the delta lease disk of the
  owner, \<open>wait_start\<close> and \<open>last_timestamp\<close>; \<open>retry_ballot\<close>, with \<open>copy_cur_leader\<close> and \<open>our_mbal\<close>.
\<close>

datatype acquire_point = Restart | Wait sync_disk int u64 u64 | Retry_ballot bool u64

text \<open>The label \<open>run\<close>: the ballot number is computed and the first ballot starts.\<close>

definition acquire_run ::
    "(acquire_point \<Rightarrow> acquire_vars \<Rightarrow> (int \<times> acquire_vars) sio) \<Rightarrow> bool \<Rightarrow> acquire_vars \<Rightarrow> (int \<times> acquire_vars) sio" where
  "acquire_run goto copy_cur_leader aq =
    goto (Retry_ballot copy_cur_leader
      (first_mbal (aq_max_mbal aq) (lr_max_hosts (aq_cur_leader aq)) (tk_host_id (aq_tk aq)))) aq"

text \<open>Before the waiting loop: what our own renewals know about the owner.\<close>

definition acquire_wait_start ::
    "(acquire_point \<Rightarrow> acquire_vars \<Rightarrow> (int \<times> acquire_vars) sio) \<Rightarrow> sync_disk \<Rightarrow> int \<Rightarrow> acquire_vars \<Rightarrow> (int \<times> acquire_vars) sio" where
  "acquire_wait_start goto disk ls_sector_size aq =
    Get_shared (\<lambda>dm.
      let cur_leader = aq_cur_leader aq
      in case host_info dm (lr_space_name cur_leader) (lr_owner_id cur_leader) of (rv, hs_out) \<Rightarrow>
        let hs = (case hs_out of Some hs \<Rightarrow> hs | None \<Rightarrow> aq_hs aq); aq = aq\<lparr>aq_hs := hs\<rparr>
        in if rv = 0 \<and> hs_last_check hs \<noteq> 0 \<and> hs_last_live hs \<noteq> 0 \<and>
              hs_owner_id hs = lr_owner_id cur_leader \<and> hs_owner_generation hs = lr_owner_generation cur_leader
           then goto (Wait disk ls_sector_size (hs_last_live hs) (hs_timestamp hs)) aq
           else Monotime (\<lambda>now. goto (Wait disk ls_sector_size now 0) aq))"

definition acquire_open_host_disk ::
    "(acquire_point \<Rightarrow> acquire_vars \<Rightarrow> (int \<times> acquire_vars) sio) \<Rightarrow> acquire_vars \<Rightarrow> (int \<times> acquire_vars) sio" where
  "acquire_open_host_disk goto aq =
    (case aq_host_id_disk aq of
       Some (disk, ls_sector_size) \<Rightarrow> acquire_wait_start goto disk ls_sector_size aq
     | None \<Rightarrow> Get_shared (\<lambda>dm.
         case lockspace_disk dm (lr_space_name (aq_cur_leader aq)) of
           (rv, None) \<Rightarrow> Ret (SANLK_ACQUIRE_LOCKSPACE, aq)
         | (rv, Some (disk, ls_sector_size)) \<Rightarrow>
             bnd (open_disks_fd [disk]) (\<lambda>(rv, disks).
               if rv < 0 then Ret (SANLK_ACQUIRE_IDDISK, aq)
               else acquire_wait_start goto (disks ! 0) ls_sector_size
                 (aq\<lparr>aq_host_id_disk := Some (disks ! 0, ls_sector_size)\<rparr>))))"

definition acquire_restart ::
    "u32 \<Rightarrow> u64 \<Rightarrow> (acquire_point \<Rightarrow> acquire_vars \<Rightarrow> (int \<times> acquire_vars) sio) \<Rightarrow> acquire_vars \<Rightarrow> (int \<times> acquire_vars) sio" where
  "acquire_restart flags acquire_lver goto aq =
    bnd (paxos_lease_read (aq_tk aq) (aq_cur_leader aq) (aq_max_mbal aq)) (\<lambda>(error, cur_leader, max_mbal).
      let tk = aq_tk aq; aq = aq\<lparr>aq_cur_leader := cur_leader, aq_max_mbal := max_mbal\<rparr>
      in
        if error < 0 then Ret (error, aq)
        else
          (let align_size = leader_align_size_from_flag (lr_flags cur_leader);
               align_size = (if align_size = 0 then sector_size_to_align_size_old (sint (lr_sector_size cur_leader)) else align_size)
           in
             if lr_sector_size cur_leader \<noteq> word_of_int (tk_sector_size tk) \<or> align_size \<noteq> tk_align_size tk
             then goto Restart
               (aq\<lparr>aq_tk := tk\<lparr>tk_sector_size := sint (lr_sector_size cur_leader), tk_align_size := align_size\<rparr>\<rparr>)
             else if flags AND PAXOS_ACQUIRE_FORCE \<noteq> 0 then acquire_run goto True aq
             else if acquire_lver \<noteq> 0 \<and> lr_lver cur_leader \<noteq> acquire_lver then Ret (SANLK_ACQUIRE_LVER, aq)
             else if owner_is_gone tk cur_leader then acquire_run goto True aq
             else acquire_open_host_disk goto aq))"

text \<open>The end of a waiting round, from the label \<open>skip_live_check\<close> on.\<close>

definition acquire_next_round ::
    "(acquire_point \<Rightarrow> acquire_vars \<Rightarrow> (int \<times> acquire_vars) sio) \<Rightarrow> sync_disk \<Rightarrow> int \<Rightarrow> u64 \<Rightarrow> u64 \<Rightarrow> acquire_vars \<Rightarrow>
     (int \<times> acquire_vars) sio" where
  "acquire_next_round goto disk ls_sector_size wait_start last_timestamp aq =
    Sleep 1 (Get_shared (\<lambda>dm.
      if dm_external_shutdown dm \<noteq> 0 then Ret (-1, aq)
      else bnd (paxos_lease_leader_read (aq_tk aq) zero_leader) (\<lambda>(error, tmp_leader).
        if error < 0 then Ret (error, aq)
        else if aq_cur_leader aq \<noteq> tmp_leader then goto Restart aq
        else goto (Wait disk ls_sector_size wait_start last_timestamp) aq)))"

text \<open>
  One round of the waiting loop.  The owner is gone when its delta lease is free, or belongs to another
  host or a later generation; it is alive when its timestamp moves; it is dead when nothing was seen of
  it for longer than \<open>host_dead_seconds\<close>.
\<close>

definition acquire_wait ::
    "com_options \<Rightarrow> u32 \<Rightarrow> (acquire_point \<Rightarrow> acquire_vars \<Rightarrow> (int \<times> acquire_vars) sio) \<Rightarrow> sync_disk \<Rightarrow> int \<Rightarrow> u64 \<Rightarrow> u64 \<Rightarrow>
     acquire_vars \<Rightarrow> (int \<times> acquire_vars) sio" where
  "acquire_wait com flags goto disk ls_sector_size wait_start last_timestamp aq =
    (let tk = aq_tk aq; cur_leader = aq_cur_leader aq; hs = aq_hs aq
     in bnd (delta_lease_leader_read ls_sector_size (ioto tk) disk (lr_space_name cur_leader) (lr_owner_id cur_leader) zero_leader)
       (\<lambda>(error, host_id_leader).
         if error < 0 then Ret (error, aq)
         else if lr_timestamp host_id_leader = LEASE_FREE then acquire_run goto False aq
         else if lr_owner_id host_id_leader \<noteq> lr_owner_id cur_leader \<or>
                 lr_owner_generation host_id_leader > lr_owner_generation cur_leader
         then acquire_run goto False aq
         else if last_timestamp = 0
         then acquire_next_round goto disk ls_sector_size wait_start (lr_timestamp host_id_leader) aq
         else if lr_timestamp host_id_leader \<noteq> last_timestamp \<or> (hs_last_live hs \<noteq> 0 \<and> hs_last_check hs = hs_last_live hs)
         then
           (let aq = aq\<lparr>aq_leader_ret := cur_leader\<rparr>
            in if lr_write_id cur_leader \<noteq> lr_owner_id cur_leader
               then bnd (read_dblock tk (disk0 tk) (lr_owner_id cur_leader)) (\<lambda>(rv, owner_dblock).
                 if rv = 0 \<and> pd_flags owner_dblock AND DBLOCK_FL_RELEASED \<noteq> 0 then acquire_run goto False aq
                 else Ret (SANLK_ACQUIRE_IDLIVE, aq))
               else Ret (SANLK_ACQUIRE_IDLIVE, aq))
         else Monotime (\<lambda>now.
           if now - wait_start > word_of_int (calc_host_dead_seconds com (uint (hs_io_timeout hs))) then acquire_run goto False aq
           else if flags AND PAXOS_ACQUIRE_OWNER_NOWAIT \<noteq> 0 then Ret (SANLK_ACQUIRE_OWNED_RETRY, aq)
           else acquire_next_round goto disk ls_sector_size wait_start last_timestamp aq)))"

text \<open>One ballot, from the label \<open>retry_ballot\<close> on.\<close>

definition acquire_ballot ::
    "u32 \<Rightarrow> int \<Rightarrow> (acquire_point \<Rightarrow> acquire_vars \<Rightarrow> (int \<times> acquire_vars) sio) \<Rightarrow> bool \<Rightarrow> u64 \<Rightarrow> acquire_vars \<Rightarrow>
     (int \<times> acquire_vars) sio" where
  "acquire_ballot flags new_num_hosts goto copy_cur_leader our_mbal aq =
    (let tk = aq_tk aq; cur_leader = aq_cur_leader aq; next_lver = lr_lver cur_leader + 1
     in bnd (if copy_cur_leader then Ret (SANLK_OK, cur_leader) else paxos_lease_leader_read tk zero_leader)
       (\<lambda>(error, tmp_leader).
         if error < 0 then Ret (error, aq)
         else if lr_lver tmp_leader = next_lver
         then
           (if lr_owner_id tmp_leader = tk_host_id tk \<and> lr_owner_generation tmp_leader = tk_host_generation tk
            then Ret (SANLK_OK, aq\<lparr>aq_leader_ret := tmp_leader, aq_dblock_ret := aq_dblock aq\<rparr>)
            else Ret (SANLK_ACQUIRE_OWNED, aq\<lparr>aq_leader_ret := tmp_leader\<rparr>))
         else if lr_lver tmp_leader > next_lver then goto Restart aq
         else if cur_leader \<noteq> tmp_leader then goto Restart aq
         else bnd (run_ballot tk (sint (ucast (lr_num_hosts cur_leader) :: u32)) next_lver our_mbal (aq_dblock aq))
           (\<lambda>(error, dblock, tk).
             let aq = aq\<lparr>aq_tk := tk, aq_dblock := dblock\<rparr>
             in if error = SANLK_DBLOCK_MBAL \<or> error = SANLK_DBLOCK_LVER
                then Get_rand 0 1000000 (\<lambda>us.
                  Usleep (if us < 0 then sint (ucast (tk_host_id tk * 100) :: u32) else us)
                    (goto (Retry_ballot False (our_mbal + lr_max_hosts cur_leader)) aq))
                else if error < 0 then Ret (error, aq)
                else acquire_commit flags new_num_hosts aq)))"

primrec acquire_from ::
    "com_options \<Rightarrow> u32 \<Rightarrow> u64 \<Rightarrow> int \<Rightarrow> nat \<Rightarrow> acquire_point \<Rightarrow> acquire_vars \<Rightarrow> (int \<times> acquire_vars) sio" where
  "acquire_from com flags acquire_lver new_num_hosts 0 = (\<lambda>pt aq. Out_of_fuel)"
| "acquire_from com flags acquire_lver new_num_hosts (Suc n) = (\<lambda>pt aq.
    let goto = acquire_from com flags acquire_lver new_num_hosts n
    in case pt of
         Restart \<Rightarrow> acquire_restart flags acquire_lver goto aq
       | Wait disk ls_sector_size wait_start last_timestamp \<Rightarrow>
           acquire_wait com flags goto disk ls_sector_size wait_start last_timestamp aq
       | Retry_ballot copy_cur_leader our_mbal \<Rightarrow> acquire_ballot flags new_num_hosts goto copy_cur_leader our_mbal aq)"

definition paxos_lease_acquire ::
    "com_options \<Rightarrow> nat \<Rightarrow> token \<Rightarrow> u32 \<Rightarrow> leader_record \<Rightarrow> paxos_dblock \<Rightarrow> u64 \<Rightarrow> int \<Rightarrow>
     (int \<times> token \<times> leader_record \<times> paxos_dblock) sio" where
  "paxos_lease_acquire com fuel tk flags leader_ret dblock_ret acquire_lver new_num_hosts =
    (if tk_sector_size tk = 0 then Ret (- EINVAL, tk, leader_ret, dblock_ret)
     else Uninit (leader_size + 8 + 120) (\<lambda>junk.
       bnd (acquire_from com flags acquire_lver new_num_hosts fuel Restart
             \<lparr>aq_tk = tk, aq_leader_ret = leader_ret, aq_dblock_ret = dblock_ret, aq_dblock = zero_dblock,
              aq_cur_leader = leader_record_in junk, aq_max_mbal = le_get (slice leader_size 8 junk),
              aq_hs = host_status_mem (drop (leader_size + 8) junk), aq_host_id_disk = None\<rparr>)
         (\<lambda>(error, aq). Ret (error, aq_tk aq, aq_leader_ret aq, aq_dblock_ret aq))))"

end
