(* ===== verification/Histories.thy ===== *)
theory Histories
  imports Diskio
begin

text \<open>
  What a history of calls says about a run: the records read from the disks, the time slept, and
  whether each write was justified by what came before it.
\<close>

primrec read_record :: "'st event \<Rightarrow> leader_record option" where
  "read_record (E_read d off n rv b) = (if rv = 0 then Some (leader_record_in b) else None)"
| "read_record (E_memalign n rv b) = None"
| "read_record (E_uninit b) = None"
| "read_record (E_write d off b rv) = None"
| "read_record (E_open p rv) = None"
| "read_record (E_time t) = None"
| "read_record (E_sleep n) = None"
| "read_record (E_usleep n) = None"
| "read_record (E_rand r) = None"
| "read_record (E_call c args rv) = None"
| "read_record (E_shared s) = None"

text \<open>The leader records that were read, in order.\<close>

definition records_read :: "'st event list \<Rightarrow> leader_record list" where
  "records_read hist = List.map_filter read_record hist"

lemma records_read_simps [simp]:
  "records_read [] = []"
  "records_read (hist @ hist') = records_read hist @ records_read hist'"
  "records_read (ev # hist) = (case read_record ev of None \<Rightarrow> records_read hist | Some l \<Rightarrow> l # records_read hist)"
  by (simp_all add: records_read_def map_filter_def split: option.splits)

primrec event_sleep :: "'st event \<Rightarrow> nat" where
  "event_sleep (E_sleep n) = n"
| "event_sleep (E_read d off n rv b) = 0"
| "event_sleep (E_memalign n rv b) = 0"
| "event_sleep (E_uninit b) = 0"
| "event_sleep (E_write d off b rv) = 0"
| "event_sleep (E_open p rv) = 0"
| "event_sleep (E_time t) = 0"
| "event_sleep (E_usleep n) = 0"
| "event_sleep (E_rand r) = 0"
| "event_sleep (E_call c args rv) = 0"
| "event_sleep (E_shared s) = 0"

definition slept :: "'st event list \<Rightarrow> nat" where
  "slept hist = sum_list (map event_sleep hist)"

lemma slept_simps [simp]:
  "slept [] = 0" "slept (hist @ hist') = slept hist + slept hist'" "slept (ev # hist) = event_sleep ev + slept hist"
  by (simp_all add: slept_def)

definition is_write :: "'st event \<Rightarrow> bool" where
  "is_write ev = (case ev of E_write d off b rv \<Rightarrow> True | _ \<Rightarrow> False)"

lemma is_write_simps [simp]:
  "is_write (E_write d off b rv)" "\<not> is_write (E_memalign n rv b)" "\<not> is_write (E_uninit b)" "\<not> is_write (E_read d off n rv b)"
  "\<not> is_write (E_open p rv)" "\<not> is_write (E_time t)" "\<not> is_write (E_sleep n)" "\<not> is_write (E_usleep i)" "\<not> is_write (E_rand i)"
  "\<not> is_write (E_shared s)" "\<not> is_write (E_call c args rv)"
  by (simp_all add: is_write_def)

text \<open>Every write of the history comes after a history that satisfies \<open>P\<close>.\<close>

fun guarded_from :: "('st event list \<Rightarrow> bool) \<Rightarrow> 'st event list \<Rightarrow> 'st event list \<Rightarrow> bool" where
  "guarded_from P past [] = True"
| "guarded_from P past (ev # evs) = ((is_write ev \<longrightarrow> P past) \<and> guarded_from P (past @ [ev]) evs)"

definition guarded_writes :: "('st event list \<Rightarrow> bool) \<Rightarrow> 'st event list \<Rightarrow> bool" where
  "guarded_writes P hist = guarded_from P [] hist"

lemma guarded_from_append: "guarded_from P past (evs @ [ev]) \<longleftrightarrow> guarded_from P past evs \<and> (is_write ev \<longrightarrow> P (past @ evs))"
  by (induction evs arbitrary: past) auto

lemma guarded_writes_Nil [simp]: "guarded_writes P []"
  by (simp add: guarded_writes_def)

lemma guarded_writes_append [simp]:
  "guarded_writes P (hist @ [ev]) \<longleftrightarrow> guarded_writes P hist \<and> (is_write ev \<longrightarrow> P hist)"
  by (simp add: guarded_writes_def guarded_from_append)

text \<open>Histories without writes.\<close>

definition quiet :: "'st event list \<Rightarrow> bool" where
  "quiet hist \<longleftrightarrow> (\<forall>ev \<in> set hist. \<not> is_write ev)"

lemma quiet_simps [simp]: "quiet []" "quiet (ev # hist) \<longleftrightarrow> \<not> is_write ev \<and> quiet hist" "quiet (hist @ hist') \<longleftrightarrow> quiet hist \<and> quiet hist'"
  by (auto simp: quiet_def)

lemma guarded_writes_quiet: "quiet evs \<Longrightarrow> guarded_writes P (hist @ evs) \<longleftrightarrow> guarded_writes P hist"
proof (induction evs rule: rev_induct)
  case (snoc ev evs)
  then show ?case by (simp flip: append_assoc)
qed simp

section \<open>Sector writes under all behaviours\<close>

lemma wp_write_sector:
  assumes "\<And>rv. rv < 0 \<Longrightarrow> Q rv hist"
    and "\<And>n m b. Q (- ENOMEM) (hist @ [E_memalign n m b])"
    and "\<And>n b rv. rv \<le> 0 \<Longrightarrow> length data \<le> n \<Longrightarrow>
      Q rv (hist @ [E_memalign n 0 b, E_write disk (sd_offset disk + nr * word_of_int ss) (data @ replicate (n - length data) 0) rv])"
  shows "wp Q (write_sector disk ss nr data io) hist"
proof -
  have "length data \<le> size_t ss" if "ss = 512 \<or> ss = 4096" "int (length data) \<le> ss" using that by auto
  with assms show ?thesis by (auto simp: write_sector_def do_write_sectors_def Let_def splice_at_def not_less)
qed

end
