(* ===== verification/Ballot_Spec.thy ===== *)
theory Ballot_Spec
  imports Diskio
begin

text \<open>
  The abstract specification of ballots: the variant of Disk Paxos that \<open>run_ballot\<close> implements, over
  abstract disks, hosts and values.  A ballot is given by a lease version and a ballot number.  It
  differs from Disk Paxos as published in three ways that the code has: a host writes to all disks
  before it reads from any, and the majorities it writes and reads are independent; the first phase
  overwrites the host's previous block with an empty one; a host may give a ballot up at any time and
  start a higher one.  The state keeps, for each ballot, the history of what it wrote and read, which
  is what the proof of agreement is about.
\<close>

datatype ballot = Ballot (lver_of: u64) (num_of: u64)

text \<open>A block on disk: lease version, \<open>mbal\<close>, \<open>bal\<close> and value.\<close>

datatype 'v block = Block (b_lver: u64) (b_mbal: u64) (b_bal: u64) (b_val: 'v)

definition block_ballot :: "'v block \<Rightarrow> ballot" where
  "block_ballot bl = Ballot (b_lver bl) (b_mbal bl)"

text \<open>Where a host is: between ballots, or writing or reading in one of the phases.\<close>

datatype ballot_pc = Idle | Wr1 ballot | Rd1 ballot | Wr2 ballot | Rd2 ballot

record ('d, 'h, 'v) ballots =
  owner_of :: "ballot \<Rightarrow> 'h option"
  wrote1 :: "ballot \<Rightarrow> 'd set"
  read1 :: "ballot \<Rightarrow> ('d \<times> 'h) set"
  seen1 :: "ballot \<Rightarrow> (u64 \<times> 'v) set"
  value_of :: "ballot \<Rightarrow> 'v option"
  wrote2 :: "ballot \<Rightarrow> 'd set"
  read2 :: "ballot \<Rightarrow> ('d \<times> 'h) set"
  decided :: "ballot \<Rightarrow> bool"
  pc_of :: "'h \<Rightarrow> ballot_pc"
  blocks :: "'d \<Rightarrow> 'h \<Rightarrow> 'v block"

definition before :: "ballot \<Rightarrow> ballot \<Rightarrow> bool" where
  "before k k' \<longleftrightarrow> lver_of k < lver_of k' \<or> lver_of k = lver_of k' \<and> num_of k < num_of k'"

definition at_or_before :: "ballot \<Rightarrow> ballot \<Rightarrow> bool" where
  "at_or_before k k' \<longleftrightarrow> before k k' \<or> k = k'"

text \<open>A block that makes a ballot give up: a later lease version, or a higher ballot number.\<close>

definition ahead :: "ballot \<Rightarrow> 'v block \<Rightarrow> bool" where
  "ahead k bl \<longleftrightarrow> before k (block_ballot bl)"

text \<open>The values seen in phase 1: those of the blocks of the same lease version that reached phase 2.\<close>

definition noticed :: "ballot \<Rightarrow> 'v block \<Rightarrow> (u64 \<times> 'v) set" where
  "noticed k bl = (if b_lver bl = lver_of k \<and> b_bal bl \<noteq> 0 then {(b_bal bl, b_val bl)} else {})"

text \<open>The disks on which the blocks of all hosts were read.\<close>

definition all_read :: "'h set \<Rightarrow> ('d \<times> 'h) set \<Rightarrow> 'd set" where
  "all_read hosts r = {d. \<forall>q \<in> hosts. (d, q) \<in> r}"

text \<open>The rule for the value of phase 2: that of the highest ballot seen, if any was seen.\<close>

definition may_choose :: "(u64 \<times> 'v) set \<Rightarrow> 'v \<Rightarrow> bool" where
  "may_choose seen v \<longleftrightarrow> seen = {} \<or> (\<exists>c. (c, v) \<in> seen \<and> (\<forall>(c', v') \<in> seen. c' \<le> c))"

definition set_block :: "('d, 'h, 'v) ballots \<Rightarrow> 'd \<Rightarrow> 'h \<Rightarrow> 'v block \<Rightarrow> 'd \<Rightarrow> 'h \<Rightarrow> 'v block" where
  "set_block s d h bl = (blocks s)(d := (blocks s d)(h := bl))"

text \<open>
  The steps; \<open>own h v\<close> says that \<open>v\<close> is a value host \<open>h\<close> may propose itself.  A write may be counted as done or not: a write that is reported as failed can have reached
  the disk.
\<close>

inductive ballot_step :: "('d set \<Rightarrow> bool) \<Rightarrow> ('h \<Rightarrow> 'v \<Rightarrow> bool) \<Rightarrow> 'h set \<Rightarrow> ('d, 'h, 'v) ballots \<Rightarrow> ('d, 'h, 'v) ballots \<Rightarrow> bool"
  for quorum own hosts where
  start: "pc_of s h = Idle \<Longrightarrow> h \<in> hosts \<Longrightarrow> owner_of s k = None \<Longrightarrow> 0 < num_of k \<Longrightarrow>
    (\<forall>k'. owner_of s k' = Some h \<longrightarrow> before k' k \<and> (decided s k' \<longrightarrow> lver_of k' < lver_of k)) \<Longrightarrow>
    ballot_step quorum own hosts s (s\<lparr>owner_of := (owner_of s)(k \<mapsto> h), pc_of := (pc_of s)(h := Wr1 k)\<rparr>)"
| write1: "pc_of s h = Wr1 k \<Longrightarrow> w = wrote1 s k \<or> w = insert d (wrote1 s k) \<Longrightarrow>
    ballot_step quorum own hosts s
      (s\<lparr>blocks := set_block s d h (Block (lver_of k) (num_of k) 0 v), wrote1 := (wrote1 s)(k := w)\<rparr>)"
| begin_read1: "pc_of s h = Wr1 k \<Longrightarrow> ballot_step quorum own hosts s (s\<lparr>pc_of := (pc_of s)(h := Rd1 k)\<rparr>)"
| read1: "pc_of s h = Rd1 k \<Longrightarrow> q \<in> hosts \<Longrightarrow> \<not> ahead k (blocks s d q) \<Longrightarrow>
    ballot_step quorum own hosts s
      (s\<lparr>read1 := (read1 s)(k := insert (d, q) (read1 s k)),
         seen1 := (seen1 s)(k := seen1 s k \<union> noticed k (blocks s d q))\<rparr>)"
| choose: "pc_of s h = Rd1 k \<Longrightarrow> quorum (wrote1 s k) \<Longrightarrow> quorum (all_read hosts (read1 s k)) \<Longrightarrow>
    may_choose (seen1 s k) v \<Longrightarrow> (seen1 s k = {} \<longrightarrow> own h v) \<Longrightarrow>
    ballot_step quorum own hosts s (s\<lparr>value_of := (value_of s)(k \<mapsto> v), pc_of := (pc_of s)(h := Wr2 k)\<rparr>)"
| write2: "pc_of s h = Wr2 k \<Longrightarrow> value_of s k = Some v \<Longrightarrow> w = wrote2 s k \<or> w = insert d (wrote2 s k) \<Longrightarrow>
    ballot_step quorum own hosts s
      (s\<lparr>blocks := set_block s d h (Block (lver_of k) (num_of k) (num_of k) v), wrote2 := (wrote2 s)(k := w)\<rparr>)"
| begin_read2: "pc_of s h = Wr2 k \<Longrightarrow> ballot_step quorum own hosts s (s\<lparr>pc_of := (pc_of s)(h := Rd2 k)\<rparr>)"
| read2: "pc_of s h = Rd2 k \<Longrightarrow> q \<in> hosts \<Longrightarrow> \<not> ahead k (blocks s d q) \<Longrightarrow>
    ballot_step quorum own hosts s (s\<lparr>read2 := (read2 s)(k := insert (d, q) (read2 s k))\<rparr>)"
| decide: "pc_of s h = Rd2 k \<Longrightarrow> quorum (wrote2 s k) \<Longrightarrow> quorum (all_read hosts (read2 s k)) \<Longrightarrow>
    ballot_step quorum own hosts s (s\<lparr>decided := (decided s)(k := True), pc_of := (pc_of s)(h := Idle)\<rparr>)"
| give_up: "ballot_step quorum own hosts s (s\<lparr>pc_of := (pc_of s)(h := Idle)\<rparr>)"

inductive_cases ballot_stepE: "ballot_step quorum own hosts s s'"

text \<open>Initially nothing was started and all blocks are empty.\<close>

definition ballots_init :: "('d, 'h, 'v) ballots \<Rightarrow> bool" where
  "ballots_init s \<longleftrightarrow> (\<forall>k. owner_of s k = None \<and> wrote1 s k = {} \<and> read1 s k = {} \<and> seen1 s k = {} \<and>
      value_of s k = None \<and> wrote2 s k = {} \<and> read2 s k = {} \<and> \<not> decided s k) \<and>
    (\<forall>h. pc_of s h = Idle) \<and> (\<forall>d h. b_mbal (blocks s d h) = 0 \<and> b_bal (blocks s d h) = 0)"

abbreviation ballot_reachable :: "('d set \<Rightarrow> bool) \<Rightarrow> ('h \<Rightarrow> 'v \<Rightarrow> bool) \<Rightarrow> 'h set \<Rightarrow> ('d, 'h, 'v) ballots \<Rightarrow> bool" where
  "ballot_reachable quorum own hosts \<equiv> reach ballots_init (ballot_step quorum own hosts)"

section \<open>Invariants\<close>

fun running :: "ballot_pc \<Rightarrow> ballot \<Rightarrow> bool" where
  "running Idle k = False"
| "running (Wr1 k') k = (k = k')"
| "running (Rd1 k') k = (k = k')"
| "running (Wr2 k') k = (k = k')"
| "running (Rd2 k') k = (k = k')"

text \<open>Ballots that have not started have no history; the running ballot of a host is its latest one.\<close>

definition inv_fresh :: "('d, 'h, 'v) ballots \<Rightarrow> bool" where
  "inv_fresh s \<longleftrightarrow> (\<forall>k. owner_of s k = None \<longrightarrow> wrote1 s k = {} \<and> read1 s k = {} \<and> seen1 s k = {} \<and>
     value_of s k = None \<and> wrote2 s k = {} \<and> read2 s k = {} \<and> \<not> decided s k)"

definition inv_started :: "'h set \<Rightarrow> ('d, 'h, 'v) ballots \<Rightarrow> bool" where
  "inv_started hosts s \<longleftrightarrow> (\<forall>k h. owner_of s k = Some h \<longrightarrow> 0 < num_of k \<and> h \<in> hosts)"

definition inv_running :: "('d, 'h, 'v) ballots \<Rightarrow> bool" where
  "inv_running s \<longleftrightarrow> (\<forall>h k. running (pc_of s h) k \<longrightarrow> owner_of s k = Some h \<and> \<not> decided s k \<and>
     (\<forall>k'. owner_of s k' = Some h \<longrightarrow> at_or_before k' k))"

text \<open>A host that has decided a ballot goes on with later lease versions only.\<close>

definition inv_decided :: "('d, 'h, 'v) ballots \<Rightarrow> bool" where
  "inv_decided s \<longleftrightarrow> (\<forall>h k k'. owner_of s k = Some h \<and> owner_of s k' = Some h \<and> decided s k \<and> before k k' \<longrightarrow>
     lver_of k < lver_of k')"

text \<open>Writes come before reads, and phase 1 before phase 2.\<close>

fun phase_ok :: "('d, 'h, 'v) ballots \<Rightarrow> ballot_pc \<Rightarrow> bool" where
  "phase_ok s Idle \<longleftrightarrow> True"
| "phase_ok s (Wr1 k) \<longleftrightarrow> read1 s k = {} \<and> seen1 s k = {} \<and> value_of s k = None \<and> wrote2 s k = {} \<and> read2 s k = {}"
| "phase_ok s (Rd1 k) \<longleftrightarrow> value_of s k = None \<and> wrote2 s k = {} \<and> read2 s k = {}"
| "phase_ok s (Wr2 k) \<longleftrightarrow> value_of s k \<noteq> None \<and> read2 s k = {}"
| "phase_ok s (Rd2 k) \<longleftrightarrow> value_of s k \<noteq> None"

definition inv_phase :: "('d, 'h, 'v) ballots \<Rightarrow> bool" where
  "inv_phase s \<longleftrightarrow> (\<forall>h. phase_ok s (pc_of s h))"

text \<open>A value was chosen by the rule after majorities were written and read; so was a decision.\<close>

definition inv_quorum :: "('d set \<Rightarrow> bool) \<Rightarrow> 'h set \<Rightarrow> ('d, 'h, 'v) ballots \<Rightarrow> bool" where
  "inv_quorum quorum hosts s \<longleftrightarrow>
    (\<forall>k v. value_of s k = Some v \<longrightarrow> quorum (wrote1 s k) \<and> quorum (all_read hosts (read1 s k)) \<and> may_choose (seen1 s k) v) \<and>
    (\<forall>k. decided s k \<longrightarrow> value_of s k \<noteq> None \<and> quorum (wrote2 s k) \<and> quorum (all_read hosts (read2 s k)))"

text \<open>Every block is empty or comes from a ballot of its host, with the value of that ballot in phase 2.\<close>

definition block_ok :: "('d, 'h, 'v) ballots \<Rightarrow> 'h \<Rightarrow> 'v block \<Rightarrow> bool" where
  "block_ok s h bl \<longleftrightarrow> b_mbal bl = 0 \<and> b_bal bl = 0 \<or>
    owner_of s (block_ballot bl) = Some h \<and>
    (b_bal bl = 0 \<or> b_bal bl = b_mbal bl \<and> value_of s (block_ballot bl) = Some (b_val bl))"

definition inv_block :: "('d, 'h, 'v) ballots \<Rightarrow> bool" where
  "inv_block s \<longleftrightarrow> (\<forall>d h. block_ok s h (blocks s d h))"

definition inv_wrote1 :: "('d, 'h, 'v) ballots \<Rightarrow> bool" where
  "inv_wrote1 s \<longleftrightarrow> (\<forall>k h d. owner_of s k = Some h \<and> d \<in> wrote1 s k \<longrightarrow>
     at_or_before k (block_ballot (blocks s d h)))"

text \<open>A ballot that is in phase 2 or has decided.\<close>

definition live2 :: "('d, 'h, 'v) ballots \<Rightarrow> 'h \<Rightarrow> ballot \<Rightarrow> bool" where
  "live2 s h k \<longleftrightarrow> owner_of s k = Some h \<and> (pc_of s h = Wr2 k \<or> pc_of s h = Rd2 k \<or> decided s k)"

definition inv_wrote2 :: "('d, 'h, 'v) ballots \<Rightarrow> bool" where
  "inv_wrote2 s \<longleftrightarrow> (\<forall>k h d v. live2 s h k \<and> value_of s k = Some v \<and> d \<in> wrote2 s k \<longrightarrow>
     lver_of k < b_lver (blocks s d h) \<or> blocks s d h = Block (lver_of k) (num_of k) (num_of k) v)"

definition inv_seen :: "('d, 'h, 'v) ballots \<Rightarrow> bool" where
  "inv_seen s \<longleftrightarrow> (\<forall>k c v. (c, v) \<in> seen1 s k \<longrightarrow> c < num_of k \<and> value_of s (Ballot (lver_of k) c) = Some v)"

text \<open>
  The heart of the matter: when a live ballot \<open>k\<close> and a higher one \<open>k'\<close> of the same version met on two
  disks without \<open>k\<close> noticing, then \<open>k'\<close> has seen a value at least as recent as that of \<open>k\<close>.
\<close>

definition meets :: "('d, 'h, 'v) ballots \<Rightarrow> 'h \<Rightarrow> ballot \<Rightarrow> 'h \<Rightarrow> ballot \<Rightarrow> bool" where
  "meets s h k h' k' \<longleftrightarrow> live2 s h k \<and> owner_of s k' = Some h' \<and> lver_of k = lver_of k' \<and> num_of k < num_of k' \<and>
     (\<exists>d. d \<in> wrote1 s k' \<and> (d, h') \<in> read2 s k) \<and> (\<exists>d. d \<in> wrote2 s k \<and> (d, h) \<in> read1 s k')"

definition saw :: "('d, 'h, 'v) ballots \<Rightarrow> ballot \<Rightarrow> ballot \<Rightarrow> bool" where
  "saw s k' k \<longleftrightarrow> (\<exists>c v. (c, v) \<in> seen1 s k' \<and> num_of k \<le> c)"

definition inv_meet :: "('d, 'h, 'v) ballots \<Rightarrow> bool" where
  "inv_meet s \<longleftrightarrow> (\<forall>k k' h h'. meets s h k h' k' \<longrightarrow> saw s k' k)"

text \<open>Every value was proposed by a host that ran a ballot of the same lease version.\<close>

definition inv_valid :: "('h \<Rightarrow> 'v \<Rightarrow> bool) \<Rightarrow> ('d, 'h, 'v) ballots \<Rightarrow> bool" where
  "inv_valid own s \<longleftrightarrow> (\<forall>k v. value_of s k = Some v \<longrightarrow>
     (\<exists>k' h. owner_of s k' = Some h \<and> lver_of k' = lver_of k \<and> own h v))"

definition ballot_inv :: "('d set \<Rightarrow> bool) \<Rightarrow> ('h \<Rightarrow> 'v \<Rightarrow> bool) \<Rightarrow> 'h set \<Rightarrow> ('d, 'h, 'v) ballots \<Rightarrow> bool" where
  "ballot_inv quorum own hosts s \<longleftrightarrow> inv_fresh s \<and> inv_started hosts s \<and> inv_running s \<and> inv_decided s \<and> inv_phase s \<and> inv_quorum quorum hosts s \<and> inv_block s \<and>
    inv_wrote1 s \<and> inv_wrote2 s \<and> inv_seen s \<and> inv_meet s \<and> inv_valid own s"

section \<open>Every step keeps the invariants\<close>

lemma before_trans: "before a b \<Longrightarrow> before b c \<Longrightarrow> before a c"
  by (auto simp: before_def)

lemma before_irrefl [simp]: "\<not> before k k"
  by (simp add: before_def)

lemma before_asym: "before a b \<Longrightarrow> \<not> before b a"
  by (auto simp: before_def)

lemma at_or_before_refl [simp]: "at_or_before k k"
  by (simp add: at_or_before_def)

lemma at_or_before_before: "at_or_before b a \<Longrightarrow> \<not> before a b"
  by (auto simp: at_or_before_def dest: before_asym)

lemma before_at_or_before: "before a b \<Longrightarrow> at_or_before b c \<Longrightarrow> before a c"
  by (auto simp: at_or_before_def intro: before_trans)

lemma running_facts:
  assumes "inv_running s" and "running (pc_of s h) k"
  shows "owner_of s k = Some h" and "\<not> decided s k" and "owner_of s k' = Some h \<Longrightarrow> at_or_before k' k"
  using assms by (auto simp: inv_running_def)

lemma running_unique: "inv_running s \<Longrightarrow> running (pc_of s h) k \<Longrightarrow> running (pc_of s h') k \<Longrightarrow> h' = h"
  using running_facts(1) by (metis option.inject)

lemma running_pc:
  "pc_of s h = Wr1 k \<Longrightarrow> running (pc_of s h) k" "pc_of s h = Rd1 k \<Longrightarrow> running (pc_of s h) k"
  "pc_of s h = Wr2 k \<Longrightarrow> running (pc_of s h) k" "pc_of s h = Rd2 k \<Longrightarrow> running (pc_of s h) k"
  by simp_all

lemma inv_fresh_step:
  assumes "ballot_step quorum own hosts s s'" and "inv_fresh s" and "inv_running s"
  shows "inv_fresh s'"
  using assms
proof (induction rule: ballot_step.induct)
  case (write1 s h k w d v)
  with running_facts(1) [OF write1(4) running_pc(1) [OF write1(1)]] show ?case by (simp add: inv_fresh_def)
next
  case (read1 s h k q d)
  with running_facts(1) [OF read1(5) running_pc(2) [OF read1(1)]] show ?case by (simp add: inv_fresh_def)
next
  case (choose s h k v)
  with running_facts(1) [OF choose(7) running_pc(2) [OF choose(1)]] show ?case by (simp add: inv_fresh_def)
next
  case (write2 s h k v w d)
  with running_facts(1) [OF write2(5) running_pc(3) [OF write2(1)]] show ?case by (simp add: inv_fresh_def)
next
  case (read2 s h k q d)
  with running_facts(1) [OF read2(5) running_pc(4) [OF read2(1)]] show ?case by (simp add: inv_fresh_def)
next
  case (decide s h k)
  with running_facts(1) [OF decide(5) running_pc(4) [OF decide(1)]] show ?case by (simp add: inv_fresh_def)
qed (simp_all add: inv_fresh_def)

lemma inv_started_step: "ballot_step quorum own hosts s s' \<Longrightarrow> inv_started hosts s \<Longrightarrow> inv_started hosts s'"
  by (induction rule: ballot_step.induct) (simp_all add: inv_started_def)

lemma inv_running_mono:
  assumes "inv_running s" and "owner_of s' = owner_of s" and "decided s' = decided s"
    and "\<And>h k. running (pc_of s' h) k \<Longrightarrow> running (pc_of s h) k"
  shows "inv_running s'"
  using assms unfolding inv_running_def by metis

lemma inv_running_step:
  assumes "ballot_step quorum own hosts s s'" and "inv_fresh s" and "inv_running s"
  shows "inv_running s'"
  using assms
proof (induction rule: ballot_step.induct)
  case (start s h k)
  then show ?case unfolding inv_running_def inv_fresh_def by (auto simp: at_or_before_def)
next
  case (decide s h k)
  have "running (pc_of s h') k' \<Longrightarrow> h' \<noteq> h \<Longrightarrow> k' \<noteq> k" for h' k'
    using running_unique [OF decide(5) running_pc(4) [OF decide(1)]] by auto
  with decide show ?case unfolding inv_running_def by simp
qed (erule inv_running_mono; simp split: if_splits)+

lemma inv_decided_step:
  assumes "ballot_step quorum own hosts s s'" and "inv_fresh s" and "inv_running s" and "inv_decided s"
  shows "inv_decided s'"
  using assms
proof (induction rule: ballot_step.induct)
  case (start s h k)
  have "\<not> decided s k" using start(3,6) by (simp add: inv_fresh_def)
  with start show ?case unfolding inv_decided_def by auto
next
  case (decide s h k)
  note run = running_facts [OF decide(5) running_pc(4) [OF decide(1)]]
  have "owner_of s k' = Some h \<Longrightarrow> \<not> before k k'" for k'
    using run(3) at_or_before_before by blast
  with decide run(1) show ?case unfolding inv_decided_def by auto
qed (simp_all add: inv_decided_def)

text \<open>What a step does to the history of a running ballot does not concern the other hosts.\<close>

lemma phase_ok_cong:
  assumes "\<And>k. running p k \<Longrightarrow> read1 s' k = read1 s k \<and> seen1 s' k = seen1 s k \<and> value_of s' k = value_of s k \<and>
    wrote2 s' k = wrote2 s k \<and> read2 s' k = read2 s k"
  shows "phase_ok s' p = phase_ok s p"
  using assms by (cases p) auto

lemma inv_phaseI:
  assumes "inv_phase s" and "inv_running s" and "running (pc_of s h) k" and "phase_ok s' (pc_of s' h)"
    and "\<And>h'. h' \<noteq> h \<Longrightarrow> pc_of s' h' = pc_of s h'"
    and "\<And>k'. k' \<noteq> k \<Longrightarrow> read1 s' k' = read1 s k' \<and> seen1 s' k' = seen1 s k' \<and> value_of s' k' = value_of s k' \<and>
      wrote2 s' k' = wrote2 s k' \<and> read2 s' k' = read2 s k'"
  shows "inv_phase s'"
  unfolding inv_phase_def
proof
  fix h'
  show "phase_ok s' (pc_of s' h')"
  proof (cases "h' = h")
    case False
    have "running (pc_of s h') k' \<Longrightarrow> k' \<noteq> k" for k'
      using running_unique [OF assms(2,3), of h'] False by auto
    then have "phase_ok s' (pc_of s h') = phase_ok s (pc_of s h')"
      using assms(6) by (intro phase_ok_cong) auto
    then show ?thesis using assms(1,5) False by (simp add: inv_phase_def)
  qed (simp add: assms(4))
qed

lemma inv_phaseD: "inv_phase s \<Longrightarrow> phase_ok s (pc_of s h)"
  by (simp add: inv_phase_def)

lemma inv_phase_step:
  assumes "ballot_step quorum own hosts s s'" and "inv_fresh s" and "inv_running s" and "inv_phase s"
  shows "inv_phase s'"
  using assms
proof (induction rule: ballot_step.induct)
  case (start s h k)
  have "phase_ok s' (pc_of s h') = phase_ok s (pc_of s h')"
    if "s' = s\<lparr>owner_of := (owner_of s)(k \<mapsto> h), pc_of := (pc_of s)(h := Wr1 k)\<rparr>" for s' h'
    by (rule phase_ok_cong) (simp add: that)
  with start show ?case by (simp add: inv_phase_def inv_fresh_def)
next
  case (write1 s h k w d v)
  then show ?case using inv_phaseD [of s h] by - (rule inv_phaseI [of s h k]; simp)
next
  case (begin_read1 s h k)
  then show ?case using inv_phaseD [of s h] by - (rule inv_phaseI [of s h k]; simp)
next
  case (read1 s h k q d)
  then show ?case using inv_phaseD [of s h] by - (rule inv_phaseI [of s h k]; simp)
next
  case (choose s h k v)
  then show ?case using inv_phaseD [of s h] by - (rule inv_phaseI [of s h k]; simp)
next
  case (write2 s h k v w d)
  then show ?case using inv_phaseD [of s h] by - (rule inv_phaseI [of s h k]; simp)
next
  case (begin_read2 s h k)
  then show ?case using inv_phaseD [of s h] by - (rule inv_phaseI [of s h k]; simp)
next
  case (read2 s h k q d)
  then show ?case using inv_phaseD [of s h] by - (rule inv_phaseI [of s h k]; simp)
next
  case (decide s h k)
  then show ?case by - (rule inv_phaseI [of s h k]; simp)
next
  case (give_up s h)
  have "phase_ok (s\<lparr>pc_of := p\<rparr>) q = phase_ok s q" for p q
    by (rule phase_ok_cong) simp
  with give_up show ?case by (simp add: inv_phase_def)
qed

lemma inv_quorum_step:
  assumes "ballot_step quorum own hosts s s'" and "inv_running s" and "inv_phase s" and "inv_quorum quorum hosts s"
  shows "inv_quorum quorum hosts s'"
  using assms
proof (induction rule: ballot_step.induct)
  case (write1 s h k w d v)
  have "value_of s k = None" "\<not> decided s k"
    using write1(1,4) running_facts(2) [OF write1(3) running_pc(1) [OF write1(1)]] using inv_phaseD [OF write1(4), of h] by simp_all
  with write1 show ?case unfolding inv_quorum_def by auto
next
  case (read1 s h k q d)
  have "value_of s k = None" "\<not> decided s k"
    using read1(1,5) running_facts(2) [OF read1(4) running_pc(2) [OF read1(1)]] using inv_phaseD [OF read1(5), of h] by simp_all
  with read1 show ?case unfolding inv_quorum_def by auto
next
  case (write2 s h k v w d)
  with running_facts(2) [OF write2(4) running_pc(3) [OF write2(1)]] show ?case unfolding inv_quorum_def by auto
next
  case (read2 s h k q d)
  with running_facts(2) [OF read2(4) running_pc(4) [OF read2(1)]] show ?case unfolding inv_quorum_def by auto
next
  case (decide s h k)
  then have "value_of s k \<noteq> None" using inv_phaseD [of s h] by simp
  with decide show ?case unfolding inv_quorum_def by auto
qed (auto simp: inv_quorum_def)

lemma block_ok_mono:
  assumes "block_ok s h bl" and "\<And>k h. owner_of s k = Some h \<Longrightarrow> owner_of s' k = Some h"
    and "\<And>k v. value_of s k = Some v \<Longrightarrow> value_of s' k = Some v"
  shows "block_ok s' h bl"
  using assms unfolding block_ok_def by auto

lemma inv_block_mono:
  assumes "inv_block s" and "\<And>k h. owner_of s k = Some h \<Longrightarrow> owner_of s' k = Some h"
    and "\<And>k v. value_of s k = Some v \<Longrightarrow> value_of s' k = Some v"
    and "\<And>d h. blocks s' d h = blocks s d h \<or> block_ok s' h (blocks s' d h)"
  shows "inv_block s'"
  using assms block_ok_mono [of s] unfolding inv_block_def by metis

lemma inv_block_step:
  assumes "ballot_step quorum own hosts s s'" and "inv_running s" and "inv_phase s" and "inv_block s"
  shows "inv_block s'"
  using assms
proof (induction rule: ballot_step.induct)
  case (start s h k)
  then show ?case by (intro inv_block_mono [OF start(8)]) auto
next
  case (write1 s h k w d v)
  note own = running_facts(1) [OF write1(3) running_pc(1) [OF write1(1)]]
  show ?case
    by (rule inv_block_mono [OF write1(5)]) (auto simp: set_block_def block_ok_def block_ballot_def own)
next
  case (choose s h k v)
  then have "value_of s k = None" using inv_phaseD [of s h] by simp
  then show ?case by (intro inv_block_mono [OF choose(8)]) auto
next
  case (write2 s h k v w d)
  note own = running_facts(1) [OF write2(4) running_pc(3) [OF write2(1)]]
  show ?case
    by (rule inv_block_mono [OF write2(6)]) (auto simp: set_block_def block_ok_def block_ballot_def own write2(2))
qed (erule inv_block_mono; simp)+

lemma inv_wrote1_step:
  assumes "ballot_step quorum own hosts s s'" and "inv_fresh s" and "inv_running s" and "inv_wrote1 s"
  shows "inv_wrote1 s'"
  using assms
proof (induction rule: ballot_step.induct)
  case (start s h k)
  then show ?case unfolding inv_wrote1_def inv_fresh_def by auto
next
  case (write1 s h k w d v)
  note run = running_facts [OF write1(4) running_pc(1) [OF write1(1)]]
  from write1(2,5) run(1,3) show ?case
    unfolding inv_wrote1_def set_block_def by (auto simp: block_ballot_def split: if_splits)
next
  case (write2 s h k v w d)
  note run = running_facts [OF write2(5) running_pc(3) [OF write2(1)]]
  from write2(6) run(1,3) show ?case
    unfolding inv_wrote1_def set_block_def by (auto simp: block_ballot_def split: if_splits)
qed (simp_all add: inv_wrote1_def)

text \<open>A host that runs a ballot is past the versions of its other live ballots.\<close>

lemma live2_older:
  assumes "inv_running s" and "inv_decided s" and "running (pc_of s h) k" and "live2 s h k'" and "k' \<noteq> k"
  shows "lver_of k' < lver_of k"
proof -
  note run = running_facts [OF assms(1,3)]
  have own: "owner_of s k' = Some h" using assms(4) by (simp add: live2_def)
  have "\<not> running (pc_of s h) k'" using assms(3,5) by (cases "pc_of s h") auto
  then have "decided s k'" using assms(4) running_pc(3,4) by (metis live2_def)
  moreover have "before k' k" using run(3) [OF own] assms(5) by (simp add: at_or_before_def)
  ultimately show ?thesis using assms(2) own run(1) unfolding inv_decided_def by blast
qed

lemma inv_wrote2_step:
  assumes "ballot_step quorum own hosts s s'" and "inv_fresh s" and "inv_running s" and "inv_decided s"
    and "inv_phase s" and "inv_wrote2 s"
  shows "inv_wrote2 s'"
  using assms
proof (induction rule: ballot_step.induct)
  case (start s h k)
  then show ?case unfolding inv_wrote2_def inv_fresh_def live2_def by auto
next
  case (write1 s h k w d v)
  have "live2 s h k' \<Longrightarrow> lver_of k' < lver_of k" for k'
    using live2_older [OF write1(4,5) running_pc(1) [OF write1(1)]] running_facts(2) [OF write1(4) running_pc(1) [OF write1(1)]]
      write1(1) by (cases "k' = k") (auto simp: live2_def)
  with write1(7) show ?case unfolding inv_wrote2_def set_block_def live2_def by (auto split: if_splits)
next
  case (choose s h k v)
  then have "wrote2 s k = {}" using inv_phaseD [of s h] by simp
  with choose(10) show ?case unfolding inv_wrote2_def live2_def by (auto split: if_splits)
next
  case (write2 s h k v w d)
  have "live2 s h k' \<Longrightarrow> k' \<noteq> k \<Longrightarrow> lver_of k' < lver_of k" for k'
    using live2_older [OF write2(5,6) running_pc(3) [OF write2(1)]] by auto
  with write2(2,3,8) running_facts(1) [OF write2(5) running_pc(3) [OF write2(1)]] show ?case unfolding inv_wrote2_def set_block_def live2_def by (auto split: if_splits)
next
  case (decide s h k)
  then show ?case unfolding inv_wrote2_def live2_def
    using running_facts(1) [OF decide(5) running_pc(4) [OF decide(1)]] by (auto split: if_splits)
qed (auto simp: inv_wrote2_def live2_def split: if_splits)

lemma inv_seen_step:
  assumes "ballot_step quorum own hosts s s'" and "inv_phase s" and "inv_block s" and "inv_seen s"
  shows "inv_seen s'"
  using assms
proof (induction rule: ballot_step.induct)
  case (read1 s h k q d)
  have none: "value_of s k = None" using inv_phaseD [OF read1(4), of h] read1(1) by simp
  have "c < num_of k \<and> value_of s (Ballot (lver_of k) c) = Some v" if n: "(c, v) \<in> noticed k (blocks s d q)" for c v
  proof -
    have l: "b_lver (blocks s d q) = lver_of k" "b_bal (blocks s d q) = c" "c \<noteq> 0" "b_val (blocks s d q) = v"
      using n by (auto simp: noticed_def split: if_splits)
    have "block_ok s q (blocks s d q)" using read1(5) by (simp add: inv_block_def)
    then have v: "b_mbal (blocks s d q) = c" "value_of s (Ballot (lver_of k) c) = Some v"
      using l by (auto simp: block_ok_def block_ballot_def)
    moreover have "c \<le> num_of k"
      using read1(3) l v by (auto simp: ahead_def before_def block_ballot_def)
    moreover have "c \<noteq> num_of k" using v none by auto
    ultimately show ?thesis by simp
  qed
  with read1(6) show ?case unfolding inv_seen_def by auto
next
  case (choose s h k v)
  then have "value_of s k = None" using inv_phaseD [of s h] by simp
  with choose(8) show ?case unfolding inv_seen_def by auto
qed (simp_all add: inv_seen_def)

lemma inv_meetI:
  assumes "inv_meet s" and "\<And>k. seen1 s k \<subseteq> seen1 s' k"
    and "\<And>h k h' k'. meets s' h k h' k' \<Longrightarrow> meets s h k h' k' \<or> saw s' k' k"
  shows "inv_meet s'"
proof -
  have "saw s k' k \<Longrightarrow> saw s' k' k" for k k' using assms(2) unfolding saw_def by blast
  with assms(1,3) show ?thesis unfolding inv_meet_def by blast
qed

text \<open>A host that reads a disk a live ballot has written in phase 2 notices its value or gives up.\<close>

lemma live2_noticed:
  assumes "inv_wrote2 s" and "inv_phase s" and "inv_quorum quorum hosts s"
    and "live2 s q k" and "d \<in> wrote2 s k" and "lver_of k = lver_of k'" and "0 < num_of k" and "\<not> ahead k' (blocks s d q)"
  shows "\<exists>v. (num_of k, v) \<in> noticed k' (blocks s d q)"
proof -
  have "value_of s k \<noteq> None"
    using assms(4) inv_phaseD [OF assms(2), of q] assms(3) by (auto simp: live2_def inv_quorum_def)
  then obtain v where "value_of s k = Some v" by blast
  then have "lver_of k < b_lver (blocks s d q) \<or> blocks s d q = Block (lver_of k) (num_of k) (num_of k) v"
    using assms(1,4,5) unfolding inv_wrote2_def by blast
  then show ?thesis using assms(6,7,8) by (auto simp: ahead_def before_def noticed_def block_ballot_def)
qed

lemma inv_meet_step:
  assumes "ballot_step quorum own hosts s s'" and "inv_fresh s" and "inv_started hosts s" and "inv_running s" and "inv_phase s"
    and "inv_quorum quorum hosts s" and "inv_wrote1 s" and "inv_wrote2 s" and "inv_meet s"
  shows "inv_meet s'"
  using assms
proof (induction rule: ballot_step.induct)
  case (start s h k)
  then have "wrote1 s k = {}" "\<not> decided s k" by (auto simp: inv_fresh_def)
  with start(13) show ?case by - (rule inv_meetI [of s]; auto simp add: meets_def live2_def split: if_splits)
next
  case (write1 s h k w d v)
  have "read1 s k = {}" using inv_phaseD [OF write1(6), of h] write1(1) by simp
  with write1(10) show ?case by - (rule inv_meetI [of s]; auto simp add: meets_def live2_def split: if_splits)
next
  case (read1 s h k q d)
  show ?case
  proof (rule inv_meetI [OF read1(11)])
    fix h0 k0 h' k'
    let ?s = "s\<lparr>read1 := (read1 s)(k := insert (d, q) (read1 s k)), seen1 := (seen1 s)(k := seen1 s k \<union> noticed k (blocks s d q))\<rparr>"
    assume m: "meets ?s h0 k0 h' k'"
    show "meets s h0 k0 h' k' \<or> saw ?s k' k0"
    proof (cases "k' = k \<and> h0 = q \<and> d \<in> wrote2 s k0")
      case True
      moreover have "0 < num_of k0" using m read1(5) by (auto simp: meets_def live2_def inv_started_def)
      ultimately have "\<exists>v. (num_of k0, v) \<in> noticed k (blocks s d q)"
        using m read1(3) by (intro live2_noticed [OF read1(10,7,8)]) (auto simp: meets_def live2_def)
      then show ?thesis using True by (auto simp: saw_def)
    qed (use m in \<open>auto simp: meets_def live2_def split: if_splits\<close>)
  qed auto
next
  case (choose s h k v)
  have "wrote2 s k = {}" using inv_phaseD [OF choose(9), of h] choose(1) by simp
  with choose(13) show ?case by - (rule inv_meetI [of s]; auto simp add: meets_def live2_def split: if_splits)
next
  case (write2 s h k v w d)
  have "read2 s k = {}" using inv_phaseD [OF write2(7), of h] write2(1) by simp
  with write2(11) show ?case by - (rule inv_meetI [of s]; auto simp add: meets_def live2_def split: if_splits)
next
  case (read2 s h k q d)
  have "\<not> before k k'" if "owner_of s k' = Some q" "d \<in> wrote1 s k'" for k'
    using read2(3,9) that before_at_or_before unfolding inv_wrote1_def ahead_def by metis
  then have "\<not> num_of k < num_of k'" if "owner_of s k' = Some q" "d \<in> wrote1 s k'" "lver_of k = lver_of k'" for k'
    using that by (auto simp: before_def)
  with read2(11) show ?case by - (rule inv_meetI [of s]; auto simp add: meets_def live2_def split: if_splits)
next
  case (decide s h k)
  note run = running_facts(1) [OF decide(6) running_pc(4) [OF decide(1)]]
  with decide(1,11) show ?case by - (rule inv_meetI [of s]; auto simp add: meets_def live2_def split: if_splits)
qed (erule inv_meetI; auto simp add: meets_def live2_def split: if_splits)+

lemma inv_valid_step:
  assumes "ballot_step quorum own hosts s s'" and "inv_running s" and "inv_seen s" and "inv_valid own s"
  shows "inv_valid own s'"
  using assms
proof (induction rule: ballot_step.induct)
  case (start s h k)
  then show ?case unfolding inv_valid_def by (fastforce split: if_splits)
next
  case (choose s h k v)
  have own: "owner_of s k = Some h" by (rule running_facts(1) [OF choose(6) running_pc(2) [OF choose(1)]])
  have "\<exists>k' h. owner_of s k' = Some h \<and> lver_of k' = lver_of k \<and> own h v"
  proof (cases "seen1 s k = {}")
    case False
    then obtain c where "(c, v) \<in> seen1 s k" using choose(4) by (auto simp: may_choose_def)
    then have "value_of s (Ballot (lver_of k) c) = Some v" using choose(7) by (simp add: inv_seen_def)
    then show ?thesis using choose(8) by (fastforce simp: inv_valid_def)
  qed (use choose(5) own in blast)
  with choose(8) show ?case unfolding inv_valid_def by auto
qed (simp_all add: inv_valid_def)

lemmas ballot_inv_steps = inv_fresh_step inv_started_step inv_running_step inv_decided_step inv_phase_step
  inv_quorum_step inv_block_step inv_wrote1_step inv_wrote2_step inv_seen_step inv_meet_step inv_valid_step

lemma ballot_inv_init: "ballots_init s \<Longrightarrow> ballot_inv quorum own hosts s"
  by (simp add: ballots_init_def ballot_inv_def inv_fresh_def inv_started_def inv_running_def inv_decided_def
      inv_phase_def inv_quorum_def inv_block_def block_ok_def inv_wrote1_def inv_wrote2_def live2_def inv_seen_def
      inv_meet_def meets_def inv_valid_def)

lemma ballot_inv_step:
  assumes "ballot_step quorum own hosts s s'" and "ballot_inv quorum own hosts s"
  shows "ballot_inv quorum own hosts s'"
  using assms(2) ballot_inv_steps [OF assms(1)] unfolding ballot_inv_def by blast

interpretation ballots: transition_invariant ballots_init "ballot_step quorum own hosts" "ballot_inv quorum own hosts"
  for quorum own hosts
  by unfold_locales (rule ballot_inv_init ballot_inv_step, assumption+)+

section \<open>Agreement\<close>

context quorum_system
begin

text \<open>A decided ballot and a higher one of the same version that chose a value have met.\<close>

lemma decided_seen:
  assumes inv: "ballot_inv quorum own hosts s" and dec: "decided s k" and val: "value_of s k' = Some v'"
    and "lver_of k = lver_of k'" and "num_of k < num_of k'"
  shows "saw s k' k"
proof -
  have fresh: "inv_fresh s" "inv_started hosts s" and meet: "inv_meet s" using inv by (simp_all add: ballot_inv_def)
  have "owner_of s k \<noteq> None" "owner_of s k' \<noteq> None" using fresh(1) dec val unfolding inv_fresh_def by fastforce+
  then obtain h h' where own: "owner_of s k = Some h" "owner_of s k' = Some h'" by blast
  then have hosts: "h \<in> hosts" "h' \<in> hosts" using fresh(2) by (auto simp: inv_started_def)
  have q: "quorum (wrote2 s k)" "quorum (all_read hosts (read2 s k))" "quorum (wrote1 s k')" "quorum (all_read hosts (read1 s k'))"
    using inv dec val by (auto simp: ballot_inv_def inv_quorum_def)
  obtain d1 where "d1 \<in> wrote2 s k" "d1 \<in> all_read hosts (read1 s k')" using quorum_common [OF q(1,4)] by blast
  moreover obtain d2 where "d2 \<in> wrote1 s k'" "d2 \<in> all_read hosts (read2 s k)" using quorum_common [OF q(3,2)] by blast
  ultimately have "meets s h k h' k'" using assms own hosts by (auto simp: meets_def live2_def all_read_def)
  then show ?thesis using meet by (auto simp: inv_meet_def)
qed

text \<open>Once a ballot is decided, every higher ballot of its lease version has its value.\<close>

lemma decided_stable:
  assumes inv: "ballot_inv quorum own hosts s" and dec: "decided s (Ballot l n)" and val: "value_of s (Ballot l n) = Some v"
  shows "n \<le> n' \<Longrightarrow> value_of s (Ballot l n') = Some v' \<Longrightarrow> v' = v"
proof (induction "unat n'" arbitrary: n' v' rule: less_induct)
  case less
  show ?case
  proof (cases "n = n'")
    case False
    then have lt: "n < n'" using less.prems(1) by simp
    have "saw s (Ballot l n') (Ballot l n)" by (rule decided_seen [OF inv dec less.prems(2)]) (use lt in simp_all)
    then obtain c0 v0 where c0: "(c0, v0) \<in> seen1 s (Ballot l n')" "n \<le> c0" by (auto simp: saw_def)
    have "may_choose (seen1 s (Ballot l n')) v'" using inv less.prems(2) by (simp add: ballot_inv_def inv_quorum_def)
    then obtain c where c: "(c, v') \<in> seen1 s (Ballot l n')" "c0 \<le> c" using c0(1) by (fastforce simp: may_choose_def)
    have "inv_seen s" using inv by (simp add: ballot_inv_def)
    then have "c < n'" "value_of s (Ballot l c) = Some v'" using c(1) by (fastforce simp: inv_seen_def)+
    then show ?thesis using less.hyps [of c v'] c0(2) c(2) by (simp add: word_less_nat_alt)
  qed (use less.prems val in simp)
qed

text \<open>Two ballots of a lease version that are decided have the same value.\<close>

lemma ballot_agreement:
  assumes reach: "ballot_reachable quorum own hosts s" and dec: "decided s k" "decided s k'" and lver: "lver_of k = lver_of k'"
  shows "value_of s k = value_of s k'"
proof -
  have inv: "ballot_inv quorum own hosts s" by (rule ballots.reach_inv [OF reach])
  obtain l n n' where k: "k = Ballot l n" "k' = Ballot l n'" using lver by (cases k, cases k') auto
  have "value_of s k \<noteq> None" "value_of s k' \<noteq> None" using inv dec by (simp_all add: ballot_inv_def inv_quorum_def)
  then obtain v v' where v: "value_of s k = Some v" "value_of s k' = Some v'" by blast
  show ?thesis
  proof (cases "n \<le> n'")
    case True
    then show ?thesis using decided_stable [OF inv, of l n v n' v'] dec v k by simp
  next
    case False
    then show ?thesis using decided_stable [OF inv, of l n' v' n v] dec v k by simp
  qed
qed

end

end
