(* ===== verification/Ballot_Blocks.thy ===== *)
theory Ballot_Blocks
  imports Paxos_Lease Ballot_Spec
begin

text \<open>
  What \<open>run_ballot\<close> reads and writes, in terms of the blocks of the abstract ballots: the buffer it
  reads a lease area into is large enough, the sector it writes holds the block it means and verifies,
  and the two scans of a buffer look for a block ahead of the ballot and collect the values the
  specification calls noticed.
\<close>

section \<open>The size of the buffer\<close>

lemma bit_smear:
  assumes "\<And>n. bit v n \<longleftrightarrow> (\<exists>j<k. bit w (n + j))"
  shows "bit (v OR drop_bit k v) n \<longleftrightarrow> (\<exists>j<2 * k. bit (w :: u32) (n + j))"
proof
  assume "\<exists>j<2 * k. bit w (n + j)"
  then obtain j where j: "j < 2 * k" "bit w (n + j)" by blast
  show "bit (v OR drop_bit k v) n"
  proof (cases "j < k")
    case True
    then have "bit v n" using j assms by blast
    then show ?thesis by (simp add: bit_or_iff)
  next
    case False
    then have "bit w (n + k + (j - k))" "j - k < k" using j by simp_all
    then have "bit v (n + k)" using assms by blast
    then show ?thesis by (simp add: bit_or_iff bit_drop_bit_eq add.commute)
  qed
next
  assume "bit (v OR drop_bit k v) n"
  then have "bit v n \<or> bit v (n + k)" by (auto simp: bit_or_iff bit_drop_bit_eq add.commute)
  then obtain j where "j < k" "bit w (n + j) \<or> bit w (n + (k + j))" using assms by (auto simp: add.assoc)
  moreover from this have "j < 2 * k" "k + j < 2 * k" by simp_all
  ultimately show "\<exists>j<2 * k. bit w (n + j)" by blast
qed

lemma highest_bit:
  assumes "(w :: u32) \<noteq> 0"
  obtains m where "m < 32" and "2 ^ m \<le> unat w" and "unat w < 2 ^ Suc m" and "\<And>n. (\<exists>j<32. bit w (n + j)) \<longleftrightarrow> n \<le> m"
proof -
  define m where "m = Max {n. bit w n}"
  have sub: "{n. bit w n} \<subseteq> {..<32}" using bit_imp_le_length [of w] by auto
  then have fin: "finite {n. bit w n}" using finite_subset by blast
  have ne: "{n. bit w n} \<noteq> {}" using assms by (auto simp: bit_eq_iff)
  have top: "bit w m" using Max_in [OF fin ne] by (simp add: m_def)
  have le: "bit w n \<Longrightarrow> n \<le> m" for n using Max_ge [OF fin, of n] by (simp add: m_def)
  have lt: "m < 32" using top sub by auto
  have "\<not> unat w < 2 ^ m"
  proof
    assume "unat w < 2 ^ m"
    then have "take_bit m (unat w) = unat w" by (simp add: take_bit_nat_eq_self)
    moreover have "bit (unat w) m" using top lt by (simp add: bit_unsigned_iff)
    ultimately show False by (metis bit_take_bit_iff less_irrefl)
  qed
  moreover have "take_bit (Suc m) w = w" using le by (auto simp: bit_eq_iff bit_take_bit_iff less_Suc_eq_le)
  then have "unat w < 2 ^ Suc m"
    by (metis unsigned_take_bit_eq take_bit_nat_less_exp)
  moreover have "(\<exists>j<32. bit w (n + j)) \<longleftrightarrow> n \<le> m" for n
    using top lt le [of "n + j" for j] by (auto intro: exI [of _ "m - n"] dest: le)
  ultimately show thesis using that lt by (metis not_less)
qed

lemma roundup_power_of_two_smear:
  "\<exists>v. roundup_power_of_two val = v + 1 \<and> (\<forall>n. bit v n \<longleftrightarrow> (\<exists>j<32. bit (val - 1) (n + j)))"
proof -
  define v0 v1 v2 v3 v4 v5 where v: "v0 = val - 1" "v1 = v0 OR drop_bit 1 v0" "v2 = v1 OR drop_bit 2 v1"
    "v3 = v2 OR drop_bit 4 v2" "v4 = v3 OR drop_bit 8 v3" "v5 = v4 OR drop_bit 16 v4"
  have 0: "bit v0 n \<longleftrightarrow> (\<exists>j<1. bit v0 (n + j))" for n by auto
  have 1: "bit v1 n \<longleftrightarrow> (\<exists>j<2. bit v0 (n + j))" for n using bit_smear [OF 0] by (simp only: v(2) mult_1_right)
  have 2: "bit v2 n \<longleftrightarrow> (\<exists>j<4. bit v0 (n + j))" for n using bit_smear [OF 1, of n] by (simp only: v(3) mult_num_simps mult_2 numeral_plus_numeral semiring_norm)
  have 3: "bit v3 n \<longleftrightarrow> (\<exists>j<8. bit v0 (n + j))" for n using bit_smear [OF 2, of n] by (simp only: v(4) mult_2 numeral_plus_numeral semiring_norm)
  have 4: "bit v4 n \<longleftrightarrow> (\<exists>j<16. bit v0 (n + j))" for n using bit_smear [OF 3, of n] by (simp only: v(5) mult_2 numeral_plus_numeral semiring_norm)
  have "bit v5 n \<longleftrightarrow> (\<exists>j<32. bit v0 (n + j))" for n using bit_smear [OF 4, of n] by (simp only: v(6) mult_2 numeral_plus_numeral semiring_norm)
  moreover have "roundup_power_of_two val = v5 + 1" by (simp add: roundup_power_of_two_def Let_def v)
  ultimately show ?thesis unfolding v(1) by blast
qed

lemma roundup_power_of_two_least:
  assumes "1 < unat val" and "unat val \<le> 2 ^ 31"
  shows "\<exists>k. unat (roundup_power_of_two val) = 2 ^ k \<and> unat val \<le> 2 ^ k \<and> 2 ^ k < 2 * unat val"
proof -
  have w: "unat (val - 1) = unat val - 1" using assms by (simp add: unat_sub word_le_nat_alt)
  then have "val - 1 \<noteq> 0" using assms by auto
  then obtain m where m: "m < 32" "2 ^ m \<le> unat (val - 1)" "unat (val - 1) < 2 ^ Suc m" "\<And>n. (\<exists>j<32. bit (val - 1) (n + j)) \<longleftrightarrow> n \<le> m"
    using highest_bit by blast
  obtain v where v: "roundup_power_of_two val = v + 1" "\<And>n. bit v n \<longleftrightarrow> n \<le> m"
    using roundup_power_of_two_smear [of val] m(4) by auto
  have "v = mask (Suc m)" using v(2) m(1) by (auto simp: bit_eq_iff bit_mask_iff less_Suc_eq_le)
  then have r: "roundup_power_of_two val = 2 ^ Suc m" using v(1) by (simp add: mask_eq_exp_minus_1)
  have "2 ^ m < (2 :: nat) ^ 31" using m(2) w assms by simp
  then have "m < 31" by (rule power_less_imp_less_exp [rotated]) simp
  then have "unat (of_nat (2 ^ Suc m) :: u32) = 2 ^ Suc m" by (simp add: unsigned_of_nat take_bit_nat_eq_self del: of_nat_power power_Suc)
  then have "unat (roundup_power_of_two val) = 2 ^ Suc m" unfolding r by simp
  then show ?thesis using m(2,3) w assms(1) by (intro exI [of _ "Suc m"]) auto
qed

section \<open>Lease areas\<close>

text \<open>
  The lease area of a resource: its disks (device and offset), the sector size and the number of hosts.
  Host \<open>h\<close> has sector \<open>2 + h - 1\<close> of the area of each disk.
\<close>

record lease_area =
  la_disks :: "(string \<times> u64) list"
  la_sector_size :: nat
  la_num_hosts :: nat

definition area_hosts :: "lease_area \<Rightarrow> u64 set" where
  "area_hosts g = {h. 1 \<le> h \<and> unat h \<le> la_num_hosts g}"

definition area_ok :: "lease_area \<Rightarrow> bool" where
  "area_ok g \<longleftrightarrow> distinct (map fst (la_disks g)) \<and> (la_sector_size g = 512 \<or> la_sector_size g = 4096) \<and>
    la_num_hosts g \<noteq> 0 \<and> la_num_hosts g \<le> DEFAULT_MAX_HOSTS \<and>
    (\<forall>(p, off) \<in> set (la_disks g). unat off + 2 * (la_num_hosts g + 2) * la_sector_size g \<le> 2 ^ 64)"

text \<open>The position of the block of host \<open>h\<close> on disk \<open>i\<close>, and its sector.\<close>

definition block_pos :: "lease_area \<Rightarrow> nat \<Rightarrow> u64 \<Rightarrow> nat" where
  "block_pos g i h = unat (snd (la_disks g ! i)) + (1 + unat h) * la_sector_size g"

definition host_sector :: "lease_area \<Rightarrow> disks \<Rightarrow> nat \<Rightarrow> u64 \<Rightarrow> bytes" where
  "host_sector g ds i h = disk_read ds (fst (la_disks g ! i)) (block_pos g i h) (la_sector_size g)"

text \<open>The token of host \<open>h\<close> for the resource: the file descriptors and all else are its own.\<close>

definition token_for :: "lease_area \<Rightarrow> u64 \<Rightarrow> token \<Rightarrow> bool" where
  "token_for g h tk \<longleftrightarrow> tk_host_id tk = h \<and> tk_sector_size tk = int (la_sector_size g) \<and>
    map (\<lambda>d. (sd_path d, sd_offset d)) (tk_disks tk) = la_disks g"

lemma token_for_disk:
  assumes "token_for g h tk"
  shows "num_disks tk = length (la_disks g)"
    and "i < num_disks tk \<Longrightarrow> sd_path (tk_disks tk ! i) = fst (la_disks g ! i) \<and> sd_offset (tk_disks tk ! i) = snd (la_disks g ! i)"
proof -
  have disks: "la_disks g = map (\<lambda>d. (sd_path d, sd_offset d)) (tk_disks tk)" using assms by (simp add: token_for_def)
  show "num_disks tk = length (la_disks g)" by (simp add: disks)
  show "i < num_disks tk \<Longrightarrow> sd_path (tk_disks tk ! i) = fst (la_disks g ! i) \<and> sd_offset (tk_disks tk ! i) = snd (la_disks g ! i)"
    by (simp add: disks)
qed

section \<open>Blocks in sectors\<close>

type_synonym ballot_value = "u64 \<times> u64 \<times> u64"

definition dblock_value :: "paxos_dblock \<Rightarrow> ballot_value" where
  "dblock_value pd = (pd_inp pd, pd_inp2 pd, pd_inp3 pd)"

definition dblock_block :: "paxos_dblock \<Rightarrow> ballot_value block" where
  "dblock_block pd = Block (pd_lver pd) (pd_mbal pd) (pd_bal pd) (dblock_value pd)"

definition sector_block :: "bytes \<Rightarrow> ballot_value block" where
  "sector_block sec = dblock_block (paxos_dblock_in sec)"

text \<open>The block in a sector passes the verification of \<open>verify_dblock\<close>.\<close>

definition sector_intact :: "bytes \<Rightarrow> bool" where
  "sector_intact sec \<longleftrightarrow> \<not> verify_dblock (paxos_dblock_in sec) (dblock_checksum sec) < 0"

lemma dblock_in_append: "length e = dblock_size \<Longrightarrow> paxos_dblock_in (e @ rest) = paxos_dblock_in e"
  by (rule dblock_disk.dec_prefix)

lemma sector_block_take:
  assumes "dblock_size \<le> n" and "dblock_size \<le> length sec"
  shows "sector_block (take n sec) = sector_block sec" "sector_intact (take n sec) = sector_intact sec"
proof -
  have "paxos_dblock_in (take dblock_size (take n sec)) = paxos_dblock_in (take n sec)"
    "paxos_dblock_in (take dblock_size sec) = paxos_dblock_in sec"
    using assms by (intro dblock_disk.dec_take, simp)+
  then have "paxos_dblock_in (take n sec) = paxos_dblock_in sec" using assms by (simp add: min_def)
  moreover have "dblock_checksum (take n sec) = dblock_checksum sec" using assms by (simp add: dblock_checksum_def min_def)
  ultimately show "sector_block (take n sec) = sector_block sec" "sector_intact (take n sec) = sector_intact sec"
    by (simp_all add: sector_block_def sector_intact_def)
qed

text \<open>A sealed block at the start of a sector is intact and is the block that was sealed.\<close>

lemma sealed_sector:
  assumes "dblock_seal pd (replicate dblock_size 0) = (pd', pd_end)"
  shows "sector_block (pd_end @ rest) = dblock_block pd" "sector_intact (pd_end @ rest)" "length pd_end = dblock_size"
    "pd' = pd\<lparr>pd_checksum := pd_checksum pd'\<rparr>"
proof -
  have seal: "pd' = fst (dblock_seal pd (replicate dblock_size 0))" "pd_end = snd (dblock_seal pd (replicate dblock_size 0))"
    using assms by simp_all
  have len: "length pd_end = dblock_size" unfolding seal by (rule dblock_seal_length) simp
  have inn: "paxos_dblock_in (pd_end @ rest) = pd'"
    using len unfolding seal by (simp add: dblock_in_append dblock_seal_in)
  have sum: "dblock_checksum (pd_end @ rest) = pd_checksum pd'"
    using len unfolding seal by (simp add: dblock_checksum_append dblock_seal_checksum)
  show pd': "pd' = pd\<lparr>pd_checksum := pd_checksum pd'\<rparr>" by (simp add: seal dblock_seal_def Let_def)
  have "dblock_block pd' = dblock_block pd" by (subst pd') (simp add: dblock_block_def dblock_value_def)
  then show "sector_block (pd_end @ rest) = dblock_block pd" by (simp add: sector_block_def inn)
  show "sector_intact (pd_end @ rest)" by (simp add: sector_intact_def inn sum verify_dblock_def)
  show "length pd_end = dblock_size" by (rule len)
qed

section \<open>The scans of a lease area\<close>

text \<open>A block a host can meet: it verifies, and when it is one of phase 2 it has a value.\<close>

definition good_sector :: "bytes \<Rightarrow> bool" where
  "good_sector sec \<longleftrightarrow> sector_intact sec \<and> (b_bal (sector_block sec) \<noteq> 0 \<longrightarrow> fst (b_val (sector_block sec)) \<noteq> 0)"

text \<open>\<open>bk_max\<close> of \<open>run_ballot\<close> is the block with the most recent value among those noticed.\<close>

definition is_bk_max :: "(u64 \<times> ballot_value) set \<Rightarrow> paxos_dblock \<Rightarrow> bool" where
  "is_bk_max seen bk \<longleftrightarrow>
    (if seen = {} then pd_bal bk = 0 \<and> pd_inp bk = 0
     else pd_inp bk \<noteq> 0 \<and> (pd_bal bk, dblock_value bk) \<in> seen \<and> (\<forall>(c, v) \<in> seen. c \<le> pd_bal bk))"

lemma is_bk_max_choose:
  assumes "is_bk_max seen bk"
  shows "pd_inp bk \<noteq> 0 \<Longrightarrow> may_choose seen (dblock_value bk) \<and> seen \<noteq> {}" and "pd_inp bk = 0 \<Longrightarrow> seen = {}"
  using assms by (auto simp: is_bk_max_def may_choose_def split: if_splits)

text \<open>The scans change the token only in what \<open>check_mode_block\<close> notes.\<close>

definition same_token :: "token \<Rightarrow> token \<Rightarrow> bool" where
  "same_token tk tk' \<longleftrightarrow> tk' = tk\<lparr>tk_shared_count := tk_shared_count tk', tk_shared_bitmap := tk_shared_bitmap tk'\<rparr>"

lemma same_token_refl [simp]: "same_token tk tk"
  by (simp add: same_token_def)

lemma same_token_check_mode_block: "same_token tk tk' \<Longrightarrow> same_token tk (check_mode_block tk' q buf)"
  unfolding same_token_def check_mode_block_def Let_def by (cases tk; cases tk'; simp)

lemma same_token_fields:
  assumes "same_token tk tk'"
  shows "tk_host_id tk' = tk_host_id tk" "tk_host_generation tk' = tk_host_generation tk" "tk_io_timeout tk' = tk_io_timeout tk"
    "tk_flags tk' = tk_flags tk" "tk_sector_size tk' = tk_sector_size tk" "tk_disks tk' = tk_disks tk"
  using assms unfolding same_token_def by (cases tk; cases tk'; simp)+

lemma is_bk_max_insert:
  assumes "is_bk_max seen bk_max" and "pd_bal bk \<noteq> 0" and "pd_inp bk \<noteq> 0"
  shows "is_bk_max (insert (pd_bal bk, dblock_value bk) seen) (if pd_bal bk > pd_bal bk_max then bk else bk_max)"
  using assms by (auto simp: is_bk_max_def word_gt_0 not_less split: if_splits)

text \<open>Whether a block of the buffer is ahead, and what the blocks of the buffer add to the values seen.\<close>

abbreviation buf_block :: "nat \<Rightarrow> bytes \<Rightarrow> nat \<Rightarrow> ballot_value block" where
  "buf_block ss buf q \<equiv> sector_block (drop ((2 + q) * ss) buf)"

abbreviation dblock_ballot :: "paxos_dblock \<Rightarrow> ballot" where
  "dblock_ballot pd \<equiv> Ballot (pd_lver pd) (pd_mbal pd)"

lemma ahead_sector: "ahead (dblock_ballot pd) (sector_block sec) \<longleftrightarrow>
    pd_lver pd < pd_lver (paxos_dblock_in sec) \<or>
    pd_lver pd = pd_lver (paxos_dblock_in sec) \<and> pd_mbal pd < pd_mbal (paxos_dblock_in sec)"
  by (simp add: ahead_def before_def block_ballot_def sector_block_def dblock_block_def)

lemma noticed_sector: "noticed (dblock_ballot pd) (sector_block sec) =
    (if pd_lver (paxos_dblock_in sec) = pd_lver pd \<and> pd_bal (paxos_dblock_in sec) \<noteq> 0
     then {(pd_bal (paxos_dblock_in sec), dblock_value (paxos_dblock_in sec))} else {})"
  by (simp add: noticed_def sector_block_def dblock_block_def)

lemma good_sectorD:
  assumes "good_sector sec"
  shows "\<not> verify_dblock (paxos_dblock_in sec) (dblock_checksum sec) < 0"
    and "pd_bal (paxos_dblock_in sec) \<noteq> 0 \<Longrightarrow> pd_inp (paxos_dblock_in sec) \<noteq> 0"
  using assms by (simp_all add: good_sector_def sector_intact_def sector_block_def dblock_block_def dblock_value_def)

definition abort_error :: "paxos_dblock \<Rightarrow> bytes \<Rightarrow> int" where
  "abort_error dblock sec = (if pd_lver dblock < pd_lver (paxos_dblock_in sec) then SANLK_DBLOCK_LVER else SANLK_DBLOCK_MBAL)"

lemma phase1_scan_good:
  assumes "good_sector (drop ((2 + q) * ss) buf)"
  shows "phase1_scan ss buf dblock (q # qs) tk bk_max =
    (let sec = drop ((2 + q) * ss) buf; bk = paxos_dblock_in sec; tk = check_mode_block tk q sec
     in if ahead (dblock_ballot dblock) (sector_block sec) then (Some (abort_error dblock sec), tk, bk_max)
        else phase1_scan ss buf dblock qs tk
          (if noticed (dblock_ballot dblock) (sector_block sec) = {} then bk_max
           else if pd_bal bk > pd_bal bk_max then bk else bk_max))"
  using good_sectorD [OF assms] by (auto simp: Let_def ahead_sector noticed_sector abort_error_def not_less)

lemma phase2_scan_good:
  assumes "good_sector (drop ((2 + q) * ss) buf)"
  shows "phase2_scan ss buf dblock (q # qs) =
    (let sec = drop ((2 + q) * ss) buf
     in if ahead (dblock_ballot dblock) (sector_block sec) then Some (abort_error dblock sec)
        else phase2_scan ss buf dblock qs)"
  using good_sectorD(1) [OF assms] by (auto simp: Let_def ahead_sector abort_error_def not_less)

declare phase1_scan.simps(2) [simp del] phase2_scan.simps(2) [simp del]

lemma phase1_scan_abort:
  assumes "\<forall>q \<in> set qs. good_sector (drop ((2 + q) * ss) buf)"
    and "phase1_scan ss buf dblock qs tk bk_max = (Some e, tk', bk')"
  shows "(\<exists>q \<in> set qs. ahead (dblock_ballot dblock) (buf_block ss buf q)) \<and> e \<noteq> SANLK_OK"
  using assms
  by (induction qs arbitrary: tk bk_max) (auto simp: phase1_scan_good Let_def abort_error_def split: if_splits)

lemma phase1_scan_done:
  assumes "\<forall>q \<in> set qs. good_sector (drop ((2 + q) * ss) buf)"
    and "phase1_scan ss buf dblock qs tk bk_max = (None, tk', bk')" and "is_bk_max seen bk_max" and "same_token tk0 tk"
  shows "(\<forall>q \<in> set qs. \<not> ahead (dblock_ballot dblock) (buf_block ss buf q)) \<and> same_token tk0 tk' \<and>
    is_bk_max (seen \<union> (\<Union>q \<in> set qs. noticed (dblock_ballot dblock) (buf_block ss buf q))) bk'"
  using assms
proof (induction qs arbitrary: tk bk_max seen)
  case (Cons q qs)
  define sec where "sec = drop ((2 + q) * ss) buf"
  define bk where "bk = (if noticed (dblock_ballot dblock) (sector_block sec) = {} then bk_max
           else if pd_bal (paxos_dblock_in sec) > pd_bal bk_max then paxos_dblock_in sec else bk_max)"
  have good: "good_sector sec" using Cons.prems(1) by (simp add: sec_def)
  have scan: "phase1_scan ss buf dblock (q # qs) tk bk_max =
      (if ahead (dblock_ballot dblock) (sector_block sec) then (Some (abort_error dblock sec), check_mode_block tk q sec, bk_max)
       else phase1_scan ss buf dblock qs (check_mode_block tk q sec) bk)"
    using good by (simp add: phase1_scan_good Let_def bk_def sec_def)
  then have "\<not> ahead (dblock_ballot dblock) (sector_block sec)"
    "phase1_scan ss buf dblock qs (check_mode_block tk q sec) bk = (None, tk', bk')"
    using Cons.prems(2) by (auto split: if_splits)
  moreover have "is_bk_max (seen \<union> noticed (dblock_ballot dblock) (sector_block sec)) bk"
    using Cons.prems(3) good_sectorD(2) [OF good] is_bk_max_insert [of seen bk_max "paxos_dblock_in sec"]
    by (auto simp: bk_def noticed_sector)
  ultimately show ?case
    using Cons.IH Cons.prems(1) same_token_check_mode_block [OF Cons.prems(4)] by (fastforce simp: sec_def Un_assoc)
qed simp

lemma phase2_scan_result:
  assumes "\<forall>q \<in> set qs. good_sector (drop ((2 + q) * ss) buf)"
  shows "case phase2_scan ss buf dblock qs of
      None \<Rightarrow> (\<forall>q \<in> set qs. \<not> ahead (dblock_ballot dblock) (buf_block ss buf q))
    | Some e \<Rightarrow> (\<exists>q \<in> set qs. ahead (dblock_ballot dblock) (buf_block ss buf q)) \<and> e \<noteq> SANLK_OK"
  using assms by (induction qs) (auto simp: phase2_scan_good Let_def abort_error_def split: option.splits)

end
