(* ===== verification/Acquire_Calls.thy ===== *)
theory Acquire_Calls
  imports Paxos_Acquire Histories Ballot_Blocks
begin

text \<open>
  The calls that \<open>paxos_lease_acquire\<close> makes, under every behaviour of the disks and of the other
  threads: which events each of them adds to the history, and what its result says about them.
\<close>

section \<open>Events and what came before them\<close>

definition each_event :: "('st event list \<Rightarrow> 'st event \<Rightarrow> bool) \<Rightarrow> 'st event list \<Rightarrow> bool" where
  "each_event P hist \<longleftrightarrow> (\<forall>past ev rest. hist = past @ ev # rest \<longrightarrow> P past ev)"

lemma each_event_Nil [simp]: "each_event P []"
  by (simp add: each_event_def)

lemma each_event_snoc [simp]: "each_event P (hist @ [ev]) \<longleftrightarrow> each_event P hist \<and> P hist ev"
proof
  assume all: "each_event P (hist @ [ev])"
  then have "P past e" if "hist = past @ e # rest" for past e rest
    using that unfolding each_event_def by (metis append.assoc append_Cons)
  with all show "each_event P hist \<and> P hist ev" unfolding each_event_def by blast
next
  assume hyp: "each_event P hist \<and> P hist ev"
  show "each_event P (hist @ [ev])" unfolding each_event_def
  proof (intro allI impI)
    fix past e rest
    assume eq: "hist @ [ev] = past @ e # rest"
    show "P past e"
    proof (cases rest rule: rev_cases)
      case Nil
      with eq hyp show ?thesis by simp
    next
      case (snoc rest' x)
      with eq have "hist = past @ e # rest'" by simp
      with hyp show ?thesis unfolding each_event_def by blast
    qed
  qed
qed

lemma each_event_append:
  "each_event P (hist @ evs) \<longleftrightarrow> each_event P hist \<and> each_event (\<lambda>past. P (hist @ past)) evs"
proof (induction evs rule: rev_induct)
  case (snoc ev evs)
  then show ?case by (simp flip: append_assoc)
qed simp

lemma each_event_mono: "each_event P hist \<Longrightarrow> (\<And>past ev. ev \<in> set hist \<Longrightarrow> P past ev \<Longrightarrow> Q past ev) \<Longrightarrow> each_event Q hist"
  unfolding each_event_def by (metis in_set_conv_decomp)

lemma each_event_list_all: "each_event (\<lambda>_. P) hist \<longleftrightarrow> list_all P hist"
proof (induction hist rule: rev_induct)
  case (snoc ev hist)
  then show ?case by simp
qed simp

text \<open>
  Runs that may not end: \<open>Q\<close> holds of every result, and \<open>F\<close> of the history of every run that is cut off
  because its fuel is used up.
\<close>

primrec runs :: "('a \<Rightarrow> 'st event list \<Rightarrow> bool) \<Rightarrow> ('st event list \<Rightarrow> bool) \<Rightarrow> ('st, 'a) io \<Rightarrow> 'st event list \<Rightarrow> bool" where
  "runs Q F (Ret x) = (\<lambda>h. Q x h)"
| "runs Q F Out_of_fuel = F"
| "runs Q F (Posix_memalign n k) = (\<lambda>h. \<forall>rv b. 0 \<le> rv \<longrightarrow> length b = n \<longrightarrow> runs Q F (k rv b) (h @ [E_memalign n rv b]))"
| "runs Q F (Uninit n k) = (\<lambda>h. \<forall>b. length b = n \<longrightarrow> runs Q F (k b) (h @ [E_uninit b]))"
| "runs Q F (Write_iobuf d off b t k) = (\<lambda>h. \<forall>rv. rv \<le> 0 \<longrightarrow> runs Q F (k rv) (h @ [E_write d off b rv]))"
| "runs Q F (Read_iobuf d off n t k) =
    (\<lambda>h. \<forall>rv b. rv \<le> 0 \<longrightarrow> length b = n \<longrightarrow> runs Q F (k rv b) (h @ [E_read d off n rv b]))"
| "runs Q F (Open_path p k) = (\<lambda>h. \<forall>rv. runs Q F (k rv) (h @ [E_open p rv]))"
| "runs Q F (Monotime k) = (\<lambda>h. \<forall>t. runs Q F (k t) (h @ [E_time t]))"
| "runs Q F (Sleep n k) = (\<lambda>h. runs Q F k (h @ [E_sleep n]))"
| "runs Q F (Usleep n k) = (\<lambda>h. runs Q F k (h @ [E_usleep n]))"
| "runs Q F (Get_rand a b k) = (\<lambda>h. \<forall>r. r < 0 \<or> a \<le> r \<and> r \<le> b \<longrightarrow> runs Q F (k r) (h @ [E_rand r]))"
| "runs Q F (Call c args k) = (\<lambda>h. \<forall>rv. runs Q F (k rv) (h @ [E_call c args rv]))"
| "runs Q F (Shared g k) = (\<lambda>h. \<forall>s. runs Q F (k s) (h @ [E_shared s]))"

lemma wp_runs: "wp Q m h = runs Q (\<lambda>_. True) m h"
  by (induction m arbitrary: h) simp_all

lemma runs_bnd: "runs Q F (bnd m f) h = runs (\<lambda>x. runs Q F (f x)) F m h"
  by (induction m arbitrary: h) simp_all

lemma runs_mono: "runs Q F m h \<Longrightarrow> (\<And>x h. Q x h \<Longrightarrow> R x h) \<Longrightarrow> (\<And>h. F h \<Longrightarrow> G h) \<Longrightarrow> runs R G m h"
  by (induction m arbitrary: h) auto

text \<open>
  Every event that a tree adds to the history satisfies \<open>P\<close>, its result satisfies \<open>Q\<close>, and it always ends.
\<close>

definition adds :: "('st event \<Rightarrow> bool) \<Rightarrow> ('a \<Rightarrow> 'st event list \<Rightarrow> bool) \<Rightarrow> ('st, 'a) io \<Rightarrow> bool" where
  "adds P Q m \<longleftrightarrow> (\<forall>hist. runs (\<lambda>x hist'. \<exists>evs. hist' = hist @ evs \<and> list_all P evs \<and> Q x evs) (\<lambda>_. False) m hist)"

lemma addsI:
  "(\<And>hist. runs (\<lambda>x hist'. \<exists>evs. hist' = hist @ evs \<and> list_all P evs \<and> Q x evs) (\<lambda>_. False) m hist) \<Longrightarrow> adds P Q m"
  by (simp add: adds_def)

lemma adds_runs:
  assumes "adds P Q m" and "\<And>x evs. list_all P evs \<Longrightarrow> Q x evs \<Longrightarrow> R x (hist @ evs)"
  shows "runs R F m hist"
  by (rule runs_mono [OF assms(1) [unfolded adds_def, THEN spec, of hist]]) (use assms(2) in auto)

lemma adds_mono:
  assumes "adds P Q m" and "\<And>ev. P ev \<Longrightarrow> P' ev" and "\<And>x evs. list_all P evs \<Longrightarrow> Q x evs \<Longrightarrow> Q' x evs"
  shows "adds P' Q' m"
  by (rule addsI, rule adds_runs [OF assms(1)]) (use assms(2,3) in \<open>auto simp: list_all_iff\<close>)

lemma adds_Ret [simp]: "adds P Q (Ret x) \<longleftrightarrow> Q x []"
  by (simp add: adds_def)

lemma adds_bnd:
  assumes "adds P Q m" and "\<And>x evs. list_all P evs \<Longrightarrow> Q x evs \<Longrightarrow> adds P (\<lambda>y evs'. R y (evs @ evs')) (f x)"
  shows "adds P R (bnd m f)"
  unfolding adds_def runs_bnd
proof (intro allI adds_runs [OF assms(1)])
  fix hist x evs
  assume "list_all P evs" "Q x evs"
  then show "runs (\<lambda>x hist'. \<exists>evs. hist' = hist @ evs \<and> list_all P evs \<and> R x evs) (\<lambda>_. False) (f x) (hist @ evs)"
    using adds_runs [OF assms(2) [of evs x], of _ "hist @ evs"] by fastforce
qed

lemma adds_step:
  assumes "P ev" and "adds P (\<lambda>x evs. Q x (ev # evs)) m"
  shows "runs (\<lambda>x hist'. \<exists>evs. hist' = hist @ evs \<and> list_all P evs \<and> Q x evs) (\<lambda>_. False) m (hist @ [ev])"
  by (rule adds_runs [OF assms(2)]) (use assms(1) in \<open>auto intro: exI [of _ "ev # _"]\<close>)

lemma adds_memalign:
  "(\<And>rv b. 0 \<le> rv \<Longrightarrow> length b = n \<Longrightarrow> P (E_memalign n rv b)) \<Longrightarrow>
   (\<And>rv b. 0 \<le> rv \<Longrightarrow> length b = n \<Longrightarrow> adds P (\<lambda>x evs. Q x (E_memalign n rv b # evs)) (k rv b)) \<Longrightarrow> adds P Q (Posix_memalign n k)"
  by (rule addsI) (simp add: adds_step)

lemma adds_uninit:
  "(\<And>b. length b = n \<Longrightarrow> P (E_uninit b)) \<Longrightarrow>
   (\<And>b. length b = n \<Longrightarrow> adds P (\<lambda>x evs. Q x (E_uninit b # evs)) (k b)) \<Longrightarrow> adds P Q (Uninit n k)"
  by (rule addsI) (simp add: adds_step)

lemma adds_write:
  "(\<And>rv. rv \<le> 0 \<Longrightarrow> P (E_write d off b rv)) \<Longrightarrow>
   (\<And>rv. rv \<le> 0 \<Longrightarrow> adds P (\<lambda>x evs. Q x (E_write d off b rv # evs)) (k rv)) \<Longrightarrow> adds P Q (Write_iobuf d off b t k)"
  by (rule addsI) (simp add: adds_step)

lemma adds_read:
  "(\<And>rv b. rv \<le> 0 \<Longrightarrow> length b = n \<Longrightarrow> P (E_read d off n rv b)) \<Longrightarrow>
   (\<And>rv b. rv \<le> 0 \<Longrightarrow> length b = n \<Longrightarrow> adds P (\<lambda>x evs. Q x (E_read d off n rv b # evs)) (k rv b)) \<Longrightarrow> adds P Q (Read_iobuf d off n t k)"
  by (rule addsI) (simp add: adds_step)

lemma adds_open:
  "(\<And>rv. P (E_open p rv)) \<Longrightarrow>
   (\<And>rv. adds P (\<lambda>x evs. Q x (E_open p rv # evs)) (k rv)) \<Longrightarrow> adds P Q (Open_path p k)"
  by (rule addsI) (simp add: adds_step)

lemma adds_time:
  "(\<And>t. P (E_time t)) \<Longrightarrow>
   (\<And>t. adds P (\<lambda>x evs. Q x (E_time t # evs)) (k t)) \<Longrightarrow> adds P Q (Monotime k)"
  by (rule addsI) (simp add: adds_step)

lemma adds_sleep:
  "P (E_sleep n) \<Longrightarrow>
   adds P (\<lambda>x evs. Q x (E_sleep n # evs)) k \<Longrightarrow> adds P Q (Sleep n k)"
  by (rule addsI) (simp add: adds_step)

lemma adds_usleep:
  "P (E_usleep i) \<Longrightarrow>
   adds P (\<lambda>x evs. Q x (E_usleep i # evs)) k \<Longrightarrow> adds P Q (Usleep i k)"
  by (rule addsI) (simp add: adds_step)

lemma adds_rand:
  "(\<And>r. P (E_rand r)) \<Longrightarrow>
   (\<And>r. adds P (\<lambda>x evs. Q x (E_rand r # evs)) (k r)) \<Longrightarrow> adds P Q (Get_rand lo hi k)"
  by (rule addsI) (simp add: adds_step)

lemma adds_call:
  "(\<And>rv. P (E_call c args rv)) \<Longrightarrow>
   (\<And>rv. adds P (\<lambda>x evs. Q x (E_call c args rv # evs)) (k rv)) \<Longrightarrow> adds P Q (Call c args k)"
  by (rule addsI) (simp add: adds_step)

lemma adds_shared:
  "(\<And>s. P (E_shared s)) \<Longrightarrow>
   (\<And>s. adds P (\<lambda>x evs. Q x (E_shared s # evs)) (k s)) \<Longrightarrow> adds P Q (Shared g k)"
  by (rule addsI) (simp add: adds_step)

lemmas adds_calls = adds_memalign adds_uninit adds_write adds_read adds_open adds_time adds_sleep adds_usleep adds_rand adds_call adds_shared

abbreviation no_write :: "daemon event \<Rightarrow> bool" where "no_write ev \<equiv> \<not> is_write ev"

definition failed_alloc :: "daemon event \<Rightarrow> bool" where
  "failed_alloc ev = (case ev of E_memalign n rv b \<Rightarrow> rv \<noteq> 0 | _ \<Rightarrow> False)"

lemma failed_alloc_simps [simp]:
  "failed_alloc (E_memalign n rv b) \<longleftrightarrow> rv \<noteq> 0" "\<not> failed_alloc (E_write d off b rv)" "\<not> failed_alloc (E_uninit b)"
  "\<not> failed_alloc (E_read d off n rv b)" "\<not> failed_alloc (E_open p rv)" "\<not> failed_alloc (E_time t)" "\<not> failed_alloc (E_sleep n)"
  "\<not> failed_alloc (E_usleep i)" "\<not> failed_alloc (E_rand i)" "\<not> failed_alloc (E_shared s)" "\<not> failed_alloc (E_call c args rv)"
  by (simp_all add: failed_alloc_def)

abbreviation alloc_failed :: "daemon event list \<Rightarrow> bool" where "alloc_failed \<equiv> list_ex failed_alloc"

section \<open>Ballots\<close>

text \<open>A write of a host block for lease version \<open>L\<close>, and tokens of the same request.\<close>

definition lver_write :: "u64 \<Rightarrow> daemon event \<Rightarrow> bool" where
  "lver_write L ev = (case ev of E_write d off b rv \<Rightarrow> pd_lver (paxos_dblock_in b) = L | _ \<Rightarrow> True)"

lemma lver_write_simps [simp]: "lver_write L (E_write d off b rv) \<longleftrightarrow> pd_lver (paxos_dblock_in b) = L"
  "lver_write L (E_memalign n m b)" "lver_write L (E_uninit b)" "lver_write L (E_read d off n rv b)"
  "lver_write L (E_open p rv)" "lver_write L (E_time t)" "lver_write L (E_sleep n)" "lver_write L (E_usleep i)" "lver_write L (E_rand i)"
  "lver_write L (E_shared s)" "lver_write L (E_call c args rv)"
  by (simp_all add: lver_write_def)

definition same_request :: "token \<Rightarrow> token \<Rightarrow> bool" where
  "same_request tk tk' \<longleftrightarrow> tk_host_id tk' = tk_host_id tk \<and> tk_host_generation tk' = tk_host_generation tk \<and> tk_disks tk' = tk_disks tk \<and> tk_r tk' = tk_r tk"

lemma same_request_refl [simp]: "same_request tk tk"
  by (simp add: same_request_def)

lemma adds_write_sector:
  assumes "\<And>rv. rv < 0 \<Longrightarrow> Q rv []" and "\<And>n m b. P (E_memalign n m b)" and "\<And>n m b. Q (- ENOMEM) [E_memalign n m b]"
    and "\<And>n rv. rv \<le> 0 \<Longrightarrow> length data \<le> n \<Longrightarrow> P (E_write disk (sd_offset disk + nr * word_of_int ss) (data @ replicate (n - length data) 0) rv)"
    and "\<And>n b rv. rv \<le> 0 \<Longrightarrow> length data \<le> n \<Longrightarrow>
      Q rv [E_memalign n 0 b, E_write disk (sd_offset disk + nr * word_of_int ss) (data @ replicate (n - length data) 0) rv]"
  shows "adds P Q (write_sector disk ss nr data io)"
proof -
  have "length data \<le> size_t ss" if "ss = 512 \<or> ss = 4096" "int (length data) \<le> ss" using that by auto
  with assms show ?thesis
    by (auto simp: write_sector_def do_write_sectors_def Let_def splice_at_def not_less intro!: adds_calls)
qed

lemma adds_write_dblock:
  assumes "pd_lver pd = L"
  shows "adds (lver_write L) (\<lambda>r _. pd_lver (snd r) = L) (write_dblock tk disk h pd)"
proof -
  obtain pd' pd_end where seal: "dblock_seal pd (replicate dblock_size 0) = (pd', pd_end)" by fastforce
  note sealed = sealed_sector [OF seal]
  have lver: "pd_lver (paxos_dblock_in (pd_end @ rest)) = L" for rest
    using sealed(1) [of rest] assms by (simp add: sector_block_def dblock_block_def)
  have pd': "pd_lver pd' = L" by (subst sealed(4)) (simp add: assms)
  have "adds (lver_write L) (\<lambda>r _. pd_lver (snd r) = L)
      (bnd (write_sector disk (tk_sector_size tk) (2 + h - 1) pd_end (ioto tk)) (\<lambda>rv. Ret (rv, pd')))"
    by (rule adds_bnd [where Q = "\<lambda>_ _. True"], rule adds_write_sector) (use lver pd' in auto)
  moreover have "adds (lver_write L) (\<lambda>r _. pd_lver (snd r) = L) (write_dblock_mblock_sh tk disk h pd)"
    unfolding write_dblock_mblock_sh_def Let_def seal
    using lver pd' assms sealed(3) by (auto intro!: adds_calls simp: splice_at_def)
  ultimately show ?thesis by (simp add: write_dblock_def seal)
qed

lemma adds_ballot_writes:
  "pd_lver pd = L \<Longrightarrow> adds (lver_write L) (\<lambda>r _. pd_lver (snd r) = L) (ballot_writes tk disks pd nw)"
proof (induction disks arbitrary: pd nw)
  case (Cons disk disks)
  show ?case unfolding ballot_writes.simps
    by (rule adds_bnd [OF adds_write_dblock [OF Cons.prems]]) (use Cons.IH in \<open>auto split: prod.splits\<close>)
qed simp

lemma same_request_token: "same_token tk tk' \<Longrightarrow> same_request tk tk'"
  unfolding same_token_def same_request_def by (cases tk; cases tk'; simp)

lemma same_token_phase1_scan: "same_token tk0 tk \<Longrightarrow> same_token tk0 (fst (snd (phase1_scan ss iobuf dblock qs tk bk_max)))"
  by (induction ss iobuf dblock qs tk bk_max rule: phase1_scan.induct)
    (auto simp: phase1_scan.simps Let_def same_token_check_mode_block)

lemma adds_phase1_reads:
  "same_token tk0 tk \<Longrightarrow> adds (lver_write L) (\<lambda>r _. same_token tk0 (fst (snd r))) (phase1_reads N n pd ds tk nr bk bufs)"
proof (induction ds arbitrary: tk nr bk bufs)
  case (Cons d ds)
  have "same_token tk0 tk'" if "phase1_scan ss iobuf dblock qs tk bk' = (r, tk', bk'')" for ss iobuf dblock qs bk' r tk' bk''
    using same_token_phase1_scan [OF Cons.prems, of ss iobuf dblock qs bk'] that by simp
  with Cons show ?case by (cases d) (auto split: prod.splits option.splits intro!: adds_calls)
qed simp

lemma adds_phase2_reads: "adds (lver_write L) (\<lambda>_ _. True) (phase2_reads N n pd ds tk nr)"
proof (induction ds arbitrary: nr)
  case (Cons d ds)
  then show ?case by (cases d) (auto split: prod.splits option.splits intro!: adds_calls)
qed simp

lemma same_request_out: "same_request tk tk' \<Longrightarrow> same_request tk (snd (snd (ballot_out tk' p e d)))"
  by (simp add: ballot_out_def same_request_def)

lemma ballot_out_dblock [simp]: "fst (snd (ballot_out tk' p e d)) = d"
  by (simp add: ballot_out_def)

lemma adds_ballot_phase2:
  assumes "pd_lver pd = L" and "same_request tk0 tk"
  shows "adds (lver_write L) (\<lambda>r _. same_request tk0 (snd (snd r)) \<and> pd_lver (fst (snd r)) = L) (ballot_phase2 tk N n bufs pd)"
  unfolding ballot_phase2_def
proof (rule adds_bnd [OF adds_ballot_writes [OF assms(1)]])
  fix r :: "nat \<times> paxos_dblock"
  assume "pd_lver (snd r) = L"
  moreover have "adds (lver_write L) (\<lambda>r _. same_request tk0 (snd (snd r)) \<and> pd_lver (fst (snd r)) = L) (bnd (phase2_reads N n d ds tk 0) (\<lambda>(error, num_reads).
        case error of Some e \<Rightarrow> Ret (ballot_out tk True e d)
        | None \<Rightarrow> if \<not> majority_disks (num_disks tk) num_reads then Ret (ballot_out tk True SANLK_DBLOCK_READ d)
                  else Ret (ballot_out tk True SANLK_OK d)))" if "pd_lver d = L" for d ds
    by (rule adds_bnd [OF adds_phase2_reads]) (use same_request_out [OF assms(2)] in \<open>auto simp: that split: prod.splits option.splits\<close>)
  ultimately show "adds (lver_write L) (\<lambda>y evs'. same_request tk0 (snd (snd y)) \<and> pd_lver (fst (snd y)) = L) (case r of (num_writes, dblock) \<Rightarrow>
      if \<not> majority_disks (num_disks tk) num_writes then Ret (ballot_out tk True SANLK_DBLOCK_WRITE dblock)
      else bnd (phase2_reads N n dblock (zip (tk_disks tk) bufs) tk 0) (\<lambda>(error, num_reads).
        case error of Some e \<Rightarrow> Ret (ballot_out tk True e dblock)
        | None \<Rightarrow> if \<not> majority_disks (num_disks tk) num_reads then Ret (ballot_out tk True SANLK_DBLOCK_READ dblock)
                  else Ret (ballot_out tk True SANLK_OK dblock)))"
    using same_request_out [OF assms(2)] by (cases r) simp
qed

lemma adds_ballot_phase1:
  assumes "pd_lver pd = L"
  shows "adds (lver_write L) (\<lambda>r _. same_request tk (snd (snd r)) \<and> pd_lver (fst (snd r)) = L) (ballot_phase1 tk N n pd)"
  unfolding ballot_phase1_def
proof (rule adds_bnd [OF adds_ballot_writes [OF assms]])
  fix r :: "nat \<times> paxos_dblock"
  assume "pd_lver (snd r) = L"
  moreover have choose: "adds (lver_write L) (\<lambda>r _. same_request tk (snd (snd r)) \<and> pd_lver (fst (snd r)) = L) (ballot_choose t N n bufs d bk)"
    if "pd_lver d = L" "same_request tk t" for t bufs d bk
    using that by (auto simp: ballot_choose_def intro!: adds_time adds_ballot_phase2)
  ultimately show "adds (lver_write L) (\<lambda>y evs'. same_request tk (snd (snd y)) \<and> pd_lver (fst (snd y)) = L) (case r of (num_writes, dblock) \<Rightarrow>
      if \<not> majority_disks (num_disks tk) num_writes then Ret (ballot_out tk False SANLK_DBLOCK_WRITE dblock)
      else bnd (phase1_reads N n dblock (map (\<lambda>d. (d, True)) (tk_disks tk)) tk 0 zero_dblock [])
        (\<lambda>(error, tk, num_reads, bk_max, bufs).
          case error of Some e \<Rightarrow> Ret (ballot_out tk False e dblock)
          | None \<Rightarrow> if \<not> majority_disks (num_disks tk) num_reads then Ret (ballot_out tk False SANLK_DBLOCK_READ dblock)
                    else ballot_choose tk N n bufs dblock bk_max))"
    using same_request_out [of tk]
    by (auto split: prod.splits option.splits intro!: adds_bnd [OF adds_phase1_reads [OF same_token_refl]] choose dest!: same_request_token)
qed

lemma adds_run_ballot:
  "adds (lver_write L) (\<lambda>r evs. same_request tk (snd (snd r)) \<and> (fst r < 0 \<or> alloc_failed evs \<or> pd_lver (fst (snd r)) = L))
    (run_ballot tk N L mbal pd)"
proof -
  have mem: "adds (lver_write L) (\<lambda>rv evs. rv = 0 \<or> alloc_failed evs) (ballot_memaligns n d)" for n d
    by (induction d) (auto intro!: adds_calls)
  have phase1: "adds (lver_write L) (\<lambda>r evs. same_request tk (snd (snd r)) \<and> (fst r < 0 \<or> P evs \<or> pd_lver (fst (snd r)) = L))
      (ballot_phase1 tk N n d)" if "pd_lver d = L" for n d and P :: "daemon event list \<Rightarrow> bool"
    by (rule adds_mono [OF adds_ballot_phase1 [OF that]]) auto
  show ?thesis unfolding run_ballot_def Let_def
  proof (simp, intro impI, rule adds_bnd [OF mem])
    fix rv :: int and evs :: "daemon event list"
    assume "rv = 0 \<or> alloc_failed evs"
    then show "adds (lver_write L) (\<lambda>y evs'. same_request tk (snd (snd y)) \<and> (fst y < 0 \<or> alloc_failed (evs @ evs') \<or> pd_lver (fst (snd y)) = L))
        (if rv \<noteq> 0 then Ret (rv, pd, tk)
         else ballot_phase1 tk N (size_t (ballot_iobuf_len tk N)) (zero_dblock\<lparr>pd_mbal := mbal, pd_lver := L, pd_checksum := 0\<rparr>))"
      using phase1 [where P = "\<lambda>evs'. alloc_failed (evs @ evs')"] by auto
  qed
qed

section \<open>Reading leaders\<close>

lemma adds_read_sectors:
  assumes "\<And>rv d evs. rv < 0 \<Longrightarrow> Q (rv, d) evs"
    and "\<And>n m b. n = 512 \<or> n = 4096 \<Longrightarrow> length b = n \<Longrightarrow>
      Q (0, take (length data) b) [E_memalign n 0 m, E_read disk (sd_offset disk + nr * word_of_int ss) n 0 b]"
  shows "adds no_write Q (read_sectors disk ss nr 1 data io)"
proof -
  have "size_t (sint (word_of_int ss :: u32)) = 512 \<or> size_t (sint (word_of_int ss :: u32)) = 4096" if "ss = 512 \<or> ss = 4096"
    using that by auto
  with assms show ?thesis by (auto simp: read_sectors_def Let_def intro!: adds_calls)
qed

lemma adds_read_leader:
  "adds no_write (\<lambda>r evs. fst r < 0 \<or> fst r = 0 \<and> fst (snd r) \<in> set (records_read evs) \<and> leader_ok (fst (snd r))) (read_leader tk disk lr c)"
  unfolding read_leader_def
proof (rule adds_uninit)
  fix b :: bytes
  assume b: "length b = leader_size"
  have "adds no_write (\<lambda>r evs. fst r < 0 \<or> fst r = 0 \<and> leader_record_in (snd r) \<in> set (records_read evs) \<and> leader_ok (leader_record_in (snd r)))
      (read_sectors disk (tk_sector_size tk) 0 1 b (ioto tk))"
    by (rule adds_read_sectors) (use b leader_in_take leader_ok_in in auto)
  then show "adds no_write (\<lambda>x evs. fst x < 0 \<or> fst x = 0 \<and> fst (snd x) \<in> set (records_read (E_uninit b # evs)) \<and> leader_ok (fst (snd x)))
      (if tk_sector_size tk = 0 then Ret (- EINVAL, lr, c)
       else bnd (read_sectors disk (tk_sector_size tk) 0 1 b (ioto tk)) (\<lambda>(rv, lr_end). Ret (rv, leader_record_in lr_end, leader_checksum lr_end)))"
    by (auto intro!: adds_bnd)
qed simp

text \<open>The leaders that were read and passed the verification of the token.\<close>

definition verified_leader :: "token \<Rightarrow> leader_record \<Rightarrow> bool" where
  "verified_leader tk l \<longleftrightarrow> verify_leader_result tk l (lr_checksum l) = SANLK_OK"

definition verified_reads :: "token \<Rightarrow> daemon event list \<Rightarrow> leader_record list" where
  "verified_reads tk hist = filter (verified_leader tk) (records_read hist)"

lemma verified_reads_append [simp]:
  "verified_reads tk [] = []" "verified_reads tk (hist @ hist') = verified_reads tk hist @ verified_reads tk hist'"
  "read_record ev = None \<Longrightarrow> verified_reads tk (ev # hist) = verified_reads tk hist"
  by (simp_all add: verified_reads_def)

lemma verified_leaderD:
  assumes "verified_leader tk l"
  shows "lr_magic l = PAXOS_DISK_MAGIC" "strneq NAME_ID_SIZE (lr_space_name l) (r_lockspace_name (tk_r tk))"
  using assms by (simp_all add: verified_leader_def verify_leader_result_def split: if_splits)

lemma verified_reads_verified: "l \<in> set (verified_reads tk hist) \<Longrightarrow> verified_leader tk l"
  by (simp add: verified_reads_def)

lemma adds_verify_leader:
  "adds no_write (\<lambda>rv evs. rv < 0 \<or> rv = SANLK_OK \<and> verified_leader tk lr) (verify_leader tk disk lr c)"
proof -
  have r: "verify_leader_result tk lr c < 0 \<or> verify_leader_result tk lr c = SANLK_OK \<and> verified_leader tk lr"
    by (simp add: verify_leader_result_def verified_leader_def)
  have "adds no_write (\<lambda>_ _. True) (read_sectors disk (tk_sector_size tk) 0 1 (replicate leader_size 0) 1)"
    by (rule adds_read_sectors) auto
  with r show ?thesis by (auto simp: verify_leader_def verify_leader_gen_def Let_def intro!: adds_bnd)
qed

lemma count_rep_nth:
  "length (count_rep ls rs l) = length rs"
  "i < length rs \<Longrightarrow> length ls = length rs \<Longrightarrow> count_rep ls rs l ! i = rs ! i \<or> leaders_match l (ls ! i)"
proof -
  show "length (count_rep ls rs l) = length rs" by (induction ls rs l rule: count_rep.induct) auto
  show "i < length rs \<Longrightarrow> length ls = length rs \<Longrightarrow> count_rep ls rs l ! i = rs ! i \<or> leaders_match l (ls ! i)"
  proof (induction ls rs l arbitrary: i rule: count_rep.induct)
    case (1 x ls r rs l)
    then show ?case by (cases i) auto
  qed auto
qed

lemma find_majority_Some:
  "find_majority n ls rs = Some l \<Longrightarrow> \<exists>i < length ls. i < length rs \<and> ls ! i = l \<and> majority_disks n (rs ! i)"
proof (induction n ls rs rule: find_majority.induct)
  case (1 n x ls r rs)
  then show ?case by (auto split: if_splits intro: exI [of _ 0] exI [of _ "Suc _"])
qed auto

text \<open>
  The initial read.  Its result is a leader that was read, unless an allocation failed: the positive error
  number of \<open>posix_memalign\<close> is not taken for an error.
\<close>

lemma adds_lease_read_one:
  "adds no_write (\<lambda>r evs. fst r < 0 \<or> alloc_failed evs \<or> fst (snd r) \<in> set (verified_reads tk evs))
    (lease_read_one tk disk l m)"
proof -
  have "adds no_write (\<lambda>r evs. fst r < 0 \<or> l' = fst (snd r) \<and> verified_leader tk l')
      (bnd (verify_leader tk disk l' c) (\<lambda>rv. if rv < 0 then Ret (rv, l', m)
         else case lease_scan ss iobuf qs rv 0 of (rv, tmp) \<Rightarrow> if rv < 0 then Ret (rv, l', m) else Ret (rv, l', tmp)))" for l' c ss iobuf qs
    by (rule adds_bnd [OF adds_verify_leader]) (auto split: prod.splits)
  note verify = adds_mono [OF this, of no_write]
  have rec: "leader_record_in (take leader_size b) = leader_record_in b" for b
    by (cases "leader_size \<le> length b") (simp_all add: leader_in_take)
  show ?thesis unfolding lease_read_one_def Let_def rec
    by (auto intro!: adds_calls verify simp: rec verified_reads_def)
qed

definition read_so_far :: "leader_record set \<Rightarrow> leader_record list \<Rightarrow> nat list \<Rightarrow> bool" where
  "read_so_far R leaders reps \<longleftrightarrow> length leaders = length reps \<and>
    (\<forall>i < length leaders. leaders ! i \<in> R \<or> leaders ! i = zero_leader \<and> reps ! i = 0)"

lemma read_so_far_failed: "read_so_far R leaders reps \<Longrightarrow> read_so_far (R \<union> R') (leaders @ [zero_leader]) (reps @ [0])"
  by (auto simp: read_so_far_def nth_append less_Suc_eq)

lemma read_so_far_read:
  assumes "read_so_far R leaders reps" and "l \<in> R'" and "verified_leader tk l"
  shows "read_so_far (R \<union> R') (leaders @ [l]) (count_rep leaders reps l @ [1])"
proof -
  have "\<not> leaders_match l zero_leader" using verified_leaderD(1) [OF assms(3)] by (simp add: leaders_match_def zero_leader_def)
  then show ?thesis using assms count_rep_nth [where ls = leaders and rs = reps and l = l]
    unfolding read_so_far_def by (auto simp: nth_append less_Suc_eq) metis
qed

lemma adds_lease_read_num_loop:
  "failed \<or> read_so_far R leaders reps \<Longrightarrow>
    adds no_write (\<lambda>r evs. failed \<or> alloc_failed evs \<or> read_so_far (R \<union> set (verified_reads tk evs)) (fst (snd r)) (fst (snd (snd r))))
      (lease_read_num_loop tk disks l m leaders reps nr mbal rv)"
proof (induction disks arbitrary: l m leaders reps nr mbal rv R failed)
  case (Cons disk disks)
  show ?case unfolding lease_read_num_loop.simps
  proof (rule adds_bnd [OF adds_lease_read_one])
    fix r :: "int \<times> leader_record \<times> u64" and evs
    obtain rv1 l1 m1 where r: "r = (rv1, l1, m1)" by (cases r)
    assume "fst r < 0 \<or> alloc_failed evs \<or> fst (snd r) \<in> set (verified_reads tk evs)"
    then have one: "rv1 < 0 \<or> alloc_failed evs \<or> l1 \<in> set (verified_reads tk evs)" by (simp add: r)
    have "(failed \<or> alloc_failed evs) \<or> read_so_far (R \<union> set (verified_reads tk evs)) (leaders @ [zero_leader]) (reps @ [0])"
      using Cons.prems read_so_far_failed by blast
    note bad = Cons.IH [OF this]
    have good: "(failed \<or> alloc_failed evs) \<or> read_so_far (R \<union> set (verified_reads tk evs)) (leaders @ [l1]) (count_rep leaders reps l1 @ [1])" if "\<not> rv1 < 0"
      using Cons.prems one that read_so_far_read [of R leaders reps l1 "set (verified_reads tk evs)" tk] verified_reads_verified by blast
    show "adds no_write (\<lambda>y evs'. failed \<or> alloc_failed (evs @ evs') \<or>
          read_so_far (R \<union> set (verified_reads tk (evs @ evs'))) (fst (snd y)) (fst (snd (snd y))))
        (case r of (rv, leader_one, mbal_one) \<Rightarrow>
          if rv < 0 then lease_read_num_loop tk disks leader_one mbal_one (leaders @ [zero_leader]) (reps @ [0]) nr mbal rv
          else lease_read_num_loop tk disks leader_one mbal_one (leaders @ [leader_one]) (count_rep leaders reps leader_one @ [1]) (nr + 1)
            (if mbal = 0 \<or> mbal_one > mbal then mbal_one else mbal) rv)"
      unfolding r using adds_mono [OF bad, of no_write] adds_mono [OF Cons.IH [OF good], of no_write]
      by (auto simp: Un_assoc)
  qed
qed simp

lemma read_so_far_majority: "read_so_far R leaders reps \<Longrightarrow> find_majority n leaders reps = Some l \<Longrightarrow> l \<in> R"
  using find_majority_Some by (fastforce simp: read_so_far_def majority_disks_iff)

lemma adds_lease_read_num:
  "adds no_write (\<lambda>r evs. fst r < 0 \<or> alloc_failed evs \<or> fst (snd r) \<in> set (verified_reads tk evs)) (lease_read_num tk l m)"
proof -
  have start: "False \<or> read_so_far {} [] []" by (simp add: read_so_far_def)
  have "adds no_write (\<lambda>r evs. fst r < 0 \<or> alloc_failed evs \<or> fst (snd r) \<in> set (verified_reads tk evs))
      (bnd (lease_read_num_loop tk (tk_disks tk) l1 m1 [] [] 0 0 0)
        (\<lambda>(rv, leaders, reps, num_reads, tmp_mbal).
          if num_reads = 0 then Ret (SANLK_DBLOCK_READ, l, tmp_mbal)
          else case find_majority (num_disks tk) leaders reps of
            None \<Rightarrow> Ret (SANLK_LEADER_DIFF, l, tmp_mbal)
          | Some leader \<Rightarrow> Ret (rv, leader, tmp_mbal)))" for l1 m1
    by (rule adds_bnd [OF adds_lease_read_num_loop [OF start]])
      (auto split: option.splits prod.splits dest: read_so_far_majority)
  note loop = this
  show ?thesis unfolding lease_read_num_def malloc_def by (auto intro!: adds_calls loop)
qed

lemma adds_paxos_lease_read:
  "adds no_write (\<lambda>r evs. fst r < 0 \<or> alloc_failed evs \<or> fst (snd r) \<in> set (verified_reads tk evs)) (paxos_lease_read tk l m)"
  using adds_lease_read_num adds_lease_read_one by (simp add: paxos_lease_read_def)

text \<open>
  The leader that is returned has, in the compared fields, the contents of a leader that was read and
  verified; on several disks it need not be that record itself.
\<close>

definition matches_verified :: "token \<Rightarrow> daemon event list \<Rightarrow> leader_record \<Rightarrow> bool" where
  "matches_verified tk hist l \<longleftrightarrow> list_ex (\<lambda>v. leader_ok v \<and> leaders_match v l) (verified_reads tk hist)"

lemma matches_verifiedI: "l \<in> set (verified_reads tk hist) \<Longrightarrow> leader_ok l \<Longrightarrow> matches_verified tk hist l"
  by (auto simp: matches_verified_def list_ex_iff leaders_match_def)

definition reps_verified :: "token \<Rightarrow> daemon event list \<Rightarrow> leader_record list \<Rightarrow> nat list \<Rightarrow> bool" where
  "reps_verified tk hist leaders reps \<longleftrightarrow> length leaders = length reps \<and>
    (\<forall>i < length leaders. reps ! i = 0 \<or> matches_verified tk hist (leaders ! i))"

lemma reps_verified_failed: "reps_verified tk hist leaders reps \<Longrightarrow> reps_verified tk (hist @ evs) (leaders @ [l]) (reps @ [0])"
  by (auto simp: reps_verified_def nth_append less_Suc_eq matches_verified_def)

lemma reps_verified_read:
  assumes "reps_verified tk hist leaders reps" and "l \<in> set (verified_reads tk evs)" and "leader_ok l"
  shows "reps_verified tk (hist @ evs) (leaders @ [l]) (count_rep leaders reps l @ [1])"
proof -
  have l: "matches_verified tk (hist @ evs) x" if "leaders_match l x" for x
    using assms(2,3) that by (auto simp: matches_verified_def list_ex_iff)
  have old: "matches_verified tk (hist @ evs) x" if "matches_verified tk hist x" for x
    using that by (auto simp: matches_verified_def)
  have "leaders_match l l" by (simp add: leaders_match_def)
  then show ?thesis using assms(1) count_rep_nth [where ls = leaders and rs = reps and l = l] l old
    unfolding reps_verified_def by (auto simp: nth_append less_Suc_eq) metis
qed

lemma adds_leader_read_num_loop:
  "reps_verified tk hist leaders reps \<Longrightarrow>
    adds no_write (\<lambda>r evs. reps_verified tk (hist @ evs) (fst r) (fst (snd r))) (leader_read_num_loop tk disks leaders reps nr)"
proof (induction disks arbitrary: hist leaders reps nr)
  case (Cons disk disks)
  show ?case unfolding leader_read_num_loop.simps
  proof (rule adds_bnd [OF adds_read_leader])
    fix r :: "int \<times> leader_record \<times> u32" and evs :: "daemon event list"
    obtain rv l c where r: "r = (rv, l, c)" by (cases r)
    assume "fst r < 0 \<or> fst r = 0 \<and> fst (snd r) \<in> set (records_read evs) \<and> leader_ok (fst (snd r))"
    then have read: "rv < 0 \<or> l \<in> set (records_read evs) \<and> leader_ok l" by (auto simp: r)
    have failed: "adds no_write (\<lambda>y evs''. reps_verified tk (hist @ evs' @ evs'') (fst y) (fst (snd y)))
        (leader_read_num_loop tk disks (leaders @ [l]) (reps @ [0]) nr)" for evs'
      using Cons.IH [OF reps_verified_failed [OF Cons.prems, of evs']] by simp
    have good: "adds no_write (\<lambda>y evs''. reps_verified tk (hist @ (evs @ evs') @ evs'') (fst y) (fst (snd y)))
        (leader_read_num_loop tk disks (leaders @ [l]) (count_rep leaders reps l @ [1]) (nr + 1))"
      if "\<not> rv < 0" "verified_leader tk l" for evs'
    proof -
      have "l \<in> set (verified_reads tk (evs @ evs'))" "leader_ok l" using read that by (auto simp: verified_reads_def)
      from Cons.IH [OF reps_verified_read [OF Cons.prems this]] show ?thesis by simp
    qed
    have "adds no_write (\<lambda>y evs'. reps_verified tk (hist @ evs @ evs') (fst y) (fst (snd y)))
        (bnd (verify_leader tk disk l c) (\<lambda>rv.
          if rv < 0 then leader_read_num_loop tk disks (leaders @ [l]) (reps @ [0]) nr
          else leader_read_num_loop tk disks (leaders @ [l]) (count_rep leaders reps l @ [1]) (nr + 1)))" if "\<not> rv < 0"
      by (rule adds_bnd [OF adds_verify_leader]) (use failed [of "evs @ _"] good [OF that] in auto)
    then show "adds no_write (\<lambda>y evs'. reps_verified tk (hist @ evs @ evs') (fst y) (fst (snd y)))
        (case r of (rv, leader, checksum) \<Rightarrow>
          if rv < 0 then leader_read_num_loop tk disks (leaders @ [leader]) (reps @ [0]) nr
          else bnd (verify_leader tk disk leader checksum) (\<lambda>rv.
            if rv < 0 then leader_read_num_loop tk disks (leaders @ [leader]) (reps @ [0]) nr
            else leader_read_num_loop tk disks (leaders @ [leader]) (count_rep leaders reps leader @ [1]) (nr + 1)))"
      using failed [of evs] by (simp add: r)
  qed
qed simp

lemma reps_verified_majority: "reps_verified tk hist leaders reps \<Longrightarrow> find_majority n leaders reps = Some l \<Longrightarrow> matches_verified tk hist l"
  using find_majority_Some by (fastforce simp: reps_verified_def majority_disks_iff)

lemma adds_leader_read_verified:
  "adds no_write (\<lambda>r evs. fst r < 0 \<or> matches_verified tk evs (snd r)) (paxos_lease_leader_read tk l)"
proof -
  have start: "reps_verified tk [] [] []" by (simp add: reps_verified_def)
  have quiet: "matches_verified tk (ev # evs) x = matches_verified tk evs x" if "read_record ev = None" for ev evs x
    using that by (simp add: matches_verified_def)
  have num: "adds no_write (\<lambda>r evs. fst r < 0 \<or> matches_verified tk evs (snd r))
      (bnd (leader_read_num_loop tk (tk_disks tk) [] [] 0) (\<lambda>(leaders, reps, num_reads).
          if \<not> majority_disks (num_disks tk) num_reads then Ret (SANLK_LEADER_READ, zero_leader)
          else case find_majority (num_disks tk) leaders reps of
            None \<Rightarrow> Ret (SANLK_LEADER_DIFF, zero_leader)
          | Some leader \<Rightarrow> Ret (SANLK_OK, leader)))"
    by (rule adds_bnd [OF adds_leader_read_num_loop [OF start]])
      (auto split: option.splits prod.splits dest: reps_verified_majority)
  have one: "adds no_write (\<lambda>r evs. fst r < 0 \<or> matches_verified tk evs (snd r)) (leader_read_one tk l)"
    unfolding leader_read_one_def
  proof (rule adds_bnd [OF adds_read_leader])
    fix r :: "int \<times> leader_record \<times> u32" and evs :: "daemon event list"
    assume "fst r < 0 \<or> fst r = 0 \<and> fst (snd r) \<in> set (records_read evs) \<and> leader_ok (fst (snd r))"
    then show "adds no_write (\<lambda>y evs'. fst y < 0 \<or> matches_verified tk (evs @ evs') (snd y))
        (case r of (rv, leader, checksum) \<Rightarrow> if rv < 0 then Ret (rv, l)
          else bnd (verify_leader tk (disk0 tk) leader checksum) (\<lambda>rv. Ret (rv, leader)))"
      by (cases r) (auto intro!: adds_bnd [OF adds_verify_leader] matches_verifiedI simp: verified_reads_def)
  qed
  show ?thesis using num one
    unfolding paxos_lease_leader_read_def leader_read_num_def malloc_def by (auto intro!: adds_calls simp: quiet)
qed

lemma adds_leader_read: "adds no_write (\<lambda>_ _. True) (paxos_lease_leader_read tk l)"
  by (rule adds_mono [OF adds_leader_read_verified]) auto

section \<open>Writing the leader\<close>

definition leader_write :: "u64 \<Rightarrow> daemon event \<Rightarrow> bool" where
  "leader_write L ev = (case ev of E_write d off b rv \<Rightarrow> lr_lver (leader_record_in b) = L | _ \<Rightarrow> True)"

lemma leader_write_simps [simp]: "leader_write L (E_write d off b rv) \<longleftrightarrow> lr_lver (leader_record_in b) = L"
  "leader_write L (E_memalign n m b)" "leader_write L (E_uninit b)" "leader_write L (E_read d off n rv b)"
  "leader_write L (E_open p rv)" "leader_write L (E_time t)" "leader_write L (E_sleep n)" "leader_write L (E_usleep i)" "leader_write L (E_rand i)"
  "leader_write L (E_shared s)" "leader_write L (E_call c args rv)"
  by (simp_all add: leader_write_def)

lemma leader_seal_fst: "fst (leader_seal l junk) = l\<lparr>lr_checksum := lr_checksum (fst (leader_seal l junk))\<rparr>"
  by (simp add: leader_seal_def Let_def)

lemma leader_seal_lver: "lr_lver (leader_record_in (snd (leader_seal l junk) @ rest)) = lr_lver l"
proof -
  define pre where "pre = le_put 4 (lr_magic l) @ le_put 4 (lr_version l) @ le_put 4 (lr_flags l) @
     le_put 4 (lr_sector_size l) @ le_put 8 (lr_num_hosts l) @ le_put 8 (lr_max_hosts l) @
     le_put 8 (lr_owner_id l) @ le_put 8 (lr_owner_generation l)"
  obtain post where out: "leader_record_out l junk = pre @ le_put 8 (lr_lver l) @ post"
    by (simp add: leader_record_out_def pre_def)
  have "length pre = 48" by (simp add: pre_def)
  then show ?thesis by (simp add: leader_seal_def Let_def out splice_at_def leader_record_in_def slice_append_left slice_append_right slice_all)
qed

text \<open>A write of the leader \<open>l\<close>, converted with its checksum.\<close>

definition leader_written :: "leader_record \<Rightarrow> daemon event \<Rightarrow> bool" where
  "leader_written l ev = (case ev of E_write d off b rv \<Rightarrow> (\<exists>rest. b = snd (leader_seal l (replicate leader_size 0)) @ rest) | _ \<Rightarrow> True)"

lemma leader_written_quiet: "no_write ev \<Longrightarrow> leader_written l ev"
  by (cases ev) (simp_all add: leader_written_def)

lemma leader_written_lver: "leader_written l ev \<Longrightarrow> leader_write (lr_lver l) ev"
  by (cases ev) (auto simp: leader_written_def leader_seal_lver)

lemma leader_written_checksum: "leader_written (l\<lparr>lr_checksum := c\<rparr>) = leader_written l"
proof -
  have "snd (leader_seal (l\<lparr>lr_checksum := c\<rparr>) junk) = snd (leader_seal l junk)" for junk
    by (simp add: leader_seal_def Let_def leader_record_out_def)
  then show ?thesis by (simp add: leader_written_def fun_eq_iff split: event.split)
qed

lemma leader_written_record:
  assumes "leader_written l (E_write d off b rv)" and "leader_ok l"
  shows "\<exists>c. leader_record_in b = l\<lparr>lr_checksum := c\<rparr>"
proof -
  let ?e = "snd (leader_seal l (replicate leader_size 0))"
  obtain rest where b: "b = ?e @ rest" using assms(1) by (auto simp: leader_written_def)
  have "length ?e = leader_size" using leader_seal_length [OF assms(2)] by simp
  then have "leader_record_in b = fst (leader_seal l (replicate leader_size 0))"
    using leader_disk.dec_prefix leader_seal_in [OF assms(2)] by (simp add: b)
  then show ?thesis using leader_seal_fst [of l "replicate leader_size 0"] by metis
qed

lemma adds_write_leader:
  "adds (leader_written l) (\<lambda>r _. \<exists>c. snd r = l\<lparr>lr_checksum := c\<rparr>) (write_leader tk disk l)"
proof -
  obtain l' lr_end where seal: "leader_seal l (replicate leader_size 0) = (l', lr_end)" by fastforce
  have l': "l' = l\<lparr>lr_checksum := lr_checksum l'\<rparr>" using leader_seal_fst [of l "replicate leader_size 0"] seal by simp
  show ?thesis unfolding write_leader_def seal
    by (simp, rule adds_bnd [where Q = "\<lambda>_ _. True"], rule adds_write_sector)
      (use l' in \<open>auto simp: leader_written_def seal\<close>)
qed

lemma adds_write_new_leader_loop:
  "adds (leader_written l) (\<lambda>r _. \<exists>c. snd r = l\<lparr>lr_checksum := c\<rparr>) (write_new_leader_loop tk disks l nw to rv)"
proof (induction disks arbitrary: l nw to rv)
  case Nil
  have "\<exists>c. l = l\<lparr>lr_checksum := c\<rparr>" by (rule exI [of _ "lr_checksum l"]) simp
  then show ?case by simp
next
  case (Cons disk disks)
  show ?case unfolding write_new_leader_loop.simps
  proof (rule adds_bnd [OF adds_write_leader])
    fix r :: "int \<times> leader_record" and evs :: "daemon event list"
    assume "\<exists>c. snd r = l\<lparr>lr_checksum := c\<rparr>"
    then obtain c rv where r: "r = (rv, l\<lparr>lr_checksum := c\<rparr>)" by (cases r) auto
    show "adds (leader_written l) (\<lambda>y evs'. \<exists>c. snd y = l\<lparr>lr_checksum := c\<rparr>)
        (case r of (rv, nl) \<Rightarrow> write_new_leader_loop tk disks nl (if rv < 0 then nw else nw + 1) (to \<or> rv = SANLK_AIO_TIMEOUT) rv)"
      using Cons.IH [of "l\<lparr>lr_checksum := c\<rparr>"] by (simp add: r leader_written_checksum)
  qed
qed

lemma adds_write_new_leader_bytes:
  "adds (leader_written l) (\<lambda>r _. \<exists>c. snd r = l\<lparr>lr_checksum := c\<rparr>) (write_new_leader tk l)"
  unfolding write_new_leader_def by (rule adds_write_new_leader_loop)

lemma adds_write_new_leader:
  "adds (leader_write (lr_lver l)) (\<lambda>r _. \<exists>c. snd r = l\<lparr>lr_checksum := c\<rparr>) (write_new_leader tk l)"
  by (rule adds_mono [OF adds_write_new_leader_bytes leader_written_lver])

end
