(* ===== verification/Acquire_Theorems.thy ===== *)
theory Acquire_Theorems
  imports Acquire_Calls "HOL-Library.Sublist"
begin

text \<open>
  When \<open>paxos_lease_acquire\<close> writes to a lease: only when its owner is gone, under every behaviour of the
  disks and of the other threads.
\<close>

section \<open>When a lease may be taken over\<close>

text \<open>The records that were read from one place of one disk, in order.\<close>

definition slot_record :: "sync_disk \<Rightarrow> u64 \<Rightarrow> daemon event \<Rightarrow> leader_record option" where
  "slot_record disk pos ev = (case ev of E_read d off n rv b \<Rightarrow>
     if d = disk \<and> off = pos \<and> rv = 0 then Some (leader_record_in b) else None | _ \<Rightarrow> None)"

definition slot_records :: "sync_disk \<Rightarrow> u64 \<Rightarrow> daemon event list \<Rightarrow> leader_record list" where
  "slot_records disk pos hist = List.map_filter (slot_record disk pos) hist"

lemma slot_records_append [simp]:
  "slot_records disk pos [] = []" "slot_records disk pos (hist @ hist') = slot_records disk pos hist @ slot_records disk pos hist'"
  by (simp_all add: slot_records_def map_filter_def)

text \<open>The delta lease of the owner of \<open>l\<close>: its place on the disk of the lockspace.\<close>

definition delta_slot :: "leader_record \<Rightarrow> sync_disk \<Rightarrow> int \<Rightarrow> u64" where
  "delta_slot l disk ss = sd_offset disk + (lr_owner_id l - 1) * word_of_int ss"

text \<open>The disk of the lockspace, as the daemon knows it.\<close>

definition lockspace_disk_known :: "token \<Rightarrow> daemon event list \<Rightarrow> sync_disk \<Rightarrow> int \<Rightarrow> bool" where
  "lockspace_disk_known tk hist disk ss \<longleftrightarrow> (\<exists>dm d. E_shared dm \<in> set hist \<and>
     snd (lockspace_disk dm (r_lockspace_name (tk_r tk))) = Some (d, ss) \<and> sd_path disk = sd_path d \<and> sd_offset disk = sd_offset d)"

text \<open>What the daemon knows about the owner of \<open>l\<close>; nothing when it does not watch that host.\<close>

definition owner_status :: "leader_record \<Rightarrow> daemon event list \<Rightarrow> host_status \<Rightarrow> bool" where
  "owner_status l hist hs \<longleftrightarrow> (\<exists>dm. E_shared dm \<in> set hist \<and>
     (case snd (host_info dm (lr_space_name l) (lr_owner_id l)) of None \<Rightarrow> True | Some hs' \<Rightarrow> hs = hs'))"

text \<open>
  The waiting for the owner starts at time \<open>ws\<close> with the event \<open>ev\<close>, with the timestamps \<open>seen\<close> already
  known: either now, or when the renewal thread last saw the owner alive.
\<close>

definition wait_begins :: "leader_record \<Rightarrow> host_status \<Rightarrow> daemon event \<Rightarrow> u64 \<Rightarrow> u64 list \<Rightarrow> bool" where
  "wait_begins l hs ev ws seen \<longleftrightarrow> ev = E_time ws \<and> seen = [] \<or>
     (\<exists>dm. ev = E_shared dm \<and> snd (host_info dm (lr_space_name l) (lr_owner_id l)) = Some hs \<and> ws = hs_last_live hs \<and> seen = [hs_timestamp hs])"

text \<open>
  The owner did not renew its delta lease for longer than its host-dead time: since the start of the
  waiting the same timestamp was seen twice, and the clock went past the limit.
\<close>

definition owner_silent :: "com_options \<Rightarrow> leader_record \<Rightarrow> sync_disk \<Rightarrow> int \<Rightarrow> host_status \<Rightarrow> daemon event list \<Rightarrow> bool" where
  "owner_silent com l disk ss hs hist \<longleftrightarrow> (\<exists>past ev later ws seen t now. hist = past @ ev # later \<and> wait_begins l hs ev ws seen \<and>
     subseq [t, t] (seen @ map lr_timestamp (slot_records disk (delta_slot l disk ss) later)) \<and> E_time now \<in> set later \<and>
     now - ws > word_of_int (calc_host_dead_seconds com (uint (hs_io_timeout hs))))"

text \<open>The delta lease of the owner was read free, taken by another host, or with a later generation.\<close>

definition owner_left :: "leader_record \<Rightarrow> leader_record list \<Rightarrow> bool" where
  "owner_left l rs \<longleftrightarrow> list_ex (\<lambda>r. lr_timestamp r = LEASE_FREE \<or> lr_owner_id r \<noteq> lr_owner_id l \<or>
     lr_owner_generation r > lr_owner_generation l) rs"

text \<open>The host block of the owner was read with the mark of a release that another host's commit overwrote.\<close>

definition dblock_was_read :: "sync_disk \<Rightarrow> u64 \<Rightarrow> daemon event list \<Rightarrow> paxos_dblock \<Rightarrow> bool" where
  "dblock_was_read disk h hist pd \<longleftrightarrow> (\<exists>ss n b. (ss = 512 \<or> ss = 4096) \<and>
     E_read disk (sd_offset disk + (2 + h - 1) * ss) n 0 b \<in> set hist \<and> pd = paxos_dblock_in b)"

definition owner_released :: "token \<Rightarrow> leader_record \<Rightarrow> daemon event list \<Rightarrow> bool" where
  "owner_released tk l hist \<longleftrightarrow> lr_write_id l \<noteq> lr_owner_id l \<and>
     (\<exists>pd. dblock_was_read (disk0 tk) (lr_owner_id l) hist pd \<and> pd_flags pd AND DBLOCK_FL_RELEASED \<noteq> 0)"

definition owner_lost :: "com_options \<Rightarrow> token \<Rightarrow> daemon event list \<Rightarrow> leader_record \<Rightarrow> bool" where
  "owner_lost com tk hist l \<longleftrightarrow> owner_is_gone tk l \<or> owner_released tk l hist \<or>
     (\<exists>disk ss hs. lockspace_disk_known tk hist disk ss \<and> owner_status l hist hs \<and>
       (owner_left l (slot_records disk (delta_slot l disk ss) hist) \<or> owner_silent com l disk ss hs hist))"

text \<open>
  A write of \<open>paxos_lease_acquire\<close> is a host block or a leader for the version after that of a verified
  leader whose owner is lost, unless the caller forces it.  An allocation that failed breaks this: its
  positive error number is not taken for an error.
\<close>

definition acquire_write :: "com_options \<Rightarrow> token \<Rightarrow> u32 \<Rightarrow> daemon event list \<Rightarrow> daemon event \<Rightarrow> bool" where
  "acquire_write com tk flags past ev = (case ev of
     E_write d off b rv \<Rightarrow> alloc_failed past \<or>
       list_ex (\<lambda>l. (flags AND PAXOS_ACQUIRE_FORCE \<noteq> 0 \<or> owner_lost com tk past l) \<and>
         (pd_lver (paxos_dblock_in b) = lr_lver l + 1 \<or> lr_lver (leader_record_in b) = lr_lver l + 1)) (verified_reads tk past)
   | _ \<Rightarrow> True)"

section \<open>These conditions persist\<close>

lemma lockspace_disk_known_mono: "lockspace_disk_known tk hist disk ss \<Longrightarrow> lockspace_disk_known tk (hist @ evs) disk ss"
  by (auto simp: lockspace_disk_known_def)

lemma owner_status_mono: "owner_status l hist hs \<Longrightarrow> owner_status l (hist @ evs) hs"
  by (auto simp: owner_status_def)

lemma owner_silent_mono: "owner_silent com l disk ss hs hist \<Longrightarrow> owner_silent com l disk ss hs (hist @ evs)"
proof -
  assume "owner_silent com l disk ss hs hist"
  then obtain past ev later ws seen t now where "hist = past @ ev # later" and "wait_begins l hs ev ws seen" and
    two: "subseq [t, t] (seen @ map lr_timestamp (slot_records disk (delta_slot l disk ss) later))" and "E_time now \<in> set later" and
    "now - ws > word_of_int (calc_host_dead_seconds com (uint (hs_io_timeout hs)))"
    unfolding owner_silent_def by blast
  moreover have "subseq [t, t] (seen @ map lr_timestamp (slot_records disk (delta_slot l disk ss) (later @ evs)))"
    using list_emb_prefix [OF two, of "map lr_timestamp (slot_records disk (delta_slot l disk ss) evs)"] by simp
  ultimately show ?thesis unfolding owner_silent_def
    by (intro exI [of _ past] exI [of _ ev] exI [of _ "later @ evs"] exI [of _ ws] exI [of _ seen] exI [of _ t] exI [of _ now]) simp
qed

lemma owner_lost_mono: "owner_lost com tk hist l \<Longrightarrow> owner_lost com tk (hist @ evs) l"
proof -
  have "owner_released tk l (hist @ evs)" if "owner_released tk l hist"
    using that unfolding owner_released_def dblock_was_read_def by auto
  moreover have "owner_left l (rs @ rs')" if "owner_left l rs" for rs rs' using that by (simp add: owner_left_def)
  moreover assume "owner_lost com tk hist l"
  ultimately show ?thesis unfolding owner_lost_def slot_records_append
    by (elim disjE exE conjE; meson lockspace_disk_known_mono owner_status_mono owner_silent_mono)
qed

section \<open>The invariant of the jumps\<close>

text \<open>A ballot may run for the version after that of \<open>l\<close>.\<close>

definition run_state :: "com_options \<Rightarrow> token \<Rightarrow> u32 \<Rightarrow> daemon event list \<Rightarrow> leader_record \<Rightarrow> bool" where
  "run_state com tk flags hist l \<longleftrightarrow> l \<in> set (verified_reads tk hist) \<and> (flags AND PAXOS_ACQUIRE_FORCE \<noteq> 0 \<or> owner_lost com tk hist l)"

text \<open>We are waiting for the owner of \<open>l\<close>, since \<open>ws\<close>, and saw its timestamp \<open>lt\<close>, if it is not zero.\<close>

definition wait_since :: "daemon event list \<Rightarrow> leader_record \<Rightarrow> host_status \<Rightarrow> sync_disk \<Rightarrow> int \<Rightarrow> u64 \<Rightarrow> u64 \<Rightarrow> bool" where
  "wait_since hist l hs disk ss ws lt \<longleftrightarrow> (\<exists>past ev later seen. hist = past @ ev # later \<and> wait_begins l hs ev ws seen \<and>
     (lt = 0 \<or> lt \<in> set (seen @ map lr_timestamp (slot_records disk (delta_slot l disk ss) later))))"

definition wait_state ::
    "token \<Rightarrow> daemon event list \<Rightarrow> leader_record \<Rightarrow> host_status \<Rightarrow> sync_disk \<Rightarrow> int \<Rightarrow> u64 \<Rightarrow> u64 \<Rightarrow> bool" where
  "wait_state tk hist l hs disk ss ws lt \<longleftrightarrow> l \<in> set (verified_reads tk hist) \<and> lockspace_disk_known tk hist disk ss \<and>
     owner_status l hist hs \<and> wait_since hist l hs disk ss ws lt"

lemma run_state_mono: "run_state com tk flags hist l \<Longrightarrow> run_state com tk flags (hist @ evs) l"
  using owner_lost_mono by (auto simp: run_state_def)

lemma wait_since_mono: "wait_since hist l hs disk ss ws lt \<Longrightarrow> wait_since (hist @ evs) l hs disk ss ws lt"
proof -
  assume "wait_since hist l hs disk ss ws lt"
  then obtain past ev later seen where hist: "hist = past @ ev # later" and "wait_begins l hs ev ws seen"
    "lt = 0 \<or> lt \<in> set (seen @ map lr_timestamp (slot_records disk (delta_slot l disk ss) later))"
    unfolding wait_since_def by blast
  then show ?thesis unfolding wait_since_def
    by (intro exI [of _ past] exI [of _ ev] exI [of _ "later @ evs"] exI [of _ seen]) auto
qed

lemma wait_since_now: "wait_since (hist @ [E_time t]) l hs disk ss t 0"
  unfolding wait_since_def by (intro exI [of _ hist] exI [of _ "E_time t"] exI [of _ "[]"]) (simp add: wait_begins_def)

lemma wait_since_live:
  "snd (host_info dm (lr_space_name l) (lr_owner_id l)) = Some hs \<Longrightarrow>
    wait_since (hist @ [E_shared dm]) l hs disk ss (hs_last_live hs) (hs_timestamp hs)"
  unfolding wait_since_def
  by (intro exI [of _ hist] exI [of _ "E_shared dm"] exI [of _ "[]"] exI [of _ "[hs_timestamp hs]"]) (simp add: wait_begins_def)

lemma wait_state_mono: "wait_state tk hist l hs disk ss ws lt \<Longrightarrow> wait_state tk (hist @ evs) l hs disk ss ws lt"
  unfolding wait_state_def using lockspace_disk_known_mono owner_status_mono wait_since_mono by simp

definition point_state :: "com_options \<Rightarrow> token \<Rightarrow> u32 \<Rightarrow> acquire_point \<Rightarrow> acquire_vars \<Rightarrow> daemon event list \<Rightarrow> bool" where
  "point_state com tk flags pt aq hist \<longleftrightarrow>
     (case aq_host_id_disk aq of None \<Rightarrow> True | Some (disk, ss) \<Rightarrow> lockspace_disk_known tk hist disk ss) \<and>
     (case pt of Restart \<Rightarrow> True
      | Wait disk ss ws lt \<Rightarrow> wait_state tk hist (aq_cur_leader aq) (aq_hs aq) disk ss ws lt
      | Retry_ballot copy_cur_leader our_mbal \<Rightarrow> run_state com tk flags hist (aq_cur_leader aq))"

definition acquire_state :: "com_options \<Rightarrow> token \<Rightarrow> u32 \<Rightarrow> acquire_point \<Rightarrow> acquire_vars \<Rightarrow> daemon event list \<Rightarrow> bool" where
  "acquire_state com tk flags pt aq hist \<longleftrightarrow> each_event (acquire_write com tk flags) hist \<and> same_request tk (aq_tk aq) \<and>
     (alloc_failed hist \<or> point_state com tk flags pt aq hist)"

definition acquire_result :: "com_options \<Rightarrow> token \<Rightarrow> u32 \<Rightarrow> int \<times> acquire_vars \<Rightarrow> daemon event list \<Rightarrow> bool" where
  "acquire_result com tk flags r hist \<longleftrightarrow> each_event (acquire_write com tk flags) hist \<and> same_request tk (aq_tk (snd r)) \<and>
     (fst r = SANLK_OK \<longrightarrow> lr_owner_id (aq_leader_ret (snd r)) = tk_host_id tk)"

abbreviation acquire_runs :: "com_options \<Rightarrow> token \<Rightarrow> u32 \<Rightarrow> (int \<times> acquire_vars) sio \<Rightarrow> daemon event list \<Rightarrow> bool" where
  "acquire_runs com tk flags \<equiv> runs (acquire_result com tk flags) (each_event (acquire_write com tk flags))"

lemma acquire_write_quiet: "no_write ev \<Longrightarrow> acquire_write com tk flags past ev"
  by (cases ev) (simp_all add: acquire_write_def)

lemma each_quiet:
  "list_all no_write evs \<Longrightarrow> each_event (acquire_write com tk flags) (hist @ evs) \<longleftrightarrow> each_event (acquire_write com tk flags) hist"
  unfolding each_event_append by (auto simp flip: each_event_list_all elim!: each_event_mono intro: acquire_write_quiet)

lemma each_version:
  assumes "each_event (acquire_write com tk flags) hist"
    and "alloc_failed hist \<or> run_state com tk flags hist l \<and>
      list_all (\<lambda>ev. lver_write (lr_lver l + 1) ev \<or> leader_write (lr_lver l + 1) ev) evs"
  shows "each_event (acquire_write com tk flags) (hist @ evs)"
proof -
  have "acquire_write com tk flags (hist @ past) ev"
    if "alloc_failed hist \<or> run_state com tk flags hist l \<and> (lver_write (lr_lver l + 1) ev \<or> leader_write (lr_lver l + 1) ev)" for past ev
    using that run_state_mono [of com tk flags hist l past]
    by (cases ev) (auto simp: acquire_write_def run_state_def list_ex_iff)
  moreover have "each_event (\<lambda>_ ev. alloc_failed hist \<or> run_state com tk flags hist l \<and>
      (lver_write (lr_lver l + 1) ev \<or> leader_write (lr_lver l + 1) ev)) evs"
    using assms(2) by (auto simp: each_event_list_all list_all_iff)
  ultimately show ?thesis using assms(1) unfolding each_event_append by (auto elim!: each_event_mono)
qed

lemma same_request_verified:
  "same_request tk tk' \<Longrightarrow> verified_reads tk' hist = verified_reads tk hist" "same_request tk tk' \<Longrightarrow> owner_is_gone tk' l = owner_is_gone tk l"
  by (simp_all add: same_request_def verified_reads_def verified_leader_def verify_leader_result_def owner_is_gone_def cong: filter_cong)

lemma point_state_mono: "point_state com tk flags pt aq hist \<Longrightarrow> point_state com tk flags pt aq (hist @ evs)"
  using lockspace_disk_known_mono wait_state_mono run_state_mono
  by (auto simp: point_state_def split: option.splits acquire_point.splits)

lemma acquire_state_quiet:
  "acquire_state com tk flags pt aq hist \<Longrightarrow> list_all no_write evs \<Longrightarrow> acquire_state com tk flags pt aq (hist @ evs)"
  using point_state_mono by (auto simp: acquire_state_def each_quiet)

lemma acquire_stops:
  "acquire_state com tk flags pt aq hist \<Longrightarrow> rv \<noteq> SANLK_OK \<Longrightarrow> acquire_result com tk flags (rv, aq) hist"
  by (simp add: acquire_state_def acquire_result_def)

lemma acquire_state_shared:
  "acquire_state com tk flags pt aq hist \<Longrightarrow> acquire_state com tk flags pt aq (hist @ [E_shared dm])"
  "acquire_state com tk flags pt aq hist \<Longrightarrow> acquire_state com tk flags pt aq (hist @ [E_time t])"
  "acquire_state com tk flags pt aq hist \<Longrightarrow> acquire_state com tk flags pt aq (hist @ [E_sleep n])"
  using acquire_state_quiet [of com tk flags pt aq hist "[_]"] by simp_all

lemma runs_acquire_run:
  assumes goto: "\<And>pt aq hist. acquire_state com tk flags pt aq hist \<Longrightarrow> acquire_runs com tk flags (goto pt aq) hist"
    and "acquire_state com tk flags pt aq hist" and "alloc_failed hist \<or> run_state com tk flags hist (aq_cur_leader aq)"
  shows "acquire_runs com tk flags (acquire_run goto c aq) hist"
  unfolding acquire_run_def by (rule goto) (use assms(2,3) in \<open>auto simp: acquire_state_def point_state_def\<close>)

text \<open>Before the waiting loop.\<close>

lemma runs_acquire_wait_start:
  assumes goto: "\<And>pt aq hist. acquire_state com tk flags pt aq hist \<Longrightarrow> acquire_runs com tk flags (goto pt aq) hist"
    and st: "acquire_state com tk flags Restart aq hist"
    and known: "alloc_failed hist \<or> aq_cur_leader aq \<in> set (verified_reads tk hist) \<and> lockspace_disk_known tk hist disk ss"
  shows "acquire_runs com tk flags (acquire_wait_start goto disk ss aq) hist"
proof -
  let ?l = "aq_cur_leader aq"
  have wait: "acquire_state com tk flags (Wait disk ss ws lt) (aq\<lparr>aq_hs := hs\<rparr>) (hist @ E_shared dm # evs)"
    if "list_all no_write evs" "owner_status ?l (hist @ E_shared dm # evs) hs" "wait_since (hist @ E_shared dm # evs) ?l hs disk ss ws lt"
    for ws lt hs dm evs
  proof -
    have "alloc_failed hist \<or> wait_state tk (hist @ E_shared dm # evs) ?l hs disk ss ws lt"
      using known that(2,3) lockspace_disk_known_mono [of tk hist disk ss "E_shared dm # evs"] by (auto simp: wait_state_def)
    then show ?thesis
      using acquire_state_quiet [OF st, of "E_shared dm # evs"] that(1) by (auto simp: acquire_state_def point_state_def)
  qed
  have status: "owner_status ?l (hist @ E_shared dm # evs) (case snd (host_info dm (lr_space_name ?l) (lr_owner_id ?l)) of Some hs \<Rightarrow> hs | None \<Rightarrow> aq_hs aq)"
    for dm evs unfolding owner_status_def by (rule exI [of _ dm]) (simp split: option.splits)
  have now: "wait_since (hist @ [E_shared dm, E_time t]) ?l hs disk ss t 0" for dm t hs
    using wait_since_now [of "hist @ [E_shared dm]"] by simp
  have some: "snd (host_info dm n h) = Some (the (snd (host_info dm n h)))" if "fst (host_info dm n h) = 0" for dm n h
    using that by (auto simp: host_info_def Let_def split: if_splits option.splits)
  show ?thesis unfolding acquire_wait_start_def Let_def case_prod_unfold runs.simps
  proof (intro allI)
    fix dm
    let ?i = "host_info dm (lr_space_name ?l) (lr_owner_id ?l)"
    let ?hs = "case snd ?i of Some hs \<Rightarrow> hs | None \<Rightarrow> aq_hs aq"
    have live: "wait_since (hist @ [E_shared dm]) ?l ?hs disk ss (hs_last_live ?hs) (hs_timestamp ?hs)" if "fst ?i = 0"
      using wait_since_live [OF some [OF that]] some [OF that] by (metis option.simps(5))
    have "acquire_runs com tk flags (goto (Wait disk ss (hs_last_live ?hs) (hs_timestamp ?hs)) (aq\<lparr>aq_hs := ?hs\<rparr>)) (hist @ [E_shared dm])"
      if "fst ?i = 0" by (rule goto, rule wait) (use status [of dm "[]"] live [OF that] in auto)
    moreover have "acquire_runs com tk flags (Monotime (\<lambda>t. goto (Wait disk ss t 0) (aq\<lparr>aq_hs := ?hs\<rparr>))) (hist @ [E_shared dm])"
      using goto [OF wait [of "[E_time _]", OF _ status now]] by simp
    ultimately show "acquire_runs com tk flags
        (if fst ?i = 0 \<and> hs_last_check ?hs \<noteq> 0 \<and> hs_last_live ?hs \<noteq> 0 \<and> hs_owner_id ?hs = lr_owner_id ?l \<and>
            hs_owner_generation ?hs = lr_owner_generation ?l
         then goto (Wait disk ss (hs_last_live ?hs) (hs_timestamp ?hs)) (aq\<lparr>aq_hs := ?hs\<rparr>)
         else Monotime (\<lambda>now. goto (Wait disk ss now 0) (aq\<lparr>aq_hs := ?hs\<rparr>))) (hist @ [E_shared dm])" by simp
  qed
qed

lemma lockspace_disk_cong:
  assumes "strneq NAME_ID_SIZE a b"
  shows "lockspace_disk dm a = lockspace_disk dm b"
proof -
  have "strneq NAME_ID_SIZE c a = strneq NAME_ID_SIZE c b" for c using assms by (simp add: strneq_cstr)
  then have "lockspace_disk_loop sps a acc = lockspace_disk_loop sps b acc" for sps acc
    by (induction sps arbitrary: acc) auto
  then show ?thesis by (simp add: lockspace_disk_def)
qed

lemma adds_open_disk:
  "adds no_write (\<lambda>r _. fst r < 0 \<or> sd_path (snd r ! 0) = sd_path disk \<and> sd_offset (snd r ! 0) = sd_offset disk) (open_disks_fd [disk])"
  by (auto simp: open_disks_fd_def intro!: adds_calls)

lemma runs_acquire_open_host_disk:
  assumes goto: "\<And>pt aq hist. acquire_state com tk flags pt aq hist \<Longrightarrow> acquire_runs com tk flags (goto pt aq) hist"
    and st: "acquire_state com tk flags Restart aq hist"
    and known: "alloc_failed hist \<or> aq_cur_leader aq \<in> set (verified_reads tk hist)"
  shows "acquire_runs com tk flags (acquire_open_host_disk goto aq) hist"
proof (cases "aq_host_id_disk aq")
  case (Some d)
  then show ?thesis unfolding acquire_open_host_disk_def
    by (cases d) (use st known in \<open>auto simp: acquire_state_def point_state_def intro!: runs_acquire_wait_start [OF goto st]\<close>)
next
  case None
  let ?name = "lr_space_name (aq_cur_leader aq)"
  have opened: "acquire_runs com tk flags (bnd (open_disks_fd [disk]) (\<lambda>(rv, disks).
        if rv < 0 then Ret (SANLK_ACQUIRE_IDDISK, aq)
        else acquire_wait_start goto (disks ! 0) ss (aq\<lparr>aq_host_id_disk := Some (disks ! 0, ss)\<rparr>))) (hist @ [E_shared dm])"
    if disk: "snd (lockspace_disk dm ?name) = Some (disk, ss)" for dm disk ss
    unfolding runs_bnd
  proof (rule adds_runs [OF adds_open_disk])
    fix r :: "int \<times> sync_disk list" and evs
    assume evs: "list_all no_write evs" and r: "fst r < 0 \<or> sd_path (snd r ! 0) = sd_path disk \<and> sd_offset (snd r ! 0) = sd_offset disk"
    let ?h = "(hist @ [E_shared dm]) @ evs" and ?d = "snd r ! 0"
    have st': "acquire_state com tk flags Restart aq ?h" using acquire_state_quiet [OF acquire_state_shared(1) [OF st]] evs .
    have "lockspace_disk_known tk ?h ?d ss" if "\<not> fst r < 0" "\<not> alloc_failed hist"
    proof -
      have "strneq NAME_ID_SIZE ?name (r_lockspace_name (tk_r tk))"
        using known that(2) verified_leaderD(2) verified_reads_verified by blast
      then show ?thesis unfolding lockspace_disk_known_def using disk r that(1) lockspace_disk_cong by (intro exI [of _ dm] exI [of _ disk]) auto
    qed
    with known st' show "acquire_runs com tk flags (case r of (rv, disks) \<Rightarrow>
        if rv < 0 then Ret (SANLK_ACQUIRE_IDDISK, aq)
        else acquire_wait_start goto (disks ! 0) ss (aq\<lparr>aq_host_id_disk := Some (disks ! 0, ss)\<rparr>)) ?h"
      by (cases r) (auto intro!: runs_acquire_wait_start [OF goto] simp: acquire_result_def acquire_state_def point_state_def)
  qed
  have "acquire_runs com tk flags (Ret (SANLK_ACQUIRE_LOCKSPACE, aq)) (hist @ [E_shared dm])" for dm
    using acquire_stops [OF acquire_state_shared(1) [OF st]] by simp
  with opened None show ?thesis unfolding acquire_open_host_disk_def
    by (auto split: prod.splits option.splits)
qed

lemma runs_acquire_restart:
  assumes goto: "\<And>pt aq hist. acquire_state com tk flags pt aq hist \<Longrightarrow> acquire_runs com tk flags (goto pt aq) hist"
    and st: "acquire_state com tk flags Restart aq hist"
  shows "acquire_runs com tk flags (acquire_restart flags lver goto aq) hist"
  unfolding acquire_restart_def runs_bnd
proof (rule adds_runs [OF adds_paxos_lease_read])
  fix r :: "int \<times> leader_record \<times> u64" and evs
  assume evs: "list_all no_write evs" and read: "fst r < 0 \<or> alloc_failed evs \<or> fst (snd r) \<in> set (verified_reads (aq_tk aq) evs)"
  obtain error l m where r: "r = (error, l, m)" by (cases r)
  let ?aq = "aq\<lparr>aq_cur_leader := l, aq_max_mbal := m\<rparr>" and ?h = "hist @ evs"
  have same: "same_request tk (aq_tk aq)" using st by (simp add: acquire_state_def)
  have st': "acquire_state com tk flags Restart ?aq ?h"
    using acquire_state_quiet [OF st evs] by (simp add: acquire_state_def point_state_def)
  have known: "alloc_failed ?h \<or> aq_cur_leader ?aq \<in> set (verified_reads tk ?h)" if "\<not> error < 0"
    using read that same_request_verified(1) [OF same] by (auto simp: r)
  have gone: "owner_is_gone (aq_tk aq) l \<Longrightarrow> owner_lost com tk ?h l"
    by (simp add: owner_lost_def same_request_verified(2) [OF same])
  have sizes: "acquire_state com tk flags Restart (?aq\<lparr>aq_tk := (aq_tk aq)\<lparr>tk_sector_size := ss, tk_align_size := al\<rparr>\<rparr>) ?h" for ss al
    using st' by (simp add: acquire_state_def point_state_def same_request_def)
  have stop: "acquire_result com tk flags (e, ?aq) ?h" if "e \<noteq> SANLK_OK" for e using acquire_stops [OF st' that] .
  have run: "acquire_runs com tk flags (acquire_run goto True ?aq) ?h"
    if "flags AND PAXOS_ACQUIRE_FORCE \<noteq> 0 \<or> owner_is_gone (aq_tk aq) l" "\<not> error < 0"
    using that known gone by (intro runs_acquire_run [OF goto st']) (auto simp: run_state_def)
  show "acquire_runs com tk flags (case r of (error, cur_leader, max_mbal) \<Rightarrow>
      let tk = aq_tk aq; aq = aq\<lparr>aq_cur_leader := cur_leader, aq_max_mbal := max_mbal\<rparr>
      in if error < 0 then Ret (error, aq)
         else let align_size = leader_align_size_from_flag (lr_flags cur_leader);
                  align_size = (if align_size = 0 then sector_size_to_align_size_old (sint (lr_sector_size cur_leader)) else align_size)
              in if lr_sector_size cur_leader \<noteq> word_of_int (tk_sector_size tk) \<or> align_size \<noteq> tk_align_size tk
                 then goto Restart (aq\<lparr>aq_tk := tk\<lparr>tk_sector_size := sint (lr_sector_size cur_leader), tk_align_size := align_size\<rparr>\<rparr>)
                 else if flags AND PAXOS_ACQUIRE_FORCE \<noteq> 0 then acquire_run goto True aq
                 else if lver \<noteq> 0 \<and> lr_lver cur_leader \<noteq> lver then Ret (SANLK_ACQUIRE_LVER, aq)
                 else if owner_is_gone tk cur_leader then acquire_run goto True aq
                 else acquire_open_host_disk goto aq) ?h"
    unfolding r prod.case Let_def
    using run goto [OF sizes] stop runs_acquire_open_host_disk [OF goto st' known] by simp
qed

lemma runs_acquire_next_round:
  assumes goto: "\<And>pt aq hist. acquire_state com tk flags pt aq hist \<Longrightarrow> acquire_runs com tk flags (goto pt aq) hist"
    and st: "acquire_state com tk flags (Wait disk ss ws lt) aq hist"
  shows "acquire_runs com tk flags (acquire_next_round goto disk ss ws lt aq) hist"
proof -
  have "acquire_runs com tk flags (bnd (paxos_lease_leader_read (aq_tk aq) zero_leader) (\<lambda>(error, tmp_leader).
        if error < 0 then Ret (error, aq)
        else if aq_cur_leader aq \<noteq> tmp_leader then goto Restart aq
        else goto (Wait disk ss ws lt) aq)) h" if h: "acquire_state com tk flags (Wait disk ss ws lt) aq h" for h
    unfolding runs_bnd
  proof (rule adds_runs [OF adds_leader_read])
    fix r :: "int \<times> leader_record" and evs
    assume "list_all no_write evs"
    note h' = acquire_state_quiet [OF h this]
    then have "acquire_state com tk flags Restart aq (h @ evs)" by (auto simp: acquire_state_def point_state_def)
    with h' show "acquire_runs com tk flags (case r of (error, tmp_leader) \<Rightarrow>
        if error < 0 then Ret (error, aq)
        else if aq_cur_leader aq \<noteq> tmp_leader then goto Restart aq
        else goto (Wait disk ss ws lt) aq) (h @ evs)" using goto acquire_stops [OF h'] by (cases r) auto
  qed
  note read = this [OF acquire_state_shared(1) [OF acquire_state_shared(3) [OF st]]]
  show ?thesis unfolding acquire_next_round_def
    using read acquire_stops [OF acquire_state_shared(1) [OF acquire_state_shared(3) [OF st]]] by simp
qed

lemma adds_delta_read:
  "adds no_write (\<lambda>r evs. fst r < 0 \<or> snd r \<in> set (slot_records disk (sd_offset disk + (h - 1) * word_of_int ss) evs))
    (delta_lease_leader_read ss io disk name h l)"
proof -
  have "adds no_write (\<lambda>r evs. fst r < 0 \<or> leader_record_in (snd r) \<in> set (slot_records disk (sd_offset disk + (h - 1) * word_of_int ss) evs))
      (read_sectors disk ss (h - 1) 1 (replicate leader_size 0) io)"
    by (rule adds_read_sectors) (auto simp: slot_records_def slot_record_def map_filter_def leader_in_take)
  then show ?thesis unfolding delta_lease_leader_read_def Let_def by (auto intro!: adds_bnd)
qed

lemma adds_read_dblock:
  "adds no_write (\<lambda>r evs. fst r \<noteq> 0 \<or> dblock_was_read disk h evs (snd r)) (read_dblock tk disk h)"
  unfolding read_dblock_def
proof (rule adds_uninit)
  fix b :: bytes
  assume b: "length b = dblock_size"
  have rec: "paxos_dblock_in (take dblock_size c) = paxos_dblock_in c" if "length c = 512 \<or> length c = 4096" for c
    using dblock_in_append [of "take dblock_size c" "drop dblock_size c"] that by auto
  have "adds no_write (\<lambda>r evs. fst r \<noteq> 0 \<or> dblock_was_read disk h evs (paxos_dblock_in (snd r)))
      (read_sectors disk (tk_sector_size tk) (2 + h - 1) 1 b (ioto tk))"
  proof (cases "tk_sector_size tk = 512 \<or> tk_sector_size tk = 4096")
    case True
    then have ss: "(word_of_int (tk_sector_size tk) :: u64) = 512 \<or> (word_of_int (tk_sector_size tk) :: u64) = 4096" by auto
    show ?thesis unfolding dblock_was_read_def
      by (rule adds_read_sectors) (use b rec ss in \<open>auto intro!: exI [of _ "word_of_int (tk_sector_size tk)"]\<close>)
  qed (simp add: read_sectors_def)
  moreover have "dblock_was_read disk h (E_uninit b # evs) pd = dblock_was_read disk h evs pd" for evs pd
    by (simp add: dblock_was_read_def)
  ultimately show "adds no_write (\<lambda>x evs. fst x \<noteq> 0 \<or> dblock_was_read disk h (E_uninit b # evs) (snd x))
      (bnd (read_sectors disk (tk_sector_size tk) (2 + h - 1) 1 b (ioto tk)) (\<lambda>(rv, pd_end). Ret (rv, paxos_dblock_in pd_end)))"
    by (auto intro!: adds_bnd)
qed simp

lemma wait_since_seen:
  assumes "wait_since hist l hs disk ss ws lt" and "r \<in> set (slot_records disk (delta_slot l disk ss) evs)"
  shows "wait_since (hist @ evs) l hs disk ss ws (lr_timestamp r)"
proof -
  from assms(1) obtain past ev later seen where "hist = past @ ev # later" and "wait_begins l hs ev ws seen"
    unfolding wait_since_def by blast
  with assms(2) show ?thesis unfolding wait_since_def
    by (intro exI [of _ past] exI [of _ ev] exI [of _ "later @ evs"] exI [of _ seen]) auto
qed

lemma wait_since_silent:
  assumes "wait_since hist l hs disk ss ws lt" and "lt \<noteq> 0" and "r \<in> set (slot_records disk (delta_slot l disk ss) evs)" and "lr_timestamp r = lt"
    and "now - ws > word_of_int (calc_host_dead_seconds com (uint (hs_io_timeout hs)))"
  shows "owner_silent com l disk ss hs (hist @ evs @ [E_time now])"
proof -
  let ?times = "\<lambda>h. map lr_timestamp (slot_records disk (delta_slot l disk ss) h)"
  from assms(1,2) obtain past ev later seen where hist: "hist = past @ ev # later" and begins: "wait_begins l hs ev ws seen"
    and before: "lt \<in> set (seen @ ?times later)"
    unfolding wait_since_def by blast
  have after: "lt \<in> set (?times evs)" using assms(3,4) by auto
  have "subseq ([lt] @ [lt]) ((seen @ ?times later) @ ?times evs)"
    by (rule list_emb_append_mono) (use before after in \<open>simp_all add: subseq_singleton_left\<close>)
  then have two: "subseq [lt, lt] (seen @ ?times (later @ evs @ [E_time now]))"
    using list_emb_prefix [of _ "[lt, lt]" "seen @ ?times (later @ evs)" "?times [E_time now]"] by simp
  show ?thesis unfolding owner_silent_def
    by (intro exI [of _ past] exI [of _ ev] exI [of _ "later @ evs @ [E_time now]"] exI [of _ ws] exI [of _ seen] exI [of _ lt] exI [of _ now])
      (use hist begins two assms(5) in simp)
qed

text \<open>One round of the waiting loop.\<close>

lemma run_state_waited:
  assumes "wait_state tk hist l hs disk ss ws lt"
    and "owner_left l (slot_records disk (delta_slot l disk ss) (hist @ evs)) \<or> owner_silent com l disk ss hs (hist @ evs) \<or>
      owner_released tk l (hist @ evs)"
  shows "run_state com tk flags (hist @ evs) l"
  using assms wait_state_mono [OF assms(1), of evs] by (auto simp: run_state_def wait_state_def owner_lost_def)

lemma acquire_state_ret:
  "acquire_state com tk flags pt (aq\<lparr>aq_leader_ret := l\<rparr>) hist \<longleftrightarrow> acquire_state com tk flags pt aq hist"
  by (cases pt) (simp_all add: acquire_state_def point_state_def)

text \<open>The owner is alive, but its release may have been overwritten.\<close>

lemma runs_acquire_alive:
  assumes goto: "\<And>pt aq hist. acquire_state com tk flags pt aq hist \<Longrightarrow> acquire_runs com tk flags (goto pt aq) hist"
    and st: "acquire_state com tk flags (Wait disk ss ws lt) aq hist" and l: "aq_cur_leader aq = l" and tk': "aq_tk aq = tk'"
  shows "acquire_runs com tk flags
    (if lr_write_id l \<noteq> lr_owner_id l
     then bnd (read_dblock tk' (disk0 tk') (lr_owner_id l)) (\<lambda>(rv, owner_dblock).
       if rv = 0 \<and> pd_flags owner_dblock AND DBLOCK_FL_RELEASED \<noteq> 0 then acquire_run goto False aq
       else Ret (SANLK_ACQUIRE_IDLIVE, aq))
     else Ret (SANLK_ACQUIRE_IDLIVE, aq)) hist"
proof -
  have same: "disk0 tk' = disk0 tk" using st tk' by (simp add: acquire_state_def same_request_def)
  have "acquire_runs com tk flags (bnd (read_dblock tk' (disk0 tk') (lr_owner_id l)) (\<lambda>(rv, owner_dblock).
       if rv = 0 \<and> pd_flags owner_dblock AND DBLOCK_FL_RELEASED \<noteq> 0 then acquire_run goto False aq
       else Ret (SANLK_ACQUIRE_IDLIVE, aq))) hist" if w: "lr_write_id l \<noteq> lr_owner_id l"
    unfolding runs_bnd
  proof (rule adds_runs [OF adds_read_dblock])
    fix r :: "int \<times> paxos_dblock" and evs
    assume evs: "list_all no_write evs" and r: "fst r \<noteq> 0 \<or> dblock_was_read (disk0 tk') (lr_owner_id l) evs (snd r)"
    have st': "acquire_state com tk flags (Wait disk ss ws lt) aq (hist @ evs)" using acquire_state_quiet [OF st evs] .
    have "alloc_failed (hist @ evs) \<or> run_state com tk flags (hist @ evs) l"
      if "fst r = 0" "pd_flags (snd r) AND DBLOCK_FL_RELEASED \<noteq> 0"
    proof -
      have "dblock_was_read (disk0 tk) (lr_owner_id l) (hist @ evs) (snd r)" using r that same by (auto simp: dblock_was_read_def)
      then have "owner_released tk l (hist @ evs)" using w that(2) by (auto simp: owner_released_def)
      then show ?thesis using st l run_state_waited by (fastforce simp: acquire_state_def point_state_def)
    qed
    then show "acquire_runs com tk flags (case r of (rv, owner_dblock) \<Rightarrow>
        if rv = 0 \<and> pd_flags owner_dblock AND DBLOCK_FL_RELEASED \<noteq> 0 then acquire_run goto False aq
        else Ret (SANLK_ACQUIRE_IDLIVE, aq)) (hist @ evs)"
      using runs_acquire_run [OF goto st'] acquire_stops [OF st'] l by (cases r) auto
  qed
  then show ?thesis using acquire_stops [OF st] by simp
qed

lemma runs_acquire_wait:
  assumes goto: "\<And>pt aq hist. acquire_state com tk flags pt aq hist \<Longrightarrow> acquire_runs com tk flags (goto pt aq) hist"
    and st: "acquire_state com tk flags (Wait disk ss ws lt) aq hist"
  shows "acquire_runs com tk flags (acquire_wait com flags goto disk ss ws lt aq) hist"
  unfolding acquire_wait_def Let_def runs_bnd
proof (rule adds_runs [OF adds_delta_read])
  let ?l = "aq_cur_leader aq" and ?hs = "aq_hs aq"
  fix r :: "int \<times> leader_record" and evs
  assume evs: "list_all no_write evs" and "fst r < 0 \<or> snd r \<in> set (slot_records disk (sd_offset disk + (lr_owner_id ?l - 1) * word_of_int ss) evs)"
  then have r: "snd r \<in> set (slot_records disk (delta_slot ?l disk ss) evs)" if "\<not> fst r < 0" using that by (simp add: delta_slot_def)
  let ?h = "hist @ evs"
  have st': "acquire_state com tk flags (Wait disk ss ws lt) aq ?h" using acquire_state_quiet [OF st evs] .
  have w: "alloc_failed hist \<or> wait_state tk hist ?l ?hs disk ss ws lt" using st by (auto simp: acquire_state_def point_state_def)
  have left: "acquire_runs com tk flags (acquire_run goto False aq) ?h"
    if "\<not> fst r < 0" "lr_timestamp (snd r) = LEASE_FREE \<or> lr_owner_id (snd r) \<noteq> lr_owner_id ?l \<or> lr_owner_generation (snd r) > lr_owner_generation ?l"
  proof (rule runs_acquire_run [OF goto st'])
    have "owner_left ?l (slot_records disk (delta_slot ?l disk ss) ?h)" using r [OF that(1)] that(2) unfolding owner_left_def list_ex_iff by auto
    then show "alloc_failed ?h \<or> run_state com tk flags ?h ?l" using w run_state_waited by fastforce
  qed
  have seen: "acquire_state com tk flags (Wait disk ss ws (lr_timestamp (snd r))) aq ?h" if "\<not> fst r < 0"
    using st' w wait_since_seen [OF _ r [OF that]] by (auto simp: acquire_state_def point_state_def wait_state_def)
  have dead: "acquire_runs com tk flags (acquire_run goto False aq) (?h @ [E_time now])"
    if "\<not> fst r < 0" "lt \<noteq> 0" "lr_timestamp (snd r) = lt" "now - ws > word_of_int (calc_host_dead_seconds com (uint (hs_io_timeout ?hs)))" for now
  proof (rule runs_acquire_run [OF goto acquire_state_shared(2) [OF st']])
    have "owner_silent com ?l disk ss ?hs (hist @ evs @ [E_time now])" if "wait_state tk hist ?l ?hs disk ss ws lt"
      using wait_since_silent [OF _ \<open>lt \<noteq> 0\<close> r [OF \<open>\<not> fst r < 0\<close>]] that \<open>lr_timestamp (snd r) = lt\<close>
        \<open>now - ws > word_of_int (calc_host_dead_seconds com (uint (hs_io_timeout ?hs)))\<close> by (auto simp: wait_state_def)
    then show "alloc_failed (?h @ [E_time now]) \<or> run_state com tk flags (?h @ [E_time now]) ?l"
      using w run_state_waited [of tk hist ?l ?hs disk ss ws lt "evs @ [E_time now]"] by auto
  qed
  have alive: "acquire_runs com tk flags
    (if lr_write_id ?l \<noteq> lr_owner_id ?l
     then bnd (read_dblock (aq_tk aq) (disk0 (aq_tk aq)) (lr_owner_id ?l)) (\<lambda>(rv, owner_dblock).
       if rv = 0 \<and> pd_flags owner_dblock AND DBLOCK_FL_RELEASED \<noteq> 0 then acquire_run goto False (aq\<lparr>aq_leader_ret := ?l\<rparr>)
       else Ret (SANLK_ACQUIRE_IDLIVE, aq\<lparr>aq_leader_ret := ?l\<rparr>))
     else Ret (SANLK_ACQUIRE_IDLIVE, aq\<lparr>aq_leader_ret := ?l\<rparr>)) ?h"
    by (rule runs_acquire_alive [where goto = goto, OF goto iffD2 [OF acquire_state_ret st']]) simp_all
  have round: "acquire_runs com tk flags (acquire_next_round goto disk ss ws (lr_timestamp (snd r)) aq) ?h" if "\<not> fst r < 0"
    by (rule runs_acquire_next_round [OF goto seen [OF that]])
  have round': "acquire_runs com tk flags (acquire_next_round goto disk ss ws lt aq) (?h @ [E_time now])" for now
    by (rule runs_acquire_next_round [OF goto acquire_state_shared(2) [OF st']])
  note stop = acquire_stops [OF st'] acquire_stops [OF acquire_state_shared(2) [OF st']]
  show "acquire_runs com tk flags (case r of (error, host_id_leader) \<Rightarrow>
         if error < 0 then Ret (error, aq)
         else if lr_timestamp host_id_leader = LEASE_FREE then acquire_run goto False aq
         else if lr_owner_id host_id_leader \<noteq> lr_owner_id ?l \<or>
                 lr_owner_generation host_id_leader > lr_owner_generation ?l
         then acquire_run goto False aq
         else if lt = 0
         then acquire_next_round goto disk ss ws (lr_timestamp host_id_leader) aq
         else if lr_timestamp host_id_leader \<noteq> lt \<or> (hs_last_live ?hs \<noteq> 0 \<and> hs_last_check ?hs = hs_last_live ?hs)
         then
           (if lr_write_id ?l \<noteq> lr_owner_id ?l
               then bnd (read_dblock (aq_tk aq) (disk0 (aq_tk aq)) (lr_owner_id ?l)) (\<lambda>(rv, owner_dblock).
                 if rv = 0 \<and> pd_flags owner_dblock AND DBLOCK_FL_RELEASED \<noteq> 0 then acquire_run goto False (aq\<lparr>aq_leader_ret := ?l\<rparr>)
                 else Ret (SANLK_ACQUIRE_IDLIVE, aq\<lparr>aq_leader_ret := ?l\<rparr>))
               else Ret (SANLK_ACQUIRE_IDLIVE, aq\<lparr>aq_leader_ret := ?l\<rparr>))
         else Monotime (\<lambda>now.
           if now - ws > word_of_int (calc_host_dead_seconds com (uint (hs_io_timeout ?hs))) then acquire_run goto False aq
           else if flags AND PAXOS_ACQUIRE_OWNER_NOWAIT \<noteq> 0 then Ret (SANLK_ACQUIRE_OWNED_RETRY, aq)
           else acquire_next_round goto disk ss ws lt aq)) ?h"
    using left dead alive round round' stop by (cases r) (simp del: append_assoc split: if_splits)
qed

text \<open>After a ballot.\<close>

lemma committed_leader_fields:
  "lr_lver (committed_leader tk flags n now l d) = pd_lver d" "lr_owner_id (committed_leader tk flags n now l d) = pd_inp d"
  by (simp_all add: committed_leader_def Let_def)

lemma runs_acquire_commit:
  assumes st: "acquire_state com tk flags (Retry_ballot c m) aq hist"
    and lver: "alloc_failed hist \<or> pd_lver (aq_dblock aq) = lr_lver (aq_cur_leader aq) + 1"
  shows "acquire_runs com tk flags (acquire_commit flags n aq) hist"
  unfolding acquire_commit_def runs.simps runs_bnd
proof (intro allI)
  fix now
  let ?nl = "committed_leader (aq_tk aq) flags n now (aq_cur_leader aq) (aq_dblock aq)" and ?h = "hist @ [E_time now]"
  have st': "acquire_state com tk flags (Retry_ballot c m) aq ?h" using acquire_state_shared(2) [OF st] .
  have host: "tk_host_id (aq_tk aq) = tk_host_id tk" using st by (simp add: acquire_state_def same_request_def)
  have each: "each_event (acquire_write com tk flags) (?h @ evs)" if "list_all (leader_write (lr_lver ?nl)) evs" for evs
  proof (rule each_version [of _ _ _ _ "aq_cur_leader aq"])
    show "each_event (acquire_write com tk flags) ?h" using st' by (simp add: acquire_state_def)
    show "alloc_failed ?h \<or> run_state com tk flags ?h (aq_cur_leader aq) \<and>
        list_all (\<lambda>ev. lver_write (lr_lver (aq_cur_leader aq) + 1) ev \<or> leader_write (lr_lver (aq_cur_leader aq) + 1) ev) evs"
      using st' that lver unfolding committed_leader_fields by (auto simp: acquire_state_def point_state_def list_all_iff)
  qed
  show "runs (\<lambda>x. acquire_runs com tk flags (case x of (error, new_leader) \<Rightarrow>
        if error < 0 then Ret (error, aq\<lparr>aq_tk := (aq_tk aq)\<lparr>tk_flags := tk_flags (aq_tk aq) OR T_RETRACT_PAXOS\<rparr>, aq_leader_ret := new_leader\<rparr>)
        else if lr_owner_id new_leader \<noteq> tk_host_id (aq_tk aq) then Ret (SANLK_ACQUIRE_OTHER, aq\<lparr>aq_leader_ret := new_leader\<rparr>)
        else Ret (SANLK_OK, aq\<lparr>aq_leader_ret := new_leader, aq_dblock_ret := aq_dblock aq\<rparr>)))
      (each_event (acquire_write com tk flags)) (write_new_leader (aq_tk aq) ?nl) ?h"
    by (rule adds_runs [OF adds_write_new_leader])
      (use st in \<open>auto split: prod.splits simp: acquire_result_def each [simplified] host acquire_state_def same_request_def\<close>)
qed

lemma runs_acquire_ballot_run:
  assumes goto: "\<And>pt aq hist. acquire_state com tk flags pt aq hist \<Longrightarrow> acquire_runs com tk flags (goto pt aq) hist"
    and st: "acquire_state com tk flags (Retry_ballot c m) aq hist"
  shows "acquire_runs com tk flags
    (bnd (run_ballot (aq_tk aq) (sint (ucast (lr_num_hosts (aq_cur_leader aq)) :: u32)) (lr_lver (aq_cur_leader aq) + 1) m (aq_dblock aq))
      (\<lambda>(error, dblock, tk).
        if error = SANLK_DBLOCK_MBAL \<or> error = SANLK_DBLOCK_LVER
           then Get_rand 0 1000000 (\<lambda>us.
             Usleep (if us < 0 then sint (ucast (tk_host_id tk * 100) :: u32) else us)
               (goto (Retry_ballot False (m + lr_max_hosts (aq_cur_leader aq))) (aq\<lparr>aq_tk := tk, aq_dblock := dblock\<rparr>)))
           else if error < 0 then Ret (error, aq\<lparr>aq_tk := tk, aq_dblock := dblock\<rparr>)
           else acquire_commit flags n (aq\<lparr>aq_tk := tk, aq_dblock := dblock\<rparr>))) hist"
  unfolding runs_bnd
proof (rule adds_runs [OF adds_run_ballot])
  let ?l = "aq_cur_leader aq"
  fix r :: "int \<times> paxos_dblock \<times> token" and evs
  assume evs: "list_all (lver_write (lr_lver ?l + 1)) evs"
    and r: "same_request (aq_tk aq) (snd (snd r)) \<and> (fst r < 0 \<or> alloc_failed evs \<or> pd_lver (fst (snd r)) = lr_lver ?l + 1)"
  obtain error dblock tk' where eq: "r = (error, dblock, tk')" by (cases r)
  let ?aq = "aq\<lparr>aq_tk := tk', aq_dblock := dblock\<rparr>" and ?h = "hist @ evs"
  have "each_event (acquire_write com tk flags) ?h"
    by (rule each_version [of _ _ _ _ ?l]) (use st evs in \<open>auto simp: acquire_state_def point_state_def list_all_iff\<close>)
  moreover have "same_request tk tk'" using st r by (simp add: eq acquire_state_def same_request_def)
  ultimately have st': "acquire_state com tk flags (Retry_ballot c' m') ?aq ?h" for c' m'
    using st point_state_mono [of com tk flags "Retry_ballot c m" aq hist evs] by (auto simp: acquire_state_def point_state_def)
  have "acquire_runs com tk flags (acquire_commit flags n ?aq) ?h" if "\<not> error < 0"
    by (rule runs_acquire_commit [OF st']) (use r that in \<open>auto simp: eq\<close>)
  moreover have "acquire_runs com tk flags (goto (Retry_ballot c' m') ?aq) (?h @ [E_rand us, E_usleep us'])" for c' m' us us'
    by (rule goto, rule acquire_state_quiet [OF st']) simp
  moreover note acquire_stops [OF st']
  ultimately show "acquire_runs com tk flags (case r of (error, dblock, tk) \<Rightarrow>
        if error = SANLK_DBLOCK_MBAL \<or> error = SANLK_DBLOCK_LVER
           then Get_rand 0 1000000 (\<lambda>us.
             Usleep (if us < 0 then sint (ucast (tk_host_id tk * 100) :: u32) else us)
               (goto (Retry_ballot False (m + lr_max_hosts ?l)) (aq\<lparr>aq_tk := tk, aq_dblock := dblock\<rparr>)))
           else if error < 0 then Ret (error, aq\<lparr>aq_tk := tk, aq_dblock := dblock\<rparr>)
           else acquire_commit flags n (aq\<lparr>aq_tk := tk, aq_dblock := dblock\<rparr>)) ?h"
    by (simp add: eq Let_def)
qed

lemma runs_acquire_ballot:
  assumes goto: "\<And>pt aq hist. acquire_state com tk flags pt aq hist \<Longrightarrow> acquire_runs com tk flags (goto pt aq) hist"
    and st: "acquire_state com tk flags (Retry_ballot c m) aq hist"
  shows "acquire_runs com tk flags (acquire_ballot flags n goto c m aq) hist"
  unfolding acquire_ballot_def Let_def runs_bnd [of _ _ "if _ then _ else _"]
proof (rule adds_runs [where P = no_write and Q = "\<lambda>_ _. True"])
  show "adds no_write (\<lambda>_ _. True) (if c then Ret (SANLK_OK, aq_cur_leader aq) else paxos_lease_leader_read (aq_tk aq) zero_leader)"
    using adds_leader_read by simp
  fix r :: "int \<times> leader_record" and evs
  assume "list_all no_write evs"
  note st' = acquire_state_quiet [OF st this]
  have restart: "acquire_state com tk flags Restart aq (hist @ evs)" using st' by (auto simp: acquire_state_def point_state_def)
  have held: "acquire_result com tk flags (SANLK_OK, aq\<lparr>aq_leader_ret := l, aq_dblock_ret := d\<rparr>) (hist @ evs)"
    if "lr_owner_id l = tk_host_id (aq_tk aq)" for l d
    using that st' by (simp add: acquire_result_def acquire_state_def same_request_def)
  note acquire_stops [OF iffD2 [OF acquire_state_ret st']] goto [OF restart] acquire_stops [OF st'] held
    runs_acquire_ballot_run [where goto = goto and n = n, OF goto st']
  then show "acquire_runs com tk flags (case r of (error, tmp_leader) \<Rightarrow>
         if error < 0 then Ret (error, aq)
         else if lr_lver tmp_leader = lr_lver (aq_cur_leader aq) + 1
         then
           (if lr_owner_id tmp_leader = tk_host_id (aq_tk aq) \<and> lr_owner_generation tmp_leader = tk_host_generation (aq_tk aq)
            then Ret (SANLK_OK, aq\<lparr>aq_leader_ret := tmp_leader, aq_dblock_ret := aq_dblock aq\<rparr>)
            else Ret (SANLK_ACQUIRE_OWNED, aq\<lparr>aq_leader_ret := tmp_leader\<rparr>))
         else if lr_lver (aq_cur_leader aq) + 1 < lr_lver tmp_leader then goto Restart aq
         else if aq_cur_leader aq \<noteq> tmp_leader then goto Restart aq
         else bnd (run_ballot (aq_tk aq) (sint (ucast (lr_num_hosts (aq_cur_leader aq)) :: u32)) (lr_lver (aq_cur_leader aq) + 1) m (aq_dblock aq))
           (\<lambda>(error, dblock, tk).
             if error = SANLK_DBLOCK_MBAL \<or> error = SANLK_DBLOCK_LVER
                then Get_rand 0 1000000 (\<lambda>us.
                  Usleep (if us < 0 then sint (ucast (tk_host_id tk * 100) :: u32) else us)
                    (goto (Retry_ballot False (m + lr_max_hosts (aq_cur_leader aq))) (aq\<lparr>aq_tk := tk, aq_dblock := dblock\<rparr>)))
                else if error < 0 then Ret (error, aq\<lparr>aq_tk := tk, aq_dblock := dblock\<rparr>)
                else acquire_commit flags n (aq\<lparr>aq_tk := tk, aq_dblock := dblock\<rparr>))) (hist @ evs)"
    by (simp split: prod.splits)
qed

lemma runs_acquire_from:
  "acquire_state com tk flags pt aq hist \<Longrightarrow> acquire_runs com tk flags (acquire_from com flags lver n fuel pt aq) hist"
proof (induction fuel arbitrary: pt aq hist)
  case (Suc fuel)
  note steps = runs_acquire_restart runs_acquire_wait runs_acquire_ballot
  show ?case using Suc.prems by (cases pt) (auto simp: Let_def intro!: steps [OF Suc.IH])
qed (simp add: acquire_state_def)

section \<open>The property\<close>


end
