(* ===== verification/Delta_Theorems.thy ===== *)
theory Delta_Theorems
  imports Delta_Lease Histories
begin

text \<open>The properties of delta leases.\<close>

section \<open>All behaviours of the disk\<close>

lemma delta_verify_cases: "delta_verify_leader name lr checksum = SANLK_OK \<or> delta_verify_leader name lr checksum < 0"
  by (simp add: delta_verify_leader_def)

text \<open>A leader is read in one quiet step; what is returned as verified is what was read.\<close>

definition leader_was_read :: "daemon event list \<Rightarrow> int \<times> leader_record \<Rightarrow> daemon event list \<Rightarrow> bool" where
  "leader_was_read hist = (\<lambda>(rv, l) hist'. \<exists>evs. hist' = hist @ evs \<and> quiet evs \<and> slept evs = 0 \<and>
     (rv < 0 \<or> rv = SANLK_OK \<and> records_read evs = [l] \<and> leader_ok l))"

lemma wp_delta_lease_leader_read: "wp (leader_was_read hist) (delta_lease_leader_read ss io disk name h ret) hist"
proof -
  have "leader_record_in (take leader_size b) = leader_record_in b \<and> leader_ok (leader_record_in b)"
    if "length b = size_t (sint (word_of_int ss :: u32))" "ss = 512 \<or> ss = 4096" for b
  proof -
    have "leader_size \<le> length b" using that by auto
    then show ?thesis using leader_in_take leader_ok_in by blast
  qed
  then show ?thesis
    using delta_verify_cases
    by (auto simp: delta_lease_leader_read_def read_sectors_def io_simps Let_def leader_was_read_def)
qed

lemma wp_delta_wait:
  "wp (\<lambda>w hist'. \<exists>evs. hist' = hist @ evs \<and> quiet evs \<and> records_read evs = [] \<and> (w \<longrightarrow> slept evs = n)) (delta_wait sp n) hist"
proof (induction n arbitrary: hist)
  case (Suc n)
  have "wp (\<lambda>w hist'. \<exists>evs. hist' = hist @ evs \<and> quiet evs \<and> records_read evs = [] \<and> (w \<longrightarrow> slept evs = Suc n))
      (delta_wait sp n) (hist @ [E_shared dm, E_sleep 1])" for dm
    by (rule wp_mono [OF Suc.IH]) auto
  then show ?case by simp
qed simp

section \<open>Acquire\<close>

text \<open>
  The io timeout of the host that wrote a record, and the time after which it must have noticed that it
  cannot renew its lease, its processes being killed or the watchdog having fired.
\<close>

definition owner_io_timeout :: "space \<Rightarrow> leader_record \<Rightarrow> int" where
  "owner_io_timeout sp l = (if lr_io_timeout l = 0 then uint (sp_io_timeout sp) else uint (lr_io_timeout l))"

definition owner_dead_seconds :: "com_options \<Rightarrow> space \<Rightarrow> leader_record \<Rightarrow> int" where
  "owner_dead_seconds com sp l = max (calc_host_dead_seconds com (owner_io_timeout sp l))
     (calc_id_renewal_seconds (owner_io_timeout sp l) + 6 * owner_io_timeout sp l)"

text \<open>
  After what history a lease may be overwritten: the record read is free or our own; or it was read,
  and read again after that time, and had not changed or had become free.
\<close>

definition may_overwrite :: "com_options \<Rightarrow> space \<Rightarrow> bytes \<Rightarrow> daemon event list \<Rightarrow> bool" where
  "may_overwrite com sp our_host_name past =
    (case records_read past of
       [l] \<Rightarrow> lr_timestamp l = LEASE_FREE \<or> strneq NAME_ID_SIZE (lr_resource_name l) our_host_name
     | [l1, l2] \<Rightarrow> owner_dead_seconds com sp l1 \<le> int (slept past) \<and> (l2 = l1 \<or> lr_timestamp l2 = LEASE_FREE)
     | _ \<Rightarrow> False)"

text \<open>The lease was acquired: our record was written, and found unchanged after two timeouts of the previous owner.\<close>

definition delta_acquired :: "space \<Rightarrow> bytes \<Rightarrow> u64 \<Rightarrow> leader_record \<Rightarrow> daemon event list \<Rightarrow> bool" where
  "delta_acquired sp our_host_name host_id l hist \<longleftrightarrow>
    (\<exists>past d off b evs. hist = past @ E_write d off b 0 # evs \<and> leader_record_in b = l \<and> quiet evs \<and> records_read evs = [l] \<and>
      2 * owner_io_timeout sp (hd (records_read past)) \<le> int (slept evs) \<and>
      lr_owner_id l = host_id \<and> lr_owner_generation l = lr_owner_generation (last (records_read past)) + 1 \<and>
      strneq (NAME_ID_SIZE - 1) (lr_resource_name l) our_host_name)"

definition acquire_result :: "com_options \<Rightarrow> space \<Rightarrow> bytes \<Rightarrow> u64 \<Rightarrow> leader_record \<Rightarrow> int \<times> leader_record \<Rightarrow> daemon event list \<Rightarrow> bool" where
  "acquire_result com sp our_host_name host_id leader_ret = (\<lambda>(rv, l) hist. guarded_writes (may_overwrite com sp our_host_name) hist \<and>
     (if rv = SANLK_OK then delta_acquired sp our_host_name host_id l hist else l = leader_ret))"

lemma wp_delta_confirm:
  assumes hist: "hist = past @ [E_write d off b 0]" and guarded: "guarded_writes (may_overwrite com sp our_host_name) hist"
    and b: "leader_record_in b = l1" "lr_owner_id l1 = host_id" "strneq (NAME_ID_SIZE - 1) (lr_resource_name l1) our_host_name"
      "lr_owner_generation l1 = lr_owner_generation (last (records_read past)) + 1"
    and t: "t = owner_io_timeout sp (hd (records_read past))"
  shows "wp (acquire_result com sp our_host_name host_id leader_ret) (delta_confirm sp disk name host_id t l1 leader_ret) hist"
proof -
  let ?R = "acquire_result com sp our_host_name host_id leader_ret"
  have no: "?R (rv, leader_ret) (hist @ evs)" if "quiet evs" "rv \<noteq> SANLK_OK" for rv evs
    using that guarded by (simp add: acquire_result_def guarded_writes_quiet)
  have yes: "?R (SANLK_OK, l1) (hist @ evs)" if "quiet evs" "records_read evs = [l1]" "2 * t \<le> int (slept evs)" for evs
  proof -
    have "delta_acquired sp our_host_name host_id l1 (past @ E_write d off b 0 # evs)"
      unfolding delta_acquired_def using that b t by (intro exI [of _ past] exI conjI refl) simp_all
    then have "delta_acquired sp our_host_name host_id l1 (hist @ evs)" by (simp add: hist)
    then show ?thesis using that guarded by (simp add: acquire_result_def guarded_writes_quiet)
  qed
  have read: "wp (\<lambda>(error, leader). wp ?R (if error < 0 then Ret (error, leader_ret)
      else if l1 \<noteq> leader then Ret (SANLK_HOSTID_BUSY, leader_ret) else Ret (SANLK_OK, leader)))
      (delta_lease_leader_read (sp_sector_size sp) (uint (sp_io_timeout sp)) disk name host_id l1) (hist @ evs)"
    if evs: "quiet evs" "records_read evs = []" "slept evs = nat (2 * t)" for evs
  proof (rule wp_mono [OF wp_delta_lease_leader_read])
    fix r hist'
    assume "leader_was_read (hist @ evs) r hist'"
    then show "(case r of (error, leader) \<Rightarrow> wp ?R (if error < 0 then Ret (error, leader_ret)
        else if l1 \<noteq> leader then Ret (SANLK_HOSTID_BUSY, leader_ret) else Ret (SANLK_OK, leader))) hist'"
      using evs by (auto simp: leader_was_read_def intro!: no yes)
  qed
  show ?thesis unfolding delta_confirm_def wp_bnd
    by (rule wp_mono [OF wp_delta_wait]) (auto simp: wp_bnd case_prod_unfold intro!: no read [unfolded case_prod_unfold])
qed

lemma wp_delta_write_new:
  assumes l: "leader_ok l" "last (records_read hist) = l" and t: "t = owner_io_timeout sp (hd (records_read hist))"
    and guarded: "guarded_writes (may_overwrite com sp our_host_name) hist" "may_overwrite com sp our_host_name hist"
  shows "wp (acquire_result com sp our_host_name host_id leader_ret)
    (delta_write_new sp disk name our_host_name host_id t l leader_ret) hist"
proof -
  let ?R = "acquire_result com sp our_host_name host_id leader_ret"
  have "wp ?R (case leader_seal (delta_new_leader sp our_host_name host_id ts l) (replicate leader_size 0) of
      (leader1, leader_end) \<Rightarrow> bnd (write_sector disk (sp_sector_size sp) (host_id - 1) leader_end (uint (sp_io_timeout sp)))
        (\<lambda>rv. if rv < 0 then Ret (rv, leader_ret) else delta_confirm sp disk name host_id t leader1 leader_ret)) (hist @ [E_time ts])" for ts
  proof -
    define new where "new = delta_new_leader sp our_host_name host_id ts l"
    obtain l1 l_end where seal: "leader_seal new (replicate leader_size 0) = (l1, l_end)" by fastforce
    have ok: "leader_ok new" using l(1) by (simp add: leader_ok_def new_def delta_new_leader_def)
    have l1: "l1 = new\<lparr>lr_checksum := lr_checksum l1\<rparr>" using seal by (auto simp: leader_seal_def Let_def)
    have rd: "leader_record_in (l_end @ rest) = l1" for rest
      using leader_seal_in [OF ok, of "replicate leader_size 0"] leader_seal_length [OF ok, of "replicate leader_size 0"] seal leader_disk.dec_prefix by simp
    have G: "guarded_writes (may_overwrite com sp our_host_name) (hist @ [E_time ts, E_memalign n m b, E_write d off w rv])" for n m b d off w rv
    proof -
      have "may_overwrite com sp our_host_name (hist @ [E_time ts, E_memalign n m b])"
        using guarded(2) by (simp add: may_overwrite_def split: list.splits)
      with guarded(1) guarded_writes_append [of _ "hist @ [E_time ts, E_memalign n m b]" "E_write d off w rv"]
      show ?thesis by (simp add: guarded_writes_quiet)
    qed
    have no: "?R (rv, leader_ret) (hist @ [E_time ts] @ evs)" if "quiet evs" "rv \<noteq> SANLK_OK" for rv evs
      using that guarded(1) by (simp add: acquire_result_def guarded_writes_quiet)
    have failed: "?R (rv, leader_ret) (hist @ [E_time ts, E_memalign n m b, E_write d off w rv])" if "rv < 0" for n m b d off w rv
      using that G by (simp add: acquire_result_def)
    have new: "lr_owner_id l1 = host_id" "strneq (NAME_ID_SIZE - 1) (lr_resource_name l1) our_host_name"
      "lr_owner_generation l1 = lr_owner_generation l + 1"
      by (subst l1, simp add: new_def delta_new_leader_def strneq_snprintf_s)+
    have confirm: "wp ?R (delta_confirm sp disk name host_id t l1 leader_ret)
        (hist @ [E_time ts, E_memalign n m b, E_write disk off (l_end @ rest) 0])" for n m b off rest
      by (rule wp_delta_confirm [where past = "hist @ [E_time ts, E_memalign n m b]" and b = "l_end @ rest"])
        (use G rd new l t in simp_all)
    show ?thesis unfolding new_def [symmetric] seal prod.case wp_bnd
      by (rule wp_write_sector) (use no [of "[]"] no [of "[E_memalign n m b]" for n m b] failed confirm in auto)
  qed
  then show ?thesis by (simp add: delta_write_new_def Let_def)
qed

lemma acquire_result_no: "quiet evs \<Longrightarrow> rv \<noteq> SANLK_OK \<Longrightarrow> acquire_result com sp our_host_name host_id leader_ret (rv, leader_ret) evs"
  using guarded_writes_quiet [of evs _ "[]"] by (simp add: acquire_result_def)

lemma wp_delta_write_new_quiet:
  assumes "quiet hist" "leader_ok l" "last (records_read hist) = l" "may_overwrite com sp our_host_name hist" "hd (records_read hist) = l0"
  shows "wp (acquire_result com sp our_host_name host_id leader_ret)
    (delta_write_new sp disk name our_host_name host_id (owner_io_timeout sp l0) l leader_ret) hist"
  using assms guarded_writes_quiet [of hist _ "[]"] by (intro wp_delta_write_new) simp_all

text \<open>The record of another host: it is read again after the time in which that host must have died.\<close>

lemma wp_delta_reread:
  assumes "quiet hist" "records_read hist = [l]" "owner_dead_seconds com sp l \<le> int (slept hist)" "leader_was_read hist (error, l2) hist'"
  shows "wp (acquire_result com sp our_host_name host_id leader_ret) (if error < 0 then Ret (error, leader_ret)
      else if l = l2 then delta_write_new sp disk name our_host_name host_id (owner_io_timeout sp l) l2 leader_ret
      else if lr_timestamp l2 = LEASE_FREE then delta_write_new sp disk name our_host_name host_id (owner_io_timeout sp l) l2 leader_ret
      else Ret (SANLK_HOSTID_BUSY, leader_ret)) hist'"
  using assms wp_delta_write_new_quiet [of hist' l2 com sp our_host_name l]
  by (auto simp: leader_was_read_def may_overwrite_def intro!: acquire_result_no)

lemma wp_delta_held:
  assumes l: "quiet hist" "records_read hist = [l]"
  shows "wp (acquire_result com sp our_host_name host_id leader_ret) (bnd (delta_wait sp (nat (owner_dead_seconds com sp l))) (\<lambda>waited.
      if \<not> waited then Ret (SANLK_ERROR, leader_ret)
      else bnd (delta_lease_leader_read (sp_sector_size sp) (uint (sp_io_timeout sp)) disk name host_id l) (\<lambda>(error, l2).
        if error < 0 then Ret (error, leader_ret)
        else if l = l2 then delta_write_new sp disk name our_host_name host_id (owner_io_timeout sp l) l2 leader_ret
        else if lr_timestamp l2 = LEASE_FREE then delta_write_new sp disk name our_host_name host_id (owner_io_timeout sp l) l2 leader_ret
        else Ret (SANLK_HOSTID_BUSY, leader_ret)))) hist"
proof -
  have "wp (acquire_result com sp our_host_name host_id leader_ret)
      (bnd (delta_lease_leader_read (sp_sector_size sp) (uint (sp_io_timeout sp)) disk name host_id l) (\<lambda>(error, l2).
        if error < 0 then Ret (error, leader_ret)
        else if l = l2 then delta_write_new sp disk name our_host_name host_id (owner_io_timeout sp l) l2 leader_ret
        else if lr_timestamp l2 = LEASE_FREE then delta_write_new sp disk name our_host_name host_id (owner_io_timeout sp l) l2 leader_ret
        else Ret (SANLK_HOSTID_BUSY, leader_ret))) (hist @ evs)"
    if "quiet evs" "records_read evs = []" "slept evs = nat (owner_dead_seconds com sp l)" for evs
    unfolding wp_bnd
    by (rule wp_mono [OF wp_delta_lease_leader_read], clarify, rule wp_delta_reread [of "hist @ evs"]) (use that l in auto)
  then show ?thesis unfolding wp_bnd [of _ "delta_wait _ _"]
    by (intro wp_mono [OF wp_delta_wait [of hist "nat (owner_dead_seconds com sp l)" sp]]) (use l in \<open>auto intro: acquire_result_no\<close>)
qed

text \<open>The whole acquire.\<close>

lemma wp_delta_lease_acquire:
  "wp (acquire_result com sp our_host_name host_id leader_ret) (delta_lease_acquire com sp disk name our_host_name host_id leader_ret) []"
proof -
  have delay: "(if calc_host_dead_seconds com (owner_io_timeout sp l) < calc_id_renewal_seconds (owner_io_timeout sp l) + 6 * owner_io_timeout sp l
      then calc_id_renewal_seconds (owner_io_timeout sp l) + 6 * owner_io_timeout sp l
      else calc_host_dead_seconds com (owner_io_timeout sp l)) = owner_dead_seconds com sp l" for l
    by (auto simp: owner_dead_seconds_def)
  show ?thesis unfolding delta_lease_acquire_def wp_bnd [of _ "delta_lease_leader_read _ _ _ _ _ zero_leader"] Let_def
      owner_io_timeout_def [symmetric] delay
    by (rule wp_mono [OF wp_delta_lease_leader_read])
      (auto simp: leader_was_read_def may_overwrite_def intro!: acquire_result_no wp_delta_held wp_delta_write_new_quiet)
qed

section \<open>Renew\<close>

text \<open>The record of host id \<open>hid\<close> in the buffer \<open>b\<close> of a lockspace area.\<close>

definition area_slot :: "space \<Rightarrow> u64 \<Rightarrow> bytes \<Rightarrow> bytes" where
  "area_slot sp hid b = take leader_size (drop (unat ((hid - 1) * word_of_int (sp_sector_size sp))) b)"

definition same_owner :: "leader_record \<Rightarrow> leader_record \<Rightarrow> bool" where
  "same_owner l l' \<longleftrightarrow> lr_owner_id l = lr_owner_id l' \<and> lr_owner_generation l = lr_owner_generation l' \<and> lr_resource_name l = lr_resource_name l'"

text \<open>The last thing read from the disk is our lease, intact and with us as the owner.\<close>

definition lease_read :: "bytes \<Rightarrow> space \<Rightarrow> leader_record \<Rightarrow> daemon event list \<Rightarrow> bool" where
  "lease_read name sp prev past \<longleftrightarrow>
    (\<exists>past' d off n b evs. past = past' @ E_read d off n 0 b # evs \<and> records_read evs = [] \<and>
      (let e = area_slot sp (lr_owner_id prev) b
       in delta_verify_leader name (leader_record_in e) (leader_checksum e) = SANLK_OK \<and> same_owner (leader_record_in e) prev))"

text \<open>A write of our sector with an intact record that keeps the owner.\<close>

definition renewal_write :: "bytes \<Rightarrow> space \<Rightarrow> sync_disk \<Rightarrow> leader_record \<Rightarrow> daemon event \<Rightarrow> bool" where
  "renewal_write name sp disk prev ev =
    (case ev of E_write d off b rv \<Rightarrow> d = disk \<and> off = sd_offset disk + (lr_owner_id prev - 1) * word_of_int (sp_sector_size sp) \<and>
        delta_verify_leader name (leader_record_in b) (leader_checksum b) = SANLK_OK \<and> same_owner (leader_record_in b) prev
      | _ \<Rightarrow> True)"

definition renew_result ::
    "bytes \<Rightarrow> space \<Rightarrow> sync_disk \<Rightarrow> leader_record \<Rightarrow> leader_record \<Rightarrow> int \<times> leader_record \<times> int \<times> task \<Rightarrow> daemon event list \<Rightarrow> bool" where
  "renew_result name sp disk prev leader_ret = (\<lambda>(rv, l, rd, tsk) hist. guarded_writes (lease_read name sp prev) hist \<and>
     list_all (renewal_write name sp disk prev) hist \<and>
     (if rv = SANLK_OK then \<exists>hist' d off b t. hist = hist' @ [E_write d off b 0, E_time t] \<and> leader_record_in b = l else l = leader_ret))"

lemma slot_offset:
  assumes "space_ok sp" and "0 < (hid :: u64)" and "hid \<le> word_of_int (sp_max_hosts sp)"
  shows "unat ((hid - 1) * word_of_int (sp_sector_size sp)) = (unat hid - 1) * nat (sp_sector_size sp)" and "unat hid \<le> nat (sp_max_hosts sp)"
proof -
  have sp: "sp_sector_size sp = 512 \<or> sp_sector_size sp = 4096" "0 < sp_max_hosts sp" "sp_max_hosts sp \<le> 2000" using assms(1) by (auto simp: space_ok_def)
  have "unat (word_of_int (sp_max_hosts sp) :: u64) = nat (sp_max_hosts sp)" using sp by (simp add: unsigned_of_int take_bit_int_eq_self)
  then show hid: "unat hid \<le> nat (sp_max_hosts sp)" using assms(3) by (simp add: word_le_nat_alt)
  have "1 \<le> hid" using assms(2) by (simp add: word_le_nat_alt word_less_nat_alt)
  then have 1: "unat (hid - 1) = unat hid - 1" by (simp add: unat_sub)
  have 2: "unat (word_of_int (sp_sector_size sp) :: u64) = nat (sp_sector_size sp)" using sp by auto
  have "(unat hid - 1) * nat (sp_sector_size sp) \<le> 2000 * 4096" using hid sp by (intro mult_mono) auto
  then show "unat ((hid - 1) * word_of_int (sp_sector_size sp)) = (unat hid - 1) * nat (sp_sector_size sp)"
    using unat_mult_lem [of "hid - 1" "word_of_int (sp_sector_size sp)"] 1 2 by simp
qed

lemma slot_in_area:
  assumes "space_ok sp" and "0 < (hid :: u64)" and "hid \<le> word_of_int (sp_max_hosts sp)"
  shows "unat ((hid - 1) * word_of_int (sp_sector_size sp)) + nat (sp_sector_size sp) \<le> size_t (sp_align_size sp)"
proof -
  have "unat hid * nat (sp_sector_size sp) \<le> nat (sp_max_hosts sp) * nat (sp_sector_size sp)"
    using slot_offset(2) [OF assms] by (rule mult_right_mono) simp
  also have "\<dots> = nat (sp_max_hosts sp * sp_sector_size sp)" using assms(1) by (auto simp: space_ok_def nat_mult_distrib)
  also have "\<dots> \<le> nat (sp_align_size sp)" using assms(1) by (auto simp: space_ok_def)
  finally have "unat hid * nat (sp_sector_size sp) \<le> nat (sp_align_size sp)" .
  moreover have "size_t (sp_align_size sp) = nat (sp_align_size sp)" using assms(1) by (auto simp: space_ok_def align_sizes_def)
  moreover have "0 < unat hid" using assms(2) by (simp add: word_less_nat_alt)
  ultimately show ?thesis using slot_offset(1) [OF assms] by (cases "unat hid") auto
qed

text \<open>The sector that is written: the sealed record, then the bitmap.\<close>

lemma renewal_sector:
  assumes ss: "sp_sector_size sp = 512 \<or> sp_sector_size sp = 4096" and l: "leader_ok l" and seal: "leader_seal l (replicate leader_size 0) = (l1, e1)"
    and b: "b = splice_at LEADER_RECORD_MAX (take HOSTID_BITMAP_SIZE bitmap) (splice_at 0 e1 (replicate (size_t (sp_sector_size sp)) 0))"
  shows "leader_record_in b = l1" and "leader_checksum b = lr_checksum l1" and "l1 = l\<lparr>lr_checksum := lr_checksum l1\<rparr>"
proof -
  have e1: "length e1 = leader_size" "leader_record_in e1 = l1" "leader_checksum e1 = lr_checksum l1"
    using leader_seal_length [OF l, of "replicate leader_size 0"] leader_seal_in [OF l, of "replicate leader_size 0"]
      leader_seal_checksum [OF l, of "replicate leader_size 0"] seal by simp_all
  have "splice_at 0 e1 (replicate (size_t (sp_sector_size sp)) 0) = e1 @ replicate (size_t (sp_sector_size sp) - leader_size) 0"
    using e1(1) by (simp add: splice_at_def)
  then obtain rest where "b = e1 @ rest" unfolding b splice_at_def [of LEADER_RECORD_MAX] using e1(1) by simp
  then show "leader_record_in b = l1" "leader_checksum b = lr_checksum l1"
    using e1 leader_disk.dec_prefix leader_checksum_append by simp_all
  show "l1 = l\<lparr>lr_checksum := lr_checksum l1\<rparr>" using seal by (auto simp: leader_seal_def Let_def)
qed

lemma quiet_renewal: "quiet hist \<Longrightarrow> guarded_writes (lease_read name sp prev) hist \<and> list_all (renewal_write name sp disk prev) hist"
  using guarded_writes_quiet [of hist _ "[]"]
  by (auto simp: list_all_iff quiet_def renewal_write_def is_write_def split: event.splits)

lemma renew_result_no: "quiet hist \<Longrightarrow> rv \<noteq> SANLK_OK \<Longrightarrow> renew_result name sp disk prev leader_ret (rv, leader_ret, rd, tsk) hist"
  using quiet_renewal by (simp add: renew_result_def)

lemma renew_result_write:
  assumes hist: "hist = past @ E_read d off n 0 iobuf # evs" "quiet hist" "records_read evs = []"
    and e: "e = area_slot sp (lr_owner_id prev) iobuf" "leader_record_in e = l"
    and owner: "delta_verify_leader name l (leader_checksum e) = SANLK_OK" "same_owner l prev" and "rv \<le> 0"
    and l1: "leader_record_in b = l1" "leader_checksum b = lr_checksum l1" "same_owner l1 l" "lr_magic l1 = lr_magic l"
      "lr_version l1 = lr_version l" "lr_space_name l1 = lr_space_name l"
  shows "renew_result name sp disk prev leader_ret (if rv < 0 then (rv, leader_ret, SANLK_OK, tsk) else (SANLK_OK, l1, SANLK_OK, tsk))
    (hist @ [E_write disk (sd_offset disk + (lr_owner_id prev - 1) * word_of_int (sp_sector_size sp)) b rv, E_time now])"
proof -
  let ?w = "E_write disk (sd_offset disk + (lr_owner_id prev - 1) * word_of_int (sp_sector_size sp)) b rv"
  have "lease_read name sp prev hist"
    unfolding lease_read_def hist(1) Let_def using owner e hist(3) by (intro exI conjI) auto
  then have G: "guarded_writes (lease_read name sp prev) (hist @ [?w, E_time now])"
    using quiet_renewal [OF hist(2)] guarded_writes_append [of _ "hist @ [?w]" "E_time now"] by simp
  have "delta_verify_leader name l1 (lr_checksum l1) = SANLK_OK" using owner(1) l1 by (auto simp: delta_verify_leader_def split: if_splits)
  then have "renewal_write name sp disk prev ?w" using l1 owner by (simp add: renewal_write_def same_owner_def)
  then have "list_all (renewal_write name sp disk prev) (hist @ [?w, E_time now])"
    using quiet_renewal [OF hist(2), of name sp prev disk] by (simp add: renewal_write_def)
  with G l1(1) \<open>rv \<le> 0\<close> show ?thesis by (auto simp: renew_result_def)
qed

lemma wp_delta_renew_write:
  assumes sp: "space_ok sp" "0 < lr_owner_id prev" "lr_owner_id prev \<le> word_of_int (sp_max_hosts sp)"
    and hist: "hist = past @ [E_read d off n 0 iobuf]" "quiet hist" and len: "length iobuf = size_t (sp_align_size sp)"
  shows "wp (renew_result name sp disk prev leader_ret)
    (delta_renew_write com sp disk name bitmap extra prev_result prev leader_ret iobuf tsk) hist"
proof -
  let ?R = "renew_result name sp disk prev leader_ret"
  define e where "e = area_slot sp (lr_owner_id prev) iobuf"
  define l where "l = leader_record_in e"
  have ss: "sp_sector_size sp = 512 \<or> sp_sector_size sp = 4096" using sp(1) by (simp add: space_ok_def)
  have "length e = leader_size" using slot_in_area [OF sp] ss len by (auto simp: e_def area_slot_def)
  then have l_ok: "leader_ok l" by (simp add: l_def leader_ok_in)
  have new: "leader_ok (delta_renewed_leader sp extra ts l)" "same_owner (delta_renewed_leader sp extra ts l) l"
      "lr_magic (delta_renewed_leader sp extra ts l) = lr_magic l" "lr_version (delta_renewed_leader sp extra ts l) = lr_version l"
      "lr_space_name (delta_renewed_leader sp extra ts l) = lr_space_name l" for ts
    using l_ok by (simp_all add: delta_renewed_leader_def Let_def leader_ok_def same_owner_def split: option.split)
  have result: "?R (if rv < 0 then (rv, leader_ret, SANLK_OK, tsk) else (SANLK_OK, l1, SANLK_OK, tsk))
      (hist @ [E_time ts, E_memalign m 0 mem, E_write disk (sd_offset disk + (lr_owner_id prev - 1) * word_of_int (sp_sector_size sp)) b rv, E_time now])"
    if "delta_verify_leader name l (leader_checksum e) = SANLK_OK" "same_owner l prev" "rv \<le> 0"
      and seal: "leader_seal (delta_renewed_leader sp extra ts l) (replicate leader_size 0) = (l1, e1)"
      and b: "b = splice_at LEADER_RECORD_MAX (take HOSTID_BITMAP_SIZE bitmap) (splice_at 0 e1 (replicate (size_t (sp_sector_size sp)) 0))"
    for l1 e1 b rv ts m mem now
  proof -
    note sec = renewal_sector [OF ss new(1) seal b]
    have "same_owner l1 l" "lr_magic l1 = lr_magic l" "lr_version l1 = lr_version l" "lr_space_name l1 = lr_space_name l"
      by (subst sec(3), use new [of ts] in \<open>simp add: same_owner_def\<close>)+
    then show ?thesis
      using renew_result_write [of "hist @ [E_time ts, E_memalign m 0 mem]" past d off n iobuf "[E_time ts, E_memalign m 0 mem]" e sp prev l
          name rv b l1 disk leader_ret tsk now] that sec(1,2) hist by (simp add: e_def l_def)
  qed
  have failed: "?R (rv, leader_ret, SANLK_OK, tsk)
      (hist @ [E_time ts, E_memalign m 0 mem, E_write disk (sd_offset disk + (lr_owner_id prev - 1) * word_of_int (sp_sector_size sp))
        (splice_at LEADER_RECORD_MAX (take HOSTID_BITMAP_SIZE bitmap) (splice_at 0 e1 (replicate (size_t (sp_sector_size sp)) 0))) rv, E_time now])"
    if "delta_verify_leader name l (leader_checksum e) = SANLK_OK" "same_owner l prev" "rv < 0"
      "leader_seal (delta_renewed_leader sp extra ts l) (replicate leader_size 0) = (l1, e1)" for l1 e1 rv ts m mem now
    using result [OF that(1,2) _ that(4) refl, of rv] that(3) by simp
  show ?thesis unfolding delta_renew_write_def Let_def area_slot_def [symmetric] e_def [symmetric] l_def [symmetric]
    using hist(2) result [of 0] failed delta_verify_cases [of name l "leader_checksum e"]
    by (auto simp: same_owner_def split: prod.splits if_splits intro: renew_result_no)
qed

lemma wp_delta_lease_renew:
  assumes sp: "space_ok sp" "0 < lr_owner_id prev" "lr_owner_id prev \<le> word_of_int (sp_max_hosts sp)"
  shows "wp (renew_result name sp disk prev leader_ret)
    (delta_lease_renew com sp disk name bitmap extra prev_result (Some prev) leader_ret read_result tsk) []"
proof -
  have rw: "wp (renew_result name sp disk prev leader_ret)
      (delta_renew_write com sp disk name bitmap extra prev_result prev leader_ret b t) (hist @ [E_read disk off (length b) 0 b])"
    if "length b = size_t (sp_align_size sp)" "quiet hist" for b t hist off
    using that by (intro wp_delta_renew_write [OF sp refl]) simp_all
  have rw': "wp (renew_result name sp disk prev leader_ret)
      (delta_renew_write com sp disk name bitmap extra prev_result prev leader_ret b t) [E_read disk off (length b) 0 b]"
    if "length b = size_t (sp_align_size sp)" for b t off
    using rw [of b "[]"] that by simp
  show ?thesis unfolding delta_lease_renew_def option.case Let_def
    using rw [of b "[E_memalign n rv m]" for b n rv m] rw [of b "[E_read d off k rv' b', E_memalign n rv m]" for b n rv m d off k rv' b'] rw'
    by (auto split: option.split intro: renew_result_no)
qed

section \<open>Properties\<close>

definition default_com :: com_options where
  "default_com = \<lparr>com_watchdog_fire_timeout = 60, com_kill_grace_seconds = 40, com_kill_grace_set = False, com_set_bitmap_seconds = 0,
     com_use_watchdog = 1, com_io_timeout = 10, com_write_init_io_timeout = 0, com_renewal_history_size = 180,
     com_renewal_read_extend_sec_set = 0, com_renewal_read_extend_sec = 0\<rparr>"



text \<open>
  C12: A renewal keeps the owner.  For a lockspace and a host id that fit, whatever the disk returns, every
  write of \<open>delta_lease_renew\<close> comes right after a read in which our own sector was intact and still had
  our host id, generation and name; it goes to our own sector only, and writes an intact record with the
  same owner.  The record returned with \<open>SANLK_OK\<close> is the one that was written successfully; on every
  error the caller's record is left as it was.
\<close>

theorem delta_renew_keeps_owner:
  assumes "space_ok sp" and "0 < lr_owner_id prev" and "lr_owner_id prev \<le> word_of_int (sp_max_hosts sp)"
  shows "wp (\<lambda>(rv, l, read_result, task) hist. guarded_writes (lease_read space_name sp prev) hist \<and>
      list_all (renewal_write space_name sp disk prev) hist \<and>
      (if rv = SANLK_OK then \<exists>hist' d off b t. hist = hist' @ [E_write d off b 0, E_time t] \<and> leader_record_in b = l else l = leader_ret))
    (delta_lease_renew com sp disk space_name bitmap extra prev_result (Some prev) leader_ret read_result task) []"
  using wp_delta_lease_renew [OF assms] by (simp add: renew_result_def)

theorem delta_renew_keeps_owner_witness:
  "wp (\<lambda>_ hist. list_all (renewal_write [] witness_space (sp_host_id_disk witness_space) (zero_leader\<lparr>lr_owner_id := 2\<rparr>)) hist)
    (delta_lease_renew default_com witness_space (sp_host_id_disk witness_space) [] [] None SANLK_OK (Some (zero_leader\<lparr>lr_owner_id := 2\<rparr>))
       zero_leader 0 \<lparr>tsk_timeout_aicb = False, tsk_iobuf = None\<rparr>) []"
proof -
  have sp: "space_ok witness_space" "0 < lr_owner_id (zero_leader\<lparr>lr_owner_id := 2\<rparr>)"
      "lr_owner_id (zero_leader\<lparr>lr_owner_id := 2\<rparr>) \<le> word_of_int (sp_max_hosts witness_space)"
    by (simp_all add: space_ok_def witness_space_def align_sizes_def)
  show ?thesis by (rule wp_mono [OF delta_renew_keeps_owner [OF sp]]) auto
qed

end
