(* ===== verification/Lease_Theorems.thy ===== *)
theory Lease_Theorems
  imports Acquire_Theorems Delta_Theorems
begin

text \<open>
  Resource leases: the ballot numbers of different hosts, the commit after a ballot, and the release.
\<close>

section \<open>Ballot numbers\<close>

lemma unat_first_mbal:
  assumes "1 \<le> h" "h \<le> max_hosts" and "unat max_mbal + 2 * unat max_hosts < 2 ^ 64"
  shows "unat (first_mbal max_mbal max_hosts h) =
    (if max_mbal = 0 then unat h else unat max_mbal - unat max_mbal mod unat max_hosts + unat max_hosts + unat h)"
proof -
  have h: "unat h \<le> unat max_hosts" using assms(2) by (simp add: word_le_nat_alt)
  have m: "unat (max_mbal - max_mbal mod max_hosts) = unat max_mbal - unat max_mbal mod unat max_hosts"
    by (subst unat_sub) (simp_all add: word_le_nat_alt unat_mod)
  have b: "unat max_mbal - unat max_mbal mod unat max_hosts + unat max_hosts + unat h < 2 ^ 64"
    using assms(3) h diff_le_self [of "unat max_mbal" "unat max_mbal mod unat max_hosts"] by linarith
  have s: "unat (max_mbal - max_mbal mod max_hosts + max_hosts) = unat max_mbal - unat max_mbal mod unat max_hosts + unat max_hosts"
    by (subst iffD1 [OF unat_add_lem]) (use b m in simp_all)
  have "unat (max_mbal - max_mbal mod max_hosts + max_hosts + h) = unat max_mbal - unat max_mbal mod unat max_hosts + unat max_hosts + unat h"
    by (subst iffD1 [OF unat_add_lem]) (use b s in simp_all)
  then show ?thesis by (simp add: first_mbal_def Let_def)
qed

text \<open>The number of the \<open>k\<close>-th retry, modulo \<open>max_hosts\<close>, is the host id.\<close>

lemma mbal_residue:
  assumes "1 \<le> h" "h \<le> max_hosts" and "unat max_mbal + (2 + k) * unat max_hosts < 2 ^ 64"
  shows "unat (first_mbal max_mbal max_hosts h + of_nat k * max_hosts) mod unat max_hosts = unat h mod unat max_hosts"
proof -
  have le: "unat max_mbal + 2 * unat max_hosts + k * unat max_hosts < 2 ^ 64" using assms(3) by (simp add: algebra_simps)
  have h: "unat h \<le> unat max_hosts" "0 < unat max_hosts" using assms(1,2) by (auto simp: word_le_nat_alt unat_gt_0)
  have "k * unat max_hosts < 2 ^ 64" using le by linarith
  then have "k < 2 ^ 64" using h(2) le_less_trans [of k "k * unat max_hosts"] by simp
  then have "unat (of_nat k :: u64) = k" by (simp add: unat_of_nat)
  then have k: "unat (of_nat k * max_hosts) = k * unat max_hosts" using le by (subst iffD1 [OF unat_mult_lem]) simp_all
  have f: "unat (first_mbal max_mbal max_hosts h) =
      (if max_mbal = 0 then unat h else unat max_mbal - unat max_mbal mod unat max_hosts + unat max_hosts + unat h)"
    by (rule unat_first_mbal [OF assms(1,2)]) (use le in linarith)
  have "unat (first_mbal max_mbal max_hosts h) + k * unat max_hosts < 2 ^ 64"
    using f le h(1) diff_le_self [of "unat max_mbal" "unat max_mbal mod unat max_hosts"] by (auto split: if_splits)
  then have "unat (first_mbal max_mbal max_hosts h + of_nat k * max_hosts) = unat (first_mbal max_mbal max_hosts h) + k * unat max_hosts"
    using k by (subst iffD1 [OF unat_add_lem]) simp_all
  moreover have "unat max_hosts * q + unat max_hosts + unat h = unat h + unat max_hosts * Suc q" for q by simp
  then have "(unat max_hosts * q + unat max_hosts + unat h) mod unat max_hosts = unat h mod unat max_hosts" for q
    by (metis mod_mult_self2)
  ultimately show ?thesis using f by (simp add: minus_mod_eq_mult_div)
qed



section \<open>Committing the ballot\<close>

text \<open>The leader \<open>l\<close> is stored in the first sector of the area, with a correct checksum.\<close>

definition leader_stored :: "token \<Rightarrow> sync_disk \<Rightarrow> disks \<Rightarrow> leader_record \<Rightarrow> bool" where
  "leader_stored tk disk ds l \<longleftrightarrow> leader_record_in (sector_at ds disk (tk_sector_size tk) 0) = l \<and>
     leader_checksum (sector_at ds disk (tk_sector_size tk) 0) = lr_checksum l"

definition good_sector_size :: "token \<Rightarrow> bool" where
  "good_sector_size tk \<longleftrightarrow> tk_sector_size tk = 512 \<or> tk_sector_size tk = 4096"

lemma exec_write_leader:
  assumes "good_sector_size tk" and "leader_ok l" and "smooth e"
  shows "\<exists>c ds. exec (write_leader tk disk l) e = Some ((0, l\<lparr>lr_checksum := c\<rparr>), after_io e ds) \<and> leader_stored tk disk ds (l\<lparr>lr_checksum := c\<rparr>)"
proof -
  let ?ss = "tk_sector_size tk"
  have ss: "?ss = 512 \<or> ?ss = 4096" using assms(1) by (simp add: good_sector_size_def)
  obtain l' lr_end where seal: "leader_seal l (replicate leader_size 0) = (l', lr_end)" by fastforce
  have l': "l' = l\<lparr>lr_checksum := lr_checksum l'\<rparr>" using leader_seal_fst [of l "replicate leader_size 0"] seal by simp
  have len: "length lr_end = leader_size" using leader_seal_length [OF assms(2), of "replicate leader_size 0"] seal by simp
  have fits: "int (length lr_end) \<le> ?ss" "length lr_end \<le> nat ?ss" using len ss by auto
  define ds where "ds = write_sector_at (env_disks e) disk ?ss 0 lr_end"
  have sec: "sector_at ds disk ?ss 0 = lr_end @ replicate (nat ?ss - leader_size) 0"
    unfolding ds_def by (subst sector_at_write [OF fits(2)]) (simp add: len)
  have "leader_record_in (sector_at ds disk ?ss 0) = l'" "leader_checksum (sector_at ds disk ?ss 0) = lr_checksum l'"
    unfolding sec using len seal leader_disk.dec_prefix [of lr_end] leader_checksum_append [of lr_end]
      leader_seal_in [OF assms(2), of "replicate leader_size 0"] leader_seal_checksum [OF assms(2), of "replicate leader_size 0"] by simp_all
  then have "leader_stored tk disk ds l'" by (simp add: leader_stored_def)
  moreover have "exec (write_leader tk disk l) e = Some ((0, l'), after_io e ds)"
    using exec_write_sector [OF ss fits(1) assms(3)] by (simp add: write_leader_def seal exec_bnd ds_def)
  ultimately show ?thesis using l' by metis
qed

lemma exec_write_new_leader_one:
  assumes "good_sector_size tk" and "leader_ok l" and "smooth e" and "tk_disks tk = [disk]"
  shows "\<exists>c ds. exec (write_new_leader tk l) e = Some ((SANLK_OK, l\<lparr>lr_checksum := c\<rparr>), after_io e ds) \<and> leader_stored tk disk ds (l\<lparr>lr_checksum := c\<rparr>)"
proof -
  obtain c ds where "exec (write_leader tk disk l) e = Some ((0, l\<lparr>lr_checksum := c\<rparr>), after_io e ds)" "leader_stored tk disk ds (l\<lparr>lr_checksum := c\<rparr>)"
    using exec_write_leader [OF assms(1-3)] by blast
  then show ?thesis using assms(4) by (auto simp: write_new_leader_def exec_bnd majority_disks_iff)
qed

lemma committed_leader_ok: "leader_ok l \<Longrightarrow> leader_ok (committed_leader tk flags n now l d)"
  by (simp add: committed_leader_def Let_def leader_ok_def)

lemma committed_leader_value:
  "lr_owner_generation (committed_leader tk flags n now l d) = pd_inp2 d" "lr_timestamp (committed_leader tk flags n now l d) = pd_inp3 d"
  by (simp_all add: committed_leader_def Let_def)

text \<open>
  C24: the commit does not look at the generation.  When the ballot carried on with a value that a host
  proposed for us in an earlier life of ours (same host id, earlier generation), \<open>paxos_lease_acquire\<close>
  stores that owner and still returns \<open>SANLK_OK\<close>; and our own delta lease, with its current generation,
  then counts for every other host as a sign that the owner has left.
\<close>

theorem commit_ignores_generation:
  assumes "good_sector_size (aq_tk aq)" "leader_ok (aq_cur_leader aq)" "smooth e" "tk_disks (aq_tk aq) = [disk]"
    and "pd_inp (aq_dblock aq) = tk_host_id (aq_tk aq)" "pd_inp2 (aq_dblock aq) < tk_host_generation (aq_tk aq)"
    and "lr_owner_id r = tk_host_id (aq_tk aq)" "lr_owner_generation r = tk_host_generation (aq_tk aq)"
  shows "\<exists>aq' e'. exec (acquire_commit flags n aq) e = Some ((SANLK_OK, aq'), e') \<and>
    lr_owner_generation (aq_leader_ret aq') = pd_inp2 (aq_dblock aq) \<and>
    leader_stored (aq_tk aq) disk (env_disks e') (aq_leader_ret aq') \<and> owner_left (aq_leader_ret aq') [r]"
proof -
  let ?nl = "committed_leader (aq_tk aq) flags n (env_time e) (aq_cur_leader aq) (aq_dblock aq)"
  obtain c ds where w: "exec (write_new_leader (aq_tk aq) ?nl) e = Some ((SANLK_OK, ?nl\<lparr>lr_checksum := c\<rparr>), after_io e ds)"
    "leader_stored (aq_tk aq) disk ds (?nl\<lparr>lr_checksum := c\<rparr>)"
    using exec_write_new_leader_one [OF assms(1) committed_leader_ok [OF assms(2)] assms(3,4)] by blast
  let ?aq = "aq\<lparr>aq_leader_ret := ?nl\<lparr>lr_checksum := c\<rparr>, aq_dblock_ret := aq_dblock aq\<rparr>"
  have "exec (acquire_commit flags n aq) e = Some ((SANLK_OK, ?aq), after_io e ds)"
    using w(1) assms(5) by (simp add: acquire_commit_def exec_bnd committed_leader_fields)
  moreover have "owner_left (aq_leader_ret ?aq) [r]" using assms(6,8) by (simp add: owner_left_def committed_leader_value)
  ultimately show ?thesis using w(2) by (intro exI [of _ ?aq] exI [of _ "after_io e ds"]) (simp add: committed_leader_value)
qed

definition lease_disk :: sync_disk where
  "lease_disk = \<lparr>sd_path = ''/dev/a'', sd_offset = 1048576, sd_sector_size = 512, sd_fd = 3\<rparr>"

definition lease_token :: "u64 \<Rightarrow> u64 \<Rightarrow> token" where
  "lease_token host_id generation = \<lparr>tk_host_id = host_id, tk_host_generation = generation, tk_io_timeout = 10, tk_flags = 0,
     tk_sector_size = 512, tk_align_size = 1048576, tk_shared_count = 0, tk_shared_bitmap = [], tk_disks = [lease_disk],
     tk_r = \<lparr>r_lockspace_name = replicate 48 0, r_name = replicate 48 0, r_lver = 0, r_data64 = 0, r_data32 = 0, r_flags = 0\<rparr>\<rparr>"

definition lease_env :: "nat list \<Rightarrow> daemon env" where
  "lease_env mem = \<lparr>env_disks = \<lambda>_ _. 0, env_time = 100, env_junk = \<lambda>_. 0, env_io = [], env_ticks = [], env_mem = mem, env_rand = [], env_open = [], env_calls = [],
     env_shared = \<lparr>dm_com = default_com, dm_spaces = [], dm_spaces_rem = [], dm_spaces_add = [], dm_external_shutdown = 0, dm_space_id_counter = 1\<rparr>\<rparr>"

definition lease_vars :: "token \<Rightarrow> leader_record \<Rightarrow> paxos_dblock \<Rightarrow> acquire_vars" where
  "lease_vars tk l d = \<lparr>aq_tk = tk, aq_leader_ret = zero_leader, aq_dblock_ret = zero_dblock, aq_dblock = d, aq_cur_leader = l,
     aq_max_mbal = 0, aq_hs = host_status_mem [], aq_host_id_disk = None\<rparr>"

theorem commit_ignores_generation_witness:
  "\<exists>aq' e'. exec (acquire_commit 0 0 (lease_vars (lease_token 1 2) zero_leader (zero_dblock\<lparr>pd_inp := 1, pd_inp2 := 1\<rparr>))) (lease_env []) =
      Some ((SANLK_OK, aq'), e') \<and> lr_owner_generation (aq_leader_ret aq') = 1 \<and> tk_host_generation (lease_token 1 2) = 2"
proof -
  let ?aq = "lease_vars (lease_token 1 2) zero_leader (zero_dblock\<lparr>pd_inp := 1, pd_inp2 := 1\<rparr>)"
  have "good_sector_size (aq_tk ?aq)" "leader_ok (aq_cur_leader ?aq)" "smooth (lease_env [])" "tk_disks (aq_tk ?aq) = [lease_disk]"
    "pd_inp (aq_dblock ?aq) = tk_host_id (aq_tk ?aq)" "pd_inp2 (aq_dblock ?aq) < tk_host_generation (aq_tk ?aq)"
    "lr_owner_id (zero_leader\<lparr>lr_owner_id := 1, lr_owner_generation := 2\<rparr>) = tk_host_id (aq_tk ?aq)"
    "lr_owner_generation (zero_leader\<lparr>lr_owner_id := 1, lr_owner_generation := 2\<rparr>) = tk_host_generation (aq_tk ?aq)"
    by (simp_all add: lease_vars_def lease_token_def good_sector_size_def smooth_def lease_env_def zero_dblock_def)
  from commit_ignores_generation [OF this, of 0 0] show ?thesis by (auto simp: lease_vars_def lease_token_def)
qed

section \<open>A failed allocation\<close>

text \<open>
  C21: \<open>run_ballot\<close> returns the positive error number of \<open>posix_memalign\<close>, which the caller does not take
  for an error: when the allocation of its buffer fails, \<open>paxos_lease_acquire\<close> commits a ballot that never
  ran.  It stores a valid, free leader with version 0 and owner 0, whatever the version of the lease was.
\<close>

theorem failed_allocation_resets_lease:
  assumes "good_sector_size (aq_tk aq)" "leader_ok (aq_cur_leader aq)" "env_io e = []" "env_mem e = [Suc m]" "tk_disks (aq_tk aq) = [disk]"
    and "ballot_iobuf_len (aq_tk aq) (sint (ucast (lr_num_hosts (aq_cur_leader aq)) :: u32)) \<noteq> 0"
    and "aq_dblock aq = zero_dblock" "tk_host_id (aq_tk aq) \<noteq> 0" "lr_lver (aq_cur_leader aq) < lr_lver (aq_cur_leader aq) + 1"
  shows "\<exists>aq' e'. exec (acquire_ballot flags n goto True mbal aq) e = Some ((SANLK_ACQUIRE_OTHER, aq'), e') \<and>
    leader_stored (aq_tk aq) disk (env_disks e') (aq_leader_ret aq') \<and> lr_lver (aq_leader_ret aq') = 0 \<and>
    lr_timestamp (aq_leader_ret aq') = LEASE_FREE \<and> lr_owner_id (aq_leader_ret aq') = 0"
proof -
  let ?tk = "aq_tk aq" and ?l = "aq_cur_leader aq" and ?e = "e\<lparr>env_mem := []\<rparr>"
  let ?nl = "committed_leader ?tk flags n (env_time e) ?l zero_dblock"
  have ballot: "exec (run_ballot ?tk (sint (ucast (lr_num_hosts ?l) :: u32)) (lr_lver ?l + 1) mbal (aq_dblock aq)) e =
      Some ((int (Suc m), zero_dblock, ?tk), ?e)"
    using assms(4-7) by (simp add: run_ballot_def Let_def exec_bnd next_or_def)
  have "smooth ?e" using assms(3) by (simp add: smooth_def)
  then obtain c ds where w: "exec (write_new_leader ?tk ?nl) ?e = Some ((SANLK_OK, ?nl\<lparr>lr_checksum := c\<rparr>), after_io ?e ds)"
    "leader_stored ?tk disk ds (?nl\<lparr>lr_checksum := c\<rparr>)"
    using exec_write_new_leader_one [OF assms(1) committed_leader_ok [OF assms(2)] _ assms(5)] by blast
  let ?aq = "aq\<lparr>aq_leader_ret := ?nl\<lparr>lr_checksum := c\<rparr>\<rparr>"
  have eq: "aq\<lparr>aq_dblock := zero_dblock\<rparr> = aq" using assms(7) by (metis acquire_vars.surjective acquire_vars.update_convs(4))
  have "exec (acquire_commit flags n aq) ?e = Some ((SANLK_ACQUIRE_OTHER, ?aq), after_io ?e ds)"
    using w(1) assms(7,8) by (simp add: acquire_commit_def exec_bnd committed_leader_fields zero_dblock_def)
  then have "exec (acquire_ballot flags n goto True mbal aq) e = Some ((SANLK_ACQUIRE_OTHER, ?aq), after_io ?e ds)"
    using ballot less_not_sym [OF assms(9)] eq by (simp add: acquire_ballot_def exec_bnd Let_def)
  with w(2) show ?thesis
    by (intro exI [of _ ?aq] exI [of _ "after_io ?e ds"]) (simp add: committed_leader_fields committed_leader_value zero_dblock_def)
qed

theorem failed_allocation_resets_lease_witness:
  "\<exists>aq' e'. exec (acquire_ballot 0 0 (\<lambda>_ _. Out_of_fuel) True 1 (lease_vars (lease_token 1 1) (zero_leader\<lparr>lr_lver := 65, lr_num_hosts := 2\<rparr>) zero_dblock))
      (lease_env [12]) = Some ((SANLK_ACQUIRE_OTHER, aq'), e') \<and> lr_lver (aq_leader_ret aq') = 0 \<and> lr_timestamp (aq_leader_ret aq') = LEASE_FREE"
proof -
  let ?l = "zero_leader\<lparr>lr_lver := 65, lr_num_hosts := 2\<rparr>"
  let ?aq = "lease_vars (lease_token 1 1) ?l zero_dblock"
  have "ballot_iobuf_len (lease_token 1 1) 2 = 2048"
    by (simp add: ballot_iobuf_len_def lease_token_def) code_simp
  then have "good_sector_size (aq_tk ?aq)" "leader_ok (aq_cur_leader ?aq)" "env_io (lease_env [12]) = []" "env_mem (lease_env [12]) = [Suc 11]"
    "tk_disks (aq_tk ?aq) = [lease_disk]" "ballot_iobuf_len (aq_tk ?aq) (sint (ucast (lr_num_hosts (aq_cur_leader ?aq)) :: u32)) \<noteq> 0"
    "aq_dblock ?aq = zero_dblock" "tk_host_id (aq_tk ?aq) \<noteq> 0" "lr_lver (aq_cur_leader ?aq) < lr_lver (aq_cur_leader ?aq) + 1"
    by (simp_all add: lease_vars_def good_sector_size_def lease_env_def leader_ok_def zero_leader_def) (simp_all add: lease_token_def)
  from failed_allocation_resets_lease [OF this, of 0 0 "\<lambda>_ _. Out_of_fuel" 1] show ?thesis by auto
qed

section \<open>Release\<close>

text \<open>
  The writes of a release: the record of a lease that was read, verified and ours, marked free, and
  otherwise with the same owner, version and names, apart from a new resource name.
\<close>

definition release_write :: "token \<Rightarrow> sanlk_resource option \<Rightarrow> daemon event list \<Rightarrow> daemon event \<Rightarrow> bool" where
  "release_write tk resrename past ev = (case ev of
     E_write d off b rv \<Rightarrow>
       list_ex (\<lambda>v. lr_owner_id v = tk_host_id tk \<and> lr_owner_generation v = tk_host_generation tk \<and>
         (let w = leader_record_in b in lr_timestamp w = LEASE_FREE \<and> lr_write_id w = tk_host_id tk \<and> lr_owner_id w = lr_owner_id v \<and>
           lr_owner_generation w = lr_owner_generation v \<and> lr_lver w = lr_lver v \<and> lr_space_name w = lr_space_name v \<and>
           lr_resource_name w = (case resrename of None \<Rightarrow> lr_resource_name v | Some r \<Rightarrow> r_name r))) (verified_reads tk past)
   | _ \<Rightarrow> True)"

definition resrename_ok :: "sanlk_resource option \<Rightarrow> bool" where
  "resrename_ok resrename = (case resrename of None \<Rightarrow> True | Some r \<Rightarrow> length (r_name r) = NAME_ID_SIZE)"

lemma released_leader_written:
  assumes "matches_verified tk past l" and "lr_owner_id l = tk_host_id tk" "lr_owner_generation l = tk_host_generation tk"
    and "resrename_ok resrename" and "leader_written (released_leader tk resrename now l) ev"
  shows "release_write tk resrename (past @ later) ev"
proof (cases ev)
  case (E_write d off b rv)
  obtain v where v: "v \<in> set (verified_reads tk past)" "leader_ok v" "leaders_match v l"
    using assms(1) by (auto simp: matches_verified_def list_ex_iff)
  have "leader_ok (released_leader tk resrename now l)"
    using v(2,3) assms(4) by (auto simp: leader_ok_def leaders_match_def released_leader_def resrename_ok_def Let_def split: option.splits)
  then obtain c where "leader_record_in b = (released_leader tk resrename now l)\<lparr>lr_checksum := c\<rparr>"
    using leader_written_record assms(5) E_write by blast
  then show ?thesis using v assms(2,3) unfolding release_write_def E_write
    by (auto simp: list_ex_iff released_leader_def leaders_match_def Let_def split: option.splits intro!: bexI [of _ v])
qed (simp_all add: release_write_def)



end
