(* ===== verification/Ballot_System.thy ===== *)
theory Ballot_System
  imports Ballot_Blocks
begin

text \<open>
  Several hosts that run ballots for one resource on shared disks.  Each host runs the program of
  \<open>run_ballot\<close> one call at a time; the calls of different hosts interleave in any way.  The disks are
  arrays of bytes.  What is assumed of them is what the code relies on: a sector is read and written in
  one piece.  A read of many sectors gets them one by one, in any order, so it can see some blocks
  before and others after a write of another host.  A write that is reported as failed may have reached
  the disk.  A host can crash at any time and start again.
\<close>

type_synonym ballot_prog = "(int \<times> paxos_dblock \<times> token) sio"

text \<open>
  A host runs no ballot, or is about to do the first call of its program, or is in the middle of a read
  of \<open>n\<close> bytes, of which it has some sectors.  A read that fails has no effect but its return value, so
  whether it fails is fixed when it starts.
\<close>

datatype proc =
    Stopped
  | Run ballot_prog
  | Fetch string nat nat "nat \<Rightarrow> bytes option" "bytes \<Rightarrow> ballot_prog"

text \<open>
  The state: disks and hosts; the ballot of each host; which host has started which ballot, and the
  ballots that ended with \<open>SANLK_OK\<close>, with the block they returned.
\<close>

record ballot_sys =
  sys_disks :: disks
  sys_proc :: "u64 \<Rightarrow> proc"
  sys_ballot :: "u64 \<Rightarrow> ballot"
  sys_started :: "ballot \<Rightarrow> u64 option"
  sys_won :: "(ballot \<times> paxos_dblock) set"

text \<open>
  The calls whose result comes from the host itself: memory, clock, random numbers, its daemon.
  \<open>posix_memalign\<close> returns 0, \<open>EINVAL\<close> or \<open>ENOMEM\<close>; this matters because \<open>run_ballot\<close> returns it unchanged, and
  the number 1 would be \<open>SANLK_OK\<close>.
\<close>

definition memalign_rv :: "int \<Rightarrow> bool" where
  "memalign_rv rv \<longleftrightarrow> rv = 0 \<or> rv = EINVAL \<or> rv = ENOMEM"

inductive io_local :: "('st, 'a) io \<Rightarrow> ('st, 'a) io \<Rightarrow> bool" where
  memalign: "memalign_rv rv \<Longrightarrow> length b = n \<Longrightarrow> io_local (Posix_memalign n k) (k rv b)"
| uninit: "length b = n \<Longrightarrow> io_local (Uninit n k) (k b)"
| opened: "io_local (Open_path p k) (k rv)"
| monotime: "io_local (Monotime k) (k t)"
| sleep: "io_local (Sleep n k) k"
| usleep: "io_local (Usleep i k) k"
| rand: "io_local (Get_rand a b k) (k r)"
| call: "io_local (Call c args k) (k rv)"
| shared: "io_local (Shared f k) (k st)"

definition num_sectors :: "lease_area \<Rightarrow> nat \<Rightarrow> nat" where
  "num_sectors g n = (n + la_sector_size g - 1) div la_sector_size g"

text \<open>
  When host \<open>h\<close> may start ballot \<open>k\<close>: nobody has used \<open>k\<close>, it is above all ballots \<open>h\<close> has started, and
  \<open>h\<close> has not already won a ballot of the same lease version.  \<open>paxos_lease_acquire\<close> takes ballot
  numbers that are congruent to the host id modulo the number of hosts, and above every number it has
  read, for the lease version after the one in the leader record.
\<close>

definition may_start :: "ballot_sys \<Rightarrow> u64 \<Rightarrow> ballot \<Rightarrow> bool" where
  "may_start s h k \<longleftrightarrow> 0 < num_of k \<and> sys_started s k = None \<and>
    (\<forall>k'. sys_started s k' = Some h \<longrightarrow> before k' k \<and> (k' \<in> fst ` sys_won s \<longrightarrow> lver_of k' < lver_of k))"

abbreviation set_proc :: "ballot_sys \<Rightarrow> u64 \<Rightarrow> proc \<Rightarrow> ballot_sys" where
  "set_proc s h p \<equiv> s\<lparr>sys_proc := (sys_proc s)(h := p)\<rparr>"

inductive sys_step :: "lease_area \<Rightarrow> ballot_sys \<Rightarrow> ballot_sys \<Rightarrow> bool" for g where
  start: "sys_proc s h = Stopped \<Longrightarrow> h \<in> area_hosts g \<Longrightarrow> token_for g h tk \<Longrightarrow> may_start s h k \<Longrightarrow>
    prog = run_ballot tk (int (la_num_hosts g)) (lver_of k) (num_of k) dblock_out \<Longrightarrow>
    sys_step g s (s\<lparr>sys_proc := (sys_proc s)(h := Run prog), sys_ballot := (sys_ballot s)(h := k),
      sys_started := (sys_started s)(k \<mapsto> h)\<rparr>)"
| local_call: "sys_proc s h = Run m \<Longrightarrow> io_local m m' \<Longrightarrow> sys_step g s (set_proc s h (Run m'))"
| dev_write: "sys_proc s h = Run (Write_iobuf d off b t c) \<Longrightarrow> rv \<le> 0 \<Longrightarrow> rv < 0 \<or> lands \<Longrightarrow>
    ds = (if lands then disk_write (sys_disks s) (sd_path d) (unat off) b else sys_disks s) \<Longrightarrow>
    sys_step g s (s\<lparr>sys_disks := ds, sys_proc := (sys_proc s)(h := Run (c rv))\<rparr>)"
| read_fails: "sys_proc s h = Run (Read_iobuf d off n t c) \<Longrightarrow> rv < 0 \<Longrightarrow> length b = n \<Longrightarrow>
    sys_step g s (set_proc s h (Run (c rv b)))"
| read_begins: "sys_proc s h = Run (Read_iobuf d off n t c) \<Longrightarrow>
    sys_step g s (set_proc s h (Fetch (sd_path d) (unat off) n Map.empty (c 0)))"
| fetch: "sys_proc s h = Fetch p off n got c \<Longrightarrow> j < num_sectors g n \<Longrightarrow> got j = None \<Longrightarrow>
    sec = disk_read (sys_disks s) p (off + j * la_sector_size g) (la_sector_size g) \<Longrightarrow>
    sys_step g s (set_proc s h (Fetch p off n (got(j \<mapsto> sec)) c))"
| read_ends: "sys_proc s h = Fetch p off n got c \<Longrightarrow> {..<num_sectors g n} \<subseteq> dom got \<Longrightarrow>
    b = take n (concat (map (the \<circ> got) [0..<num_sectors g n])) \<Longrightarrow>
    sys_step g s (set_proc s h (Run (c b)))"
| finish: "sys_proc s h = Run (Ret (rv, pd, tk)) \<Longrightarrow>
    won = (if rv = SANLK_OK then insert (sys_ballot s h, pd) (sys_won s) else sys_won s) \<Longrightarrow>
    sys_step g s (s\<lparr>sys_proc := (sys_proc s)(h := Stopped), sys_won := won\<rparr>)"
| crash: "sys_step g s (set_proc s h Stopped)"
| other: "(\<And>i h. i < length (la_disks g) \<Longrightarrow> h \<in> area_hosts g \<Longrightarrow>
      sector_intact (host_sector g ds i h) \<and> sector_block (host_sector g ds i h) = sector_block (host_sector g (sys_disks s) i h)) \<Longrightarrow>
    sys_step g s (s\<lparr>sys_disks := ds\<rparr>)"

text \<open>
  Step \<open>other\<close> is everything else that is written to the disks while ballots run: leader and request
  records, mode blocks, and the flags of a block, none of which changes the ballot in a block.

  Initially no ballot has been started; the blocks are as \<open>paxos_lease_init\<close> leaves them, or are the
  remains of erased ballots.
\<close>

definition sys_init :: "lease_area \<Rightarrow> ballot_sys \<Rightarrow> bool" where
  "sys_init g s \<longleftrightarrow> area_ok g \<and> (\<forall>h. sys_proc s h = Stopped) \<and> (\<forall>k. sys_started s k = None) \<and> sys_won s = {} \<and>
    (\<forall>i h. i < length (la_disks g) \<longrightarrow> h \<in> area_hosts g \<longrightarrow> sector_intact (host_sector g (sys_disks s) i h) \<and>
      b_mbal (sector_block (host_sector g (sys_disks s) i h)) = 0 \<and> b_bal (sector_block (host_sector g (sys_disks s) i h)) = 0)"

abbreviation sys_reachable :: "lease_area \<Rightarrow> ballot_sys \<Rightarrow> bool" where
  "sys_reachable g \<equiv> reach (sys_init g) (sys_step g)"

end
