(* ===== verification/Ballot_Sim.thy ===== *)
theory Ballot_Sim
  imports Ballot_System
begin

text \<open>
  One host seen alone: \<open>run_ballot\<close> follows the rules of a ballot.  \<open>follows\<close> runs a program along with the
  history of its ballot in the abstract specification and says that every write is one the specification
  allows in the current phase, that a block ahead makes the ballot give up, and that the program ends
  well only when the specification allows the ballot to decide.  The proof for \<open>run_ballot\<close> is sequential:
  what the other hosts do shows only in the sectors that the reads return.
\<close>

section \<open>The history of one ballot\<close>

record ballot_view =
  v_pc :: ballot_pc
  v_wrote1 :: "nat set"
  v_read1 :: "(nat \<times> u64) set"
  v_seen1 :: "(u64 \<times> ballot_value) set"
  v_value :: "ballot_value option"
  v_wrote2 :: "nat set"
  v_read2 :: "(nat \<times> u64) set"

definition new_view :: "ballot \<Rightarrow> ballot_view" where
  "new_view k = \<lparr>v_pc = Wr1 k, v_wrote1 = {}, v_read1 = {}, v_seen1 = {}, v_value = None, v_wrote2 = {}, v_read2 = {}\<rparr>"

definition area_quorum :: "lease_area \<Rightarrow> nat set \<Rightarrow> bool" where
  "area_quorum g = disk_quorum (length (la_disks g))"

text \<open>A host proposes itself: \<open>inp\<close> is its host id.\<close>

definition proposes :: "u64 \<Rightarrow> ballot_value \<Rightarrow> bool" where
  "proposes h v \<longleftrightarrow> fst v = h"

text \<open>
  What a write of block \<open>bl\<close> needs: in phase 1 an empty block of the ballot; after the reads of phase 1
  the choice of a value; in phase 2 the block with that value.
\<close>

definition is_block :: "ballot \<Rightarrow> u64 \<Rightarrow> ballot_value block \<Rightarrow> bool" where
  "is_block k c bl \<longleftrightarrow> b_lver bl = lver_of k \<and> b_mbal bl = num_of k \<and> b_bal bl = c"

lemma is_blockD: "is_block k c bl \<Longrightarrow> Block (lver_of k) (num_of k) c (b_val bl) = bl"
  by (cases bl) (simp add: is_block_def)

definition enter_write :: "lease_area \<Rightarrow> u64 \<Rightarrow> ballot_value block \<Rightarrow> ballot_view \<Rightarrow> ballot_view option" where
  "enter_write g h bl v =
    (case v_pc v of
       Wr1 k \<Rightarrow> if is_block k 0 bl then Some v else None
     | Rd1 k \<Rightarrow>
         if is_block k (num_of k) bl \<and> area_quorum g (v_wrote1 v) \<and>
            area_quorum g (all_read (area_hosts g) (v_read1 v)) \<and> may_choose (v_seen1 v) (b_val bl) \<and>
            (v_seen1 v = {} \<longrightarrow> proposes h (b_val bl))
         then Some (v\<lparr>v_value := Some (b_val bl), v_pc := Wr2 k\<rparr>) else None
     | Wr2 k \<Rightarrow> if is_block k (num_of k) bl \<and> v_value v = Some (b_val bl) then Some v else None
     | _ \<Rightarrow> None)"

definition note_write :: "nat \<Rightarrow> ballot_view \<Rightarrow> ballot_view" where
  "note_write i v =
    (case v_pc v of Wr1 k \<Rightarrow> v\<lparr>v_wrote1 := insert i (v_wrote1 v)\<rparr> | Wr2 k \<Rightarrow> v\<lparr>v_wrote2 := insert i (v_wrote2 v)\<rparr> | _ \<Rightarrow> v)"

definition enter_read :: "ballot_view \<Rightarrow> ballot_view" where
  "enter_read v = (case v_pc v of Wr1 k \<Rightarrow> v\<lparr>v_pc := Rd1 k\<rparr> | Wr2 k \<Rightarrow> v\<lparr>v_pc := Rd2 k\<rparr> | _ \<Rightarrow> v)"

definition note_reads :: "nat \<Rightarrow> u64 set \<Rightarrow> (u64 \<Rightarrow> ballot_value block) \<Rightarrow> ballot_view \<Rightarrow> ballot_view" where
  "note_reads i H B v =
    (case v_pc v of
       Rd1 k \<Rightarrow> v\<lparr>v_read1 := v_read1 v \<union> {i} \<times> H, v_seen1 := v_seen1 v \<union> (\<Union>h \<in> H. noticed k (B h))\<rparr>
     | Rd2 k \<Rightarrow> v\<lparr>v_read2 := v_read2 v \<union> {i} \<times> H\<rparr>
     | _ \<Rightarrow> v)"

fun pc_ballot :: "ballot_pc \<Rightarrow> ballot" where
  "pc_ballot Idle = Ballot 0 0"
| "pc_ballot (Wr1 k) = k"
| "pc_ballot (Rd1 k) = k"
| "pc_ballot (Wr2 k) = k"
| "pc_ballot (Rd2 k) = k"

section \<open>Programs that follow the rules\<close>

definition buf_sector :: "nat \<Rightarrow> bytes \<Rightarrow> u64 \<Rightarrow> bytes" where
  "buf_sector ss buf h = slice ((1 + unat h) * ss) ss buf"

definition sees_ahead :: "lease_area \<Rightarrow> bytes \<Rightarrow> ballot_view \<Rightarrow> bool" where
  "sees_ahead g buf v \<longleftrightarrow> (\<exists>h \<in> area_hosts g. ahead (pc_ballot (v_pc v)) (sector_block (buf_sector (la_sector_size g) buf h)))"

text \<open>\<open>None\<close> is the history of a ballot that has seen a block ahead and has to give up.\<close>

primrec follows ::
    "lease_area \<Rightarrow> u64 \<Rightarrow> ('a \<Rightarrow> ballot_view option \<Rightarrow> bool) \<Rightarrow> ('st, 'a) io \<Rightarrow> ballot_view option \<Rightarrow> bool" where
  "follows g h Q (Ret x) = Q x"
| "follows g h Q Out_of_fuel = (\<lambda>v. True)"
| "follows g h Q (Posix_memalign n k) = (\<lambda>v. \<forall>rv b. memalign_rv rv \<longrightarrow> length b = n \<longrightarrow> follows g h Q (k rv b) v)"
| "follows g h Q (Uninit n k) = (\<lambda>v. \<forall>b. length b = n \<longrightarrow> follows g h Q (k b) v)"
| "follows g h Q (Write_iobuf d off b t k) = (\<lambda>v. \<exists>i v0 v1. v = Some v0 \<and> i < length (la_disks g) \<and>
     sd_path d = fst (la_disks g ! i) \<and> unat off = block_pos g i h \<and> length b = la_sector_size g \<and> sector_intact b \<and>
     enter_write g h (sector_block b) v0 = Some v1 \<and> follows g h Q (k 0) (Some (note_write i v1)) \<and>
     (\<forall>rv < 0. follows g h Q (k rv) (Some v1)))"
| "follows g h Q (Read_iobuf d off n t k) = (\<lambda>v. \<exists>i v0. v = Some v0 \<and> i < length (la_disks g) \<and>
     sd_path d = fst (la_disks g ! i) \<and> off = snd (la_disks g ! i) \<and> (2 + la_num_hosts g) * la_sector_size g \<le> n \<and>
     (\<forall>rv b. rv < 0 \<longrightarrow> length b = n \<longrightarrow> follows g h Q (k rv b) (Some (enter_read v0))) \<and>
     (\<forall>b. length b = n \<longrightarrow> (\<forall>q \<in> area_hosts g. good_sector (buf_sector (la_sector_size g) b q)) \<longrightarrow>
       follows g h Q (k 0 b)
         (if sees_ahead g b v0 then None
          else Some (note_reads i (area_hosts g) (\<lambda>q. sector_block (buf_sector (la_sector_size g) b q)) (enter_read v0)))))"
| "follows g h Q (Open_path p k) = (\<lambda>v. \<forall>rv. follows g h Q (k rv) v)"
| "follows g h Q (Monotime k) = (\<lambda>v. \<forall>t. follows g h Q (k t) v)"
| "follows g h Q (Sleep n k) = (\<lambda>v. follows g h Q k v)"
| "follows g h Q (Usleep i k) = (\<lambda>v. follows g h Q k v)"
| "follows g h Q (Get_rand a b k) = (\<lambda>v. \<forall>r. follows g h Q (k r) v)"
| "follows g h Q (Call c args k) = (\<lambda>v. \<forall>rv. follows g h Q (k rv) v)"
| "follows g h Q (Shared f k) = (\<lambda>v. \<forall>st. follows g h Q (k st) v)"

lemma follows_bnd [io_simps]: "follows g h Q (bnd m f) v = follows g h (\<lambda>x. follows g h Q (f x)) m v"
  by (induction m arbitrary: v) (simp_all cong: conj_cong)

text \<open>How a ballot may end: with \<open>SANLK_OK\<close> only when it is decided, with its value in the block returned.\<close>

definition ballot_end :: "lease_area \<Rightarrow> ballot \<Rightarrow> int \<times> paxos_dblock \<times> token \<Rightarrow> ballot_view option \<Rightarrow> bool" where
  "ballot_end g k = (\<lambda>(rv, pd, tk) v. rv = SANLK_OK \<longrightarrow> (\<exists>v0. v = Some v0 \<and> v_pc v0 = Rd2 k \<and>
     area_quorum g (v_wrote2 v0) \<and> area_quorum g (all_read (area_hosts g) (v_read2 v0)) \<and>
     v_value v0 = Some (dblock_value pd) \<and> pd_lver pd = lver_of k))"

section \<open>Writing a block\<close>

lemma area_disk_fits:
  assumes "area_ok g" and "i < length (la_disks g)"
  shows "unat (snd (la_disks g ! i)) + 2 * (la_num_hosts g + 2) * la_sector_size g \<le> 2 ^ 64"
  using assms nth_mem [OF assms(2)] by (auto simp: area_ok_def split_beta)

lemma block_pos_word:
  assumes "area_ok g" and "i < length (la_disks g)" and "h \<in> area_hosts g"
  shows "unat (snd (la_disks g ! i) + (2 + h - 1) * word_of_int (int (la_sector_size g))) = block_pos g i h"
proof -
  have h: "unat h \<le> la_num_hosts g" "la_num_hosts g \<le> 2000" and ss: "la_sector_size g = 512 \<or> la_sector_size g = 4096"
    using assms by (auto simp: area_hosts_def area_ok_def)
  define w :: u64 where "w = word_of_int (int (la_sector_size g))"
  define o' where "o' = snd (la_disks g ! i)"
  have w: "unat w = la_sector_size g" using ss by (auto simp: w_def)
  have h1: "unat (h + 1) = unat h + 1"
    using iffD1 [OF unat_add_lem [of h 1]] h by simp
  have le: "(unat h + 1) * la_sector_size g \<le> (la_num_hosts g + 2) * la_sector_size g"
    using h by (intro mult_right_mono) auto
  have ub: "unat o' + 2 * ((la_num_hosts g + 2) * la_sector_size g) \<le> 2 ^ 64" "0 < (la_num_hosts g + 2) * la_sector_size g"
    using area_disk_fits [OF assms(1,2)] ss by (auto simp: o'_def mult.assoc)
  have "unat (h + 1) * unat w < 2 ^ 64" using le ub unfolding h1 w by linarith
  then have m: "unat ((h + 1) * w) = (unat h + 1) * la_sector_size g"
    using iffD1 [OF unat_mult_lem [of "h + 1" w]] unfolding h1 w by simp
  have "unat o' + unat ((h + 1) * w) < 2 ^ 64" using le ub unfolding m by linarith
  then have "unat (o' + (h + 1) * w) = unat o' + (unat h + 1) * la_sector_size g"
    using iffD1 [OF unat_add_lem [of o' "(h + 1) * w"]] unfolding m by simp
  moreover have "2 + h - 1 = h + 1" by simp
  ultimately show ?thesis unfolding block_pos_def w_def o'_def by (simp only: add.commute)
qed

text \<open>Blocks that differ in the checksum only.\<close>

definition same_dblock :: "paxos_dblock \<Rightarrow> paxos_dblock \<Rightarrow> bool" where
  "same_dblock pd pd' \<longleftrightarrow> pd' = pd\<lparr>pd_checksum := pd_checksum pd'\<rparr>"

lemma same_dblock_refl [simp]: "same_dblock pd pd"
  by (simp add: same_dblock_def)

lemma same_dblock_trans: "same_dblock a b \<Longrightarrow> same_dblock b c \<Longrightarrow> same_dblock a c"
  unfolding same_dblock_def by (cases a; cases b; cases c; simp)

lemma same_dblock_block:
  assumes "same_dblock pd pd'"
  shows "dblock_block pd' = dblock_block pd" "dblock_value pd' = dblock_value pd" "pd_lver pd' = pd_lver pd" "pd_mbal pd' = pd_mbal pd"
  using assms unfolding same_dblock_def by (cases pd; cases pd'; simp add: dblock_block_def dblock_value_def)+

lemma follows_write_iobuf:
  assumes "area_ok g" and "token_for g h tk" and "h \<in> area_hosts g" and "i < num_disks tk"
    and "enter_write g h (sector_block b) v0 = Some v1" and "length b = la_sector_size g" and "sector_intact b"
    and "\<And>rv. rv < 0 \<Longrightarrow> follows g h Q (k rv) (Some v1)" and "follows g h Q (k 0) (Some (note_write i v1))"
  shows "follows g h Q (Write_iobuf (tk_disks tk ! i)
      (sd_offset (tk_disks tk ! i) + (2 + h - 1) * word_of_int (tk_sector_size tk)) b t k) (Some v0)"
proof -
  have "sd_path (tk_disks tk ! i) = fst (la_disks g ! i)" "sd_offset (tk_disks tk ! i) = snd (la_disks g ! i)"
    "i < length (la_disks g)" "tk_sector_size tk = int (la_sector_size g)"
    using token_for_disk [OF assms(2)] assms(2,4) by (auto simp: token_for_def)
  then show ?thesis using assms block_pos_word [of g i h] by auto
qed

lemma follows_write_dblock:
  assumes g: "area_ok g" and tk: "token_for g h tk" and h: "h \<in> area_hosts g" and i: "i < num_disks tk"
    and w: "enter_write g h (dblock_block pd) v0 = Some v1"
    and Q: "\<And>pd' rv. same_dblock pd pd' \<Longrightarrow> rv < 0 \<Longrightarrow> Q (rv, pd') (Some v0)"
      "\<And>pd' rv. same_dblock pd pd' \<Longrightarrow> rv < 0 \<Longrightarrow> Q (rv, pd') (Some v1)"
      "\<And>pd'. same_dblock pd pd' \<Longrightarrow> Q (0, pd') (Some (note_write i v1))"
  shows "follows g h Q (write_dblock tk (tk_disks tk ! i) h pd) (Some v0)"
proof -
  obtain pd' e where seal: "dblock_seal pd (replicate dblock_size 0) = (pd', e)" by fastforce
  note sealed = sealed_sector [OF seal]
  have same: "same_dblock pd pd'" using sealed(4) by (simp add: same_dblock_def)
  have ss: "tk_sector_size tk = 512 \<or> tk_sector_size tk = 4096" "tk_sector_size tk = int (la_sector_size g)"
    using g tk by (auto simp: area_ok_def token_for_def)
  then have size: "size_t (tk_sector_size tk) = la_sector_size g" by auto
  have iobuf: "follows g h Q (Write_iobuf (tk_disks tk ! i) (sd_offset (tk_disks tk ! i) + (2 + h - 1) * word_of_int (tk_sector_size tk))
      (e @ rest) t (\<lambda>rv. Ret (rv, pd'))) (Some v0)" if "length (e @ rest) = la_sector_size g" for rest t
    using that w sealed(1,2) Q(2,3) [OF same] by (intro follows_write_iobuf [OF g tk h i, of _ v0 v1]) auto
  show ?thesis
  proof (cases "tk_flags tk AND T_WRITE_DBLOCK_MBLOCK_SH = 0")
    case True
    have "splice_at 0 e (replicate (la_sector_size g) 0) = e @ replicate (la_sector_size g - dblock_size) 0"
      by (simp add: splice_at_def sealed(3))
    then show ?thesis
      using True ss size iobuf Q(1) [OF same] sealed(3)
      by (auto simp: write_dblock_def seal write_sector_def do_write_sectors_def Let_def io_simps)
  next
    case False
    have out: "\<exists>rest. splice_at MBLOCK_OFFSET mb (splice_at 0 e buf) = e @ rest \<and> length (e @ rest) = la_sector_size g"
      if "length buf = la_sector_size g" "length mb = mblock_size" for mb buf
      using that ss sealed(3) by (intro exI [of _ "drop dblock_size (splice_at MBLOCK_OFFSET mb (splice_at 0 e buf))"])
        (auto simp: splice_at_def)
    have body: "follows g h Q (Write_iobuf (tk_disks tk ! i) (sd_offset (tk_disks tk ! i) + (2 + h - 1) * word_of_int (tk_sector_size tk))
        (splice_at MBLOCK_OFFSET mb (splice_at 0 e buf)) t (\<lambda>rv. Ret (rv, pd'))) (Some v0)"
      if "length buf = la_sector_size g" "length mb = mblock_size" for mb buf t
      using out [OF that] iobuf by metis
    have "tk_sector_size tk \<noteq> 0" using ss(1) by auto
    then show ?thesis
      using False size body mblock_disk.enc_length Q(1) [of pd]
      unfolding write_dblock_def write_dblock_mblock_sh_def Let_def seal by simp
  qed
qed

text \<open>The writes of a phase: \<open>W\<close> are the disks written so far.\<close>

definition set_writes :: "nat set \<Rightarrow> ballot_view \<Rightarrow> ballot_view" where
  "set_writes W v = (case v_pc v of Wr1 k \<Rightarrow> v\<lparr>v_wrote1 := W\<rparr> | Wr2 k \<Rightarrow> v\<lparr>v_wrote2 := W\<rparr> | _ \<Rightarrow> v)"

lemma note_write_set_writes: "note_write i (set_writes W w) = set_writes (insert i W) w"
  by (simp add: note_write_def set_writes_def split: ballot_pc.splits)

lemma enter_write_set_writes:
  "enter_write g h bl v = Some w \<Longrightarrow> enter_write g h bl (set_writes W w) = Some (set_writes W w)"
  by (auto simp: enter_write_def set_writes_def split: ballot_pc.splits if_splits)

definition written :: "ballot_view \<Rightarrow> ballot_view \<Rightarrow> nat set \<Rightarrow> ballot_view \<Rightarrow> bool" where
  "written v0 w0 W v \<longleftrightarrow> v = set_writes W w0 \<or> v = v0 \<and> W = {}"

lemma follows_ballot_writes_from:
  assumes g: "area_ok g" and tk: "token_for g h tk" and h: "h \<in> area_hosts g"
    and w: "enter_write g h (dblock_block pd) v0 = Some w0" and w0: "set_writes {} w0 = w0"
    and Q: "\<And>pd' W v. same_dblock pd pd' \<Longrightarrow> W \<subseteq> {..<num_disks tk} \<Longrightarrow> written v0 w0 W v \<Longrightarrow> Q (card W, pd') (Some v)"
  shows "i \<le> num_disks tk \<Longrightarrow> same_dblock pd pd1 \<Longrightarrow> W \<subseteq> {..<i} \<Longrightarrow> written v0 w0 W v \<Longrightarrow>
    follows g h Q (ballot_writes tk (drop i (tk_disks tk)) pd1 (card W)) (Some v)"
proof (induction "num_disks tk - i" arbitrary: i pd1 W v)
  case 0
  then show ?case using Q by simp
next
  case (Suc n)
  then have i: "i < num_disks tk" and n: "n = num_disks tk - Suc i" by simp_all
  have id: "tk_host_id tk = h" using tk by (simp add: token_for_def)
  obtain v1 where v1: "enter_write g h (dblock_block pd1) v = Some v1" "v1 = set_writes W w0"
    using Suc.prems w w0 enter_write_set_writes [OF w, of W] by (auto simp: written_def same_dblock_block)
  have fin: "finite W" "i \<notin> W" using Suc.prems(3) finite_subset by auto
  have IH: "same_dblock pd1 pd2 \<Longrightarrow> W' \<subseteq> {..<Suc i} \<Longrightarrow> written v0 w0 W' v' \<Longrightarrow>
      follows g h Q (ballot_writes tk (drop (Suc i) (tk_disks tk)) pd2 (card W')) (Some v')" for pd2 W' v'
    using Suc.hyps(1) [OF n] i same_dblock_trans [OF Suc.prems(2)] by simp
  have sub: "W \<subseteq> {..<Suc i}" "insert i W \<subseteq> {..<Suc i}" using Suc.prems(3) by auto
  have "written v0 w0 W v1" "written v0 w0 (insert i W) (note_write i v1)" "card (insert i W) = card W + 1"
    using fin by (auto simp: v1(2) written_def note_write_set_writes)
  then have "follows g h (\<lambda>(rv, dblock). follows g h Q (ballot_writes tk (drop (Suc i) (tk_disks tk)) dblock
      (if rv < 0 then card W else card W + 1))) (write_dblock tk (tk_disks tk ! i) h pd1) (Some v)"
    using IH [OF _ sub(1) Suc.prems(4)] IH [OF _ sub(1)] IH [OF _ sub(2)]
    by (intro follows_write_dblock [OF g tk h i v1(1)]) (auto split: if_splits)
  then show ?case
    by (simp add: Cons_nth_drop_Suc [OF i, symmetric] id follows_bnd split_def)
qed

lemmas follows_ballot_writes = follows_ballot_writes_from [of _ _ _ _ _ _ _ 0 _ "{}", simplified]

section \<open>Reading the blocks\<close>

lemma area_hosts_image:
  assumes "area_ok g"
  shows "area_hosts g = (\<lambda>q. of_nat (Suc q)) ` {..<la_num_hosts g}" "area_hosts g \<noteq> {}"
    and "q < la_num_hosts g \<Longrightarrow> unat (of_nat (Suc q) :: u64) = Suc q"
proof -
  have N: "la_num_hosts g \<le> 2000" "la_num_hosts g \<noteq> 0" using assms by (auto simp: area_ok_def)
  have u: "unat (of_nat (Suc q) :: u64) = Suc q" if "q < la_num_hosts g" for q
    using that N by (simp only: unsigned_of_nat) (simp add: take_bit_nat_eq_self)
  then show "q < la_num_hosts g \<Longrightarrow> unat (of_nat (Suc q) :: u64) = Suc q" .
  show im: "area_hosts g = (\<lambda>q. of_nat (Suc q)) ` {..<la_num_hosts g}"
  proof (intro equalityI subsetI)
    fix h assume "h \<in> area_hosts g"
    then have "1 \<le> unat h" "unat h \<le> la_num_hosts g" by (auto simp: area_hosts_def word_le_nat_alt)
    then show "h \<in> (\<lambda>q. of_nat (Suc q)) ` {..<la_num_hosts g}"
      by (intro image_eqI [of _ _ "unat h - 1"]) (simp_all del: of_nat_Suc)
  qed (use u in \<open>auto simp: area_hosts_def word_le_nat_alt simp del: of_nat_Suc\<close>)
  show "area_hosts g \<noteq> {}" using N unfolding im by auto
qed

lemma buf_sector_block:
  assumes "area_ok g" and "q < la_num_hosts g" and "(2 + la_num_hosts g) * la_sector_size g \<le> length buf"
  shows "sector_block (buf_sector (la_sector_size g) buf (of_nat (Suc q))) = buf_block (la_sector_size g) buf q"
    and "good_sector (buf_sector (la_sector_size g) buf (of_nat (Suc q))) = good_sector (drop ((2 + q) * la_sector_size g) buf)"
proof -
  have ss: "dblock_size \<le> la_sector_size g" using assms(1) by (auto simp: area_ok_def)
  have "(2 + q + 1) * la_sector_size g \<le> (2 + la_num_hosts g) * la_sector_size g"
    using assms(2) by (intro mult_right_mono) auto
  then have len: "dblock_size \<le> length (drop ((2 + q) * la_sector_size g) buf)"
    using assms(3) ss by (simp add: algebra_simps)
  have sec: "buf_sector (la_sector_size g) buf (of_nat (Suc q)) = take (la_sector_size g) (drop ((2 + q) * la_sector_size g) buf)"
    using area_hosts_image(3) [OF assms(1,2)] by (simp add: buf_sector_def slice_def del: of_nat_Suc)
  show "sector_block (buf_sector (la_sector_size g) buf (of_nat (Suc q))) = buf_block (la_sector_size g) buf q"
    "good_sector (buf_sector (la_sector_size g) buf (of_nat (Suc q))) = good_sector (drop ((2 + q) * la_sector_size g) buf)"
    unfolding sec good_sector_def sector_block_take [OF ss len] by (rule refl)+
qed

text \<open>The hosts of the area and the indices of the scans.\<close>

lemma scan_hosts:
  assumes "area_ok g" and "(2 + la_num_hosts g) * la_sector_size g \<le> length buf"
  shows "(\<forall>h \<in> area_hosts g. good_sector (buf_sector (la_sector_size g) buf h)) \<longleftrightarrow>
      (\<forall>q \<in> set [0..<la_num_hosts g]. good_sector (drop ((2 + q) * la_sector_size g) buf))"
    and "sees_ahead g buf v \<longleftrightarrow> (\<exists>q \<in> set [0..<la_num_hosts g]. ahead (pc_ballot (v_pc v)) (buf_block (la_sector_size g) buf q))"
    and "(\<Union>h \<in> area_hosts g. noticed k (sector_block (buf_sector (la_sector_size g) buf h))) =
      (\<Union>q \<in> set [0..<la_num_hosts g]. noticed k (buf_block (la_sector_size g) buf q))"
  using buf_sector_block [OF assms(1) _ assms(2)] unfolding sees_ahead_def area_hosts_image(1) [OF assms(1)]
  by (simp_all add: atLeast0LessThan del: of_nat_Suc)

text \<open>The reads of phase 1: \<open>R\<close> are the disks read so far and \<open>S\<close> the values seen.\<close>

definition reading1 :: "lease_area \<Rightarrow> ballot_view \<Rightarrow> ballot \<Rightarrow> nat set \<Rightarrow> (u64 \<times> ballot_value) set \<Rightarrow> ballot_view \<Rightarrow> bool" where
  "reading1 g v0 k R S v \<longleftrightarrow> v = v0\<lparr>v_pc := Rd1 k, v_read1 := R \<times> area_hosts g, v_seen1 := S\<rparr> \<or> v = v0 \<and> R = {} \<and> S = {}"

lemma reading1_enter:
  assumes "v_pc v0 = Wr1 k" and "v_read1 v0 = {}" and "v_seen1 v0 = {}" and "reading1 g v0 k R S v"
  shows "enter_read v = v0\<lparr>v_pc := Rd1 k, v_read1 := R \<times> area_hosts g, v_seen1 := S\<rparr>" "pc_ballot (v_pc v) = k"
  using assms by (auto simp: reading1_def enter_read_def)

lemma reading1_note:
  "reading1 g v0 k (insert i R) (S \<union> (\<Union>h \<in> area_hosts g. noticed k (B h)))
    (note_reads i (area_hosts g) B (v0\<lparr>v_pc := Rd1 k, v_read1 := R \<times> area_hosts g, v_seen1 := S\<rparr>))"
proof -
  have "insert i R \<times> area_hosts g = R \<times> area_hosts g \<union> {i} \<times> area_hosts g" by auto
  then show ?thesis by (simp add: reading1_def note_reads_def)
qed

lemma phase1_scan_cases:
  assumes "area_ok g" and "(2 + la_num_hosts g) * la_sector_size g \<le> length b"
    and "\<forall>q \<in> area_hosts g. good_sector (buf_sector (la_sector_size g) b q)"
    and "pc_ballot (v_pc v) = dblock_ballot dblock" and "is_bk_max S bk" and "same_token tk tk1"
  obtains e tk2 bk2 where "phase1_scan (la_sector_size g) b dblock [0..<la_num_hosts g] tk1 bk = (Some e, tk2, bk2)"
      and "e \<noteq> SANLK_OK" and "sees_ahead g b v"
  | tk2 bk2 where "phase1_scan (la_sector_size g) b dblock [0..<la_num_hosts g] tk1 bk = (None, tk2, bk2)"
      and "\<not> sees_ahead g b v" and "same_token tk tk2"
      and "is_bk_max (S \<union> (\<Union>h \<in> area_hosts g. noticed (dblock_ballot dblock) (sector_block (buf_sector (la_sector_size g) b h)))) bk2"
proof -
  note hosts = scan_hosts [OF assms(1,2)]
  have good: "\<forall>q \<in> set [0..<la_num_hosts g]. good_sector (drop ((2 + q) * la_sector_size g) b)" using hosts(1) assms(3) by blast
  obtain err tk2 bk2 where scan: "phase1_scan (la_sector_size g) b dblock [0..<la_num_hosts g] tk1 bk = (err, tk2, bk2)"
    by (metis prod_cases3)
  show thesis
  proof (cases err)
    case (Some e)
    with phase1_scan_abort [OF good scan [unfolded Some]] scan show thesis by (intro that(1)) (auto simp: hosts(2) assms(4))
  next
    case None
    with phase1_scan_done [OF good scan [unfolded None] assms(5,6)] scan show thesis
      by (intro that(2)) (auto simp: hosts(2,3) assms(4))
  qed
qed

lemma follows_phase1_reads_from:
  assumes g: "area_ok g" and tk: "token_for g h tk" and k: "k = dblock_ballot dblock"
    and len: "(2 + la_num_hosts g) * la_sector_size g \<le> n"
    and v0: "v_pc v0 = Wr1 k" "v_read1 v0 = {}" "v_seen1 v0 = {}"
    and Q1: "\<And>e tk' nr bk bufs. e \<noteq> SANLK_OK \<Longrightarrow> Q (Some e, tk', nr, bk, bufs) None"
    and Q2: "\<And>tk' R S bk bufs v. same_token tk tk' \<Longrightarrow> R \<subseteq> {..<num_disks tk} \<Longrightarrow> is_bk_max S bk \<Longrightarrow> length bufs = num_disks tk \<Longrightarrow>
      reading1 g v0 k R S v \<Longrightarrow> Q (None, tk', card R, bk, bufs) (Some v)"
  shows "i \<le> num_disks tk \<Longrightarrow> same_token tk tk1 \<Longrightarrow> R \<subseteq> {..<i} \<Longrightarrow> is_bk_max S bk \<Longrightarrow> length bufs = i \<Longrightarrow> reading1 g v0 k R S v \<Longrightarrow>
    follows g h Q (phase1_reads (int (la_num_hosts g)) n dblock (map (\<lambda>d. (d, True)) (drop i (tk_disks tk))) tk1 (card R) bk bufs) (Some v)"
proof (induction "num_disks tk - i" arbitrary: i tk1 R S bk bufs v)
  case 0
  then show ?case using Q2 by simp
next
  case (Suc m)
  then have i: "i < num_disks tk" and m: "m = num_disks tk - Suc i" by simp_all
  note disk = token_for_disk [OF tk]
  note enter = reading1_enter [OF v0 Suc.prems(6)]
  have fin: "card (insert i R) = card R + 1" using Suc.prems(3) finite_subset by (subst card_insert_disjoint) auto
  have sub: "R \<subseteq> {..<Suc i}" "insert i R \<subseteq> {..<Suc i}" using Suc.prems(3) by auto
  have ss: "nat (tk_sector_size tk1) = la_sector_size g"
    using tk same_token_fields(5) [OF Suc.prems(2)] by (simp add: token_for_def)
  let ?rest = "map (\<lambda>d. (d, True)) (drop (Suc i) (tk_disks tk))"
  have step: "follows g h Q (phase1_reads (int (la_num_hosts g)) n dblock ?rest tk2 (card R') bk2 (bufs @ [x])) (Some v')"
    if "same_token tk tk2" "R' \<subseteq> {..<Suc i}" "is_bk_max S' bk2" "reading1 g v0 k R' S' v'" for tk2 R' S' bk2 x v'
    using Suc.hyps(1) [OF m, of tk2 R' S' bk2 "bufs @ [x]" v'] that i Suc.prems(5) by simp
  have fail: "follows g h Q (phase1_reads (int (la_num_hosts g)) n dblock ?rest tk1 (card R) bk (bufs @ [x])) (Some (enter_read v))" for x
    by (rule step [OF Suc.prems(2) sub(1) Suc.prems(4)]) (simp add: enter(1) reading1_def)
  have ok: "follows g h Q (case phase1_scan (la_sector_size g) b dblock [0..<la_num_hosts g] tk1 bk of
      (Some error, tk, bk_max) \<Rightarrow> Ret (Some error, tk, card R + 1, bk_max, bufs @ [True])
    | (None, tk', bk_max) \<Rightarrow> phase1_reads (int (la_num_hosts g)) n dblock ?rest tk' (card R + 1) bk_max (bufs @ [True]))
    (if sees_ahead g b v then None
     else Some (note_reads i (area_hosts g) (\<lambda>q. sector_block (buf_sector (la_sector_size g) b q)) (enter_read v)))"
    if b: "length b = n" "\<forall>q \<in> area_hosts g. good_sector (buf_sector (la_sector_size g) b q)" for b
  proof -
    have b': "(2 + la_num_hosts g) * la_sector_size g \<le> length b" "pc_ballot (v_pc v) = dblock_ballot dblock"
      using len b(1) enter(2) k by simp_all
    show ?thesis
    proof (cases rule: phase1_scan_cases [OF g b'(1) b(2) b'(2) Suc.prems(4,2)])
      case (2 tk2 bk2)
      then show ?thesis using step [OF _ sub(2) _ reading1_note] by (simp add: fin enter(1) k)
    qed (simp add: Q1)
  qed
  show ?case
    unfolding Cons_nth_drop_Suc [OF i, symmetric]
    using disk(1) disk(2) [OF i] i len fail ok by (fastforce simp: ss)
qed

text \<open>The reads of phase 2.\<close>

definition reading2 :: "lease_area \<Rightarrow> ballot_view \<Rightarrow> ballot \<Rightarrow> nat set \<Rightarrow> ballot_view \<Rightarrow> bool" where
  "reading2 g v0 k R v \<longleftrightarrow> v = v0\<lparr>v_pc := Rd2 k, v_read2 := R \<times> area_hosts g\<rparr> \<or> v = v0 \<and> R = {}"

lemma reading2_enter:
  assumes "v_pc v0 = Wr2 k" and "v_read2 v0 = {}" and "reading2 g v0 k R v"
  shows "enter_read v = v0\<lparr>v_pc := Rd2 k, v_read2 := R \<times> area_hosts g\<rparr>" "pc_ballot (v_pc v) = k"
  using assms by (auto simp: reading2_def enter_read_def)

lemma reading2_note:
  "reading2 g v0 k (insert i R) (note_reads i (area_hosts g) B (v0\<lparr>v_pc := Rd2 k, v_read2 := R \<times> area_hosts g\<rparr>))"
proof -
  have "insert i R \<times> area_hosts g = R \<times> area_hosts g \<union> {i} \<times> area_hosts g" by auto
  then show ?thesis by (simp add: reading2_def note_reads_def)
qed

lemma follows_phase2_reads_from:
  assumes g: "area_ok g" and tk: "token_for g h tk" and k: "k = dblock_ballot dblock"
    and len: "(2 + la_num_hosts g) * la_sector_size g \<le> n" and bufs: "length bufs = num_disks tk"
    and v0: "v_pc v0 = Wr2 k" "v_read2 v0 = {}"
    and Q1: "\<And>e nr. e \<noteq> SANLK_OK \<Longrightarrow> Q (Some e, nr) None"
    and Q2: "\<And>R v. R \<subseteq> {..<num_disks tk} \<Longrightarrow> reading2 g v0 k R v \<Longrightarrow> Q (None, card R) (Some v)"
  shows "i \<le> num_disks tk \<Longrightarrow> R \<subseteq> {..<i} \<Longrightarrow> reading2 g v0 k R v \<Longrightarrow>
    follows g h Q (phase2_reads (int (la_num_hosts g)) n dblock (zip (drop i (tk_disks tk)) (drop i bufs)) tk (card R)) (Some v)"
proof (induction "num_disks tk - i" arbitrary: i R v)
  case 0
  then show ?case using Q2 by simp
next
  case (Suc m)
  then have i: "i < num_disks tk" and m: "m = num_disks tk - Suc i" by simp_all
  note disk = token_for_disk [OF tk]
  note enter = reading2_enter [OF v0 Suc.prems(3)]
  have fin: "card (insert i R) = card R + 1" using Suc.prems(2) finite_subset by (subst card_insert_disjoint) auto
  have sub: "R \<subseteq> {..<Suc i}" "insert i R \<subseteq> {..<Suc i}" using Suc.prems(2) by auto
  have ss: "nat (tk_sector_size tk) = la_sector_size g" using tk by (simp add: token_for_def)
  let ?rest = "zip (drop (Suc i) (tk_disks tk)) (drop (Suc i) bufs)"
  have step: "follows g h Q (phase2_reads (int (la_num_hosts g)) n dblock ?rest tk (card R')) (Some v')"
    if "R' \<subseteq> {..<Suc i}" "reading2 g v0 k R' v'" for R' v'
    using Suc.hyps(1) [OF m, of R' v'] that i by simp
  have fail: "follows g h Q (phase2_reads (int (la_num_hosts g)) n dblock ?rest tk (card R)) (Some (enter_read v))"
    by (rule step [OF sub(1)]) (simp add: enter(1) reading2_def)
  have ok: "follows g h Q (case phase2_scan (la_sector_size g) b dblock [0..<la_num_hosts g] of
      Some error \<Rightarrow> Ret (Some error, card R + 1)
    | None \<Rightarrow> phase2_reads (int (la_num_hosts g)) n dblock ?rest tk (card R + 1))
    (if sees_ahead g b v then None
     else Some (note_reads i (area_hosts g) (\<lambda>q. sector_block (buf_sector (la_sector_size g) b q)) (enter_read v)))"
    if b: "length b = n" "\<forall>q \<in> area_hosts g. good_sector (buf_sector (la_sector_size g) b q)" for b
  proof -
    have len': "(2 + la_num_hosts g) * la_sector_size g \<le> length b" using len b(1) by simp
    note hosts = scan_hosts [OF g len']
    have "\<forall>q \<in> set [0..<la_num_hosts g]. good_sector (drop ((2 + q) * la_sector_size g) b)" using hosts(1) b(2) by blast
    from phase2_scan_result [OF this, of dblock] show ?thesis
      using step [OF sub(2) reading2_note] hosts(2) [of v] Q1
      by (auto simp: enter k fin split: option.splits)
  qed
  show ?case
    unfolding Cons_nth_drop_Suc [OF i, symmetric] Cons_nth_drop_Suc [OF i [folded bufs], symmetric] zip_Cons_Cons
    using disk(1) disk(2) [OF i] i len fail ok step [OF sub(1) Suc.prems(3)] by (fastforce simp: ss)
qed

section \<open>The phases\<close>

lemma ballot_end_error: "e \<noteq> SANLK_OK \<Longrightarrow> ballot_end g k (ballot_out tk p e pd) v"
  by (simp add: ballot_end_def ballot_out_def)

lemma area_quorumI:
  "token_for g h tk \<Longrightarrow> W \<subseteq> {..<num_disks tk} \<Longrightarrow> majority_disks (num_disks tk) (card W) \<Longrightarrow> area_quorum g W \<and> W \<noteq> {}"
  by (auto simp: area_quorum_def disk_quorum_def majority_disks_iff token_for_disk(1))

lemma all_read_times: "hosts \<noteq> {} \<Longrightarrow> all_read hosts (R \<times> hosts) = R"
  by (auto simp: all_read_def)

lemma follows_ballot_phase2:
  assumes g: "area_ok g" and tk: "token_for g h tk" and h: "h \<in> area_hosts g" and k: "k = dblock_ballot pd"
    and len: "(2 + la_num_hosts g) * la_sector_size g \<le> n" and bufs: "length bufs = num_disks tk"
    and w: "enter_write g h (dblock_block pd) v = Some w0"
    and w0: "v_pc w0 = Wr2 k" "v_wrote2 w0 = {}" "v_read2 w0 = {}" "v_value w0 = Some (dblock_value pd)"
  shows "follows g h (ballot_end g k) (ballot_phase2 tk (int (la_num_hosts g)) n bufs pd) (Some v)"
proof -
  have reads: "follows g h (ballot_end g k) (bnd (phase2_reads (int (la_num_hosts g)) n pd' (zip (tk_disks tk) bufs) tk 0)
      (\<lambda>(error, num_reads).
        case error of
          Some e \<Rightarrow> Ret (ballot_out tk True e pd')
        | None \<Rightarrow>
            if \<not> majority_disks (num_disks tk) num_reads then Ret (ballot_out tk True SANLK_DBLOCK_READ pd')
            else Ret (ballot_out tk True SANLK_OK pd'))) (Some (set_writes W w0))"
    if pd': "same_dblock pd pd'" and W: "area_quorum g W" for pd' W
  proof -
    have v1: "v_pc (set_writes W w0) = Wr2 k" "v_read2 (set_writes W w0) = {}" "v_wrote2 (set_writes W w0) = W"
      "v_value (set_writes W w0) = Some (dblock_value pd')"
      using w0 same_dblock_block(2) [OF pd'] by (simp_all add: set_writes_def)
    have k': "k = dblock_ballot pd'" using k same_dblock_block [OF pd'] by simp
    show ?thesis
      unfolding follows_bnd using W v1 same_dblock_block(3) [OF pd']
      by (intro follows_phase2_reads_from [OF g tk k' len bufs v1(1,2), of _ 0 "{}", simplified])
        (auto simp: ballot_end_error reading2_def k dest!: area_quorumI [OF tk],
          auto simp: ballot_end_def ballot_out_def all_read_times [OF area_hosts_image(2) [OF g]])
  qed
  have "set_writes {} w0 = w0" using w0 by (simp add: set_writes_def)
  then show ?thesis
    unfolding ballot_phase2_def follows_bnd using reads area_quorumI [OF tk]
    by (intro follows_ballot_writes [OF g tk h w]) (auto simp: written_def ballot_end_error)
qed

lemma follows_ballot_choose:
  assumes g: "area_ok g" and tk: "token_for g h tk" and h: "h \<in> area_hosts g" and k: "k = dblock_ballot pd"
    and len: "(2 + la_num_hosts g) * la_sector_size g \<le> n" and bufs: "length bufs = num_disks tk"
    and bk: "is_bk_max S bk" and v: "v_pc v = Rd1 k" "v_seen1 v = S" "v_wrote2 v = {}" "v_read2 v = {}"
    and quorum: "area_quorum g (v_wrote1 v)" "area_quorum g (all_read (area_hosts g) (v_read1 v))"
  shows "follows g h (ballot_end g k) (ballot_choose tk (int (la_num_hosts g)) n bufs pd bk) (Some v)"
proof -
  have phase2: "follows g h (ballot_end g k) (ballot_phase2 tk (int (la_num_hosts g)) n bufs
        (pd\<lparr>pd_inp := a, pd_inp2 := b, pd_inp3 := c, pd_bal := pd_mbal pd, pd_checksum := 0\<rparr>)) (Some v)"
    if "may_choose S (a, b, c)" "S = {} \<longrightarrow> a = h" for a b c
    using that v quorum
    by (intro follows_ballot_phase2 [OF g tk h _ len bufs, where ?w0.0 = "v\<lparr>v_value := Some (a, b, c), v_pc := Wr2 k\<rparr>"])
      (auto simp: k enter_write_def is_block_def dblock_block_def dblock_value_def proposes_def)
  have "may_choose {} x" for x :: ballot_value by (simp add: may_choose_def)
  with phase2 is_bk_max_choose [OF bk] tk show ?thesis
    by (auto simp: ballot_choose_def dblock_value_def token_for_def)
qed

lemma follows_ballot_phase1:
  assumes g: "area_ok g" and tk: "token_for g h tk" and h: "h \<in> area_hosts g" and k: "k = dblock_ballot pd"
    and len: "(2 + la_num_hosts g) * la_sector_size g \<le> n" and pd: "pd_bal pd = 0"
  shows "follows g h (ballot_end g k) (ballot_phase1 tk (int (la_num_hosts g)) n pd) (Some (new_view k))"
proof -
  have reads: "follows g h (ballot_end g k) (bnd
      (phase1_reads (int (la_num_hosts g)) n pd' (map (\<lambda>d. (d, True)) (tk_disks tk)) tk 0 zero_dblock [])
      (\<lambda>(error, tk', num_reads, bk_max, bufs).
        case error of
          Some e \<Rightarrow> Ret (ballot_out tk' False e pd')
        | None \<Rightarrow>
            if \<not> majority_disks (num_disks tk') num_reads then Ret (ballot_out tk' False SANLK_DBLOCK_READ pd')
            else ballot_choose tk' (int (la_num_hosts g)) n bufs pd' bk_max)) (Some (set_writes W (new_view k)))"
    if pd': "same_dblock pd pd'" and W: "area_quorum g W" for pd' W
  proof -
    define v1 where "v1 = set_writes W (new_view k)"
    have v1: "v_pc v1 = Wr1 k" "v_read1 v1 = {}" "v_seen1 v1 = {}" "v_wrote1 v1 = W" "v_wrote2 v1 = {}" "v_read2 v1 = {}"
      by (simp_all add: v1_def set_writes_def new_view_def)
    have k': "k = dblock_ballot pd'" using k same_dblock_block [OF pd'] by simp
    have choose: "follows g h (ballot_end g k) (ballot_choose tk' (int (la_num_hosts g)) n bufs pd' bk) (Some v)"
      if "same_token tk tk'" "R \<subseteq> {..<num_disks tk}" "majority_disks (num_disks tk) (card R)" "is_bk_max S bk"
        "length bufs = num_disks tk" "reading1 g v1 k R S v" for tk' R S bk bufs v
    proof -
      have "token_for g h tk'" using tk same_token_fields [OF that(1)] by (simp add: token_for_def)
      moreover have "area_quorum g R" "R \<noteq> {}" using area_quorumI [OF tk that(2,3)] by simp_all
      ultimately show ?thesis
        using that v1 W same_token_fields(6) [OF that(1)] area_hosts_image(2) [OF g]
        by (intro follows_ballot_choose [OF g _ h k' len _ that(4)]) (auto simp: reading1_def all_read_times)
    qed
    have "is_bk_max {} zero_dblock" by (simp add: is_bk_max_def zero_dblock_def)
    moreover have "reading1 g v1 k {} {} v1" by (simp add: reading1_def)
    ultimately show ?thesis
      unfolding v1_def [symmetric] follows_bnd using choose
      by (intro follows_phase1_reads_from [OF g tk k' len v1(1-3), of _ 0 tk "{}" "{}" zero_dblock "[]", simplified])
        (auto simp: ballot_end_error same_token_fields(6))
  qed
  have "enter_write g h (dblock_block pd) (new_view k) = Some (new_view k)"
    by (simp add: enter_write_def is_block_def new_view_def dblock_block_def k pd)
  moreover have "set_writes {} (new_view k) = new_view k" by (simp add: set_writes_def new_view_def)
  ultimately show ?thesis
    unfolding ballot_phase1_def follows_bnd using reads area_quorumI [OF tk]
    by (intro follows_ballot_writes [OF g tk h, of pd "new_view k" "new_view k"])
      (auto simp: written_def ballot_end_error)
qed

section \<open>The whole ballot\<close>

text \<open>The buffer holds the whole lease area of a disk.\<close>

lemma ballot_iobuf_len_power:
  assumes "N \<le> 2000" and "tk_sector_size tk = int ss" and "ss = 512 \<or> ss = 4096"
  obtains j where "ballot_iobuf_len tk (int N) = int (2 ^ j * ss)" and "N + 2 \<le> 2 ^ j" and "2 ^ j < 2 * (N + 2)"
    and "(2 :: nat) ^ j * ss < 2 ^ 31"
proof -
  define v :: u32 where "v = word_of_int (int N + 2)"
  have "v = of_nat (N + 2)" by (simp add: v_def)
  then have v: "unat v = N + 2" using assms by (simp only: unsigned_of_nat) (simp add: take_bit_nat_eq_self)
  obtain j where j: "unat (roundup_power_of_two v) = 2 ^ j" "unat v \<le> 2 ^ j" "2 ^ j < 2 * unat v"
    using roundup_power_of_two_least [of v] assms v by auto
  define m where "m = (2 :: nat) ^ j * ss"
  have m: "m < 2 ^ 31" using j v assms by (auto simp: m_def)
  have "roundup_power_of_two v * word_of_int (int ss) = of_nat m"
    unfolding m_def of_nat_mult j(1) [symmetric] by simp
  then have "ballot_iobuf_len tk (int N) = sint (of_nat m :: u32)"
    by (simp add: ballot_iobuf_len_def assms(2) v_def)
  also have "\<dots> = int m" using m by (simp add: sint_uint signed_take_bit_int_eq_self unsigned_of_nat take_bit_nat_eq_self uint_nat)
  finally show thesis using that [of j] j v m by (simp add: m_def)
qed

lemma size_t_int: "m < 2 ^ 31 \<Longrightarrow> size_t (int m) = m"
  by simp

lemma ballot_iobuf_len_fits:
  assumes "area_ok g" and "tk_sector_size tk = int (la_sector_size g)"
  shows "(2 + la_num_hosts g) * la_sector_size g \<le> size_t (ballot_iobuf_len tk (int (la_num_hosts g)))"
    and "ballot_iobuf_len tk (int (la_num_hosts g)) \<noteq> 0"
proof -
  have N: "la_num_hosts g \<le> 2000" "la_sector_size g = 512 \<or> la_sector_size g = 4096" using assms by (auto simp: area_ok_def)
  obtain j where j: "ballot_iobuf_len tk (int (la_num_hosts g)) = int (2 ^ j * la_sector_size g)" "la_num_hosts g + 2 \<le> 2 ^ j"
      "(2 :: nat) ^ j * la_sector_size g < 2 ^ 31"
    using ballot_iobuf_len_power [OF N(1) assms(2) N(2)] by blast
  show "(2 + la_num_hosts g) * la_sector_size g \<le> size_t (ballot_iobuf_len tk (int (la_num_hosts g)))"
    using j(3) mult_right_mono [OF j(2), of "la_sector_size g"] unfolding j(1) size_t_int [OF j(3)] by (simp add: add.commute)
  show "ballot_iobuf_len tk (int (la_num_hosts g)) \<noteq> 0" using j N by auto
qed

lemma follows_ballot_memaligns: "(\<And>rv. memalign_rv rv \<Longrightarrow> Q rv v) \<Longrightarrow> follows g h Q (ballot_memaligns n d) v"
  by (induction d) (auto simp: memalign_rv_def)

lemma follows_run_ballot:
  assumes g: "area_ok g" and tk: "token_for g h tk" and h: "h \<in> area_hosts g"
  shows "follows g h (ballot_end g k) (run_ballot tk (int (la_num_hosts g)) (lver_of k) (num_of k) pd) (Some (new_view k))"
proof -
  have ss: "tk_sector_size tk = int (la_sector_size g)" using tk by (simp add: token_for_def)
  have err: "memalign_rv rv \<Longrightarrow> rv \<noteq> 0 \<Longrightarrow> ballot_end g k (rv, pd, tk) v" for rv v
    by (auto simp: ballot_end_def memalign_rv_def)
  have "k = dblock_ballot (zero_dblock\<lparr>pd_mbal := num_of k, pd_lver := lver_of k, pd_checksum := 0\<rparr>)" by simp
  from follows_ballot_phase1 [OF g tk h this ballot_iobuf_len_fits(1) [OF g ss]] err show ?thesis
    unfolding run_ballot_def Let_def
    using ballot_iobuf_len_fits(2) [OF g ss] by (auto simp: follows_bnd zero_dblock_def intro!: follows_ballot_memaligns)
qed

end
