(* ===== verification/Ballot_Refine.thy ===== *)
theory Ballot_Refine
  imports Ballot_Sim
begin

text \<open>
  The system of hosts that run \<open>run_ballot\<close> on byte disks implements the specification of ballots: a
  forward simulation that keeps, for every host, its program in step with the history of its ballot.
  Agreement on the decided values follows for the code.
\<close>

type_synonym spec = "(nat, u64, ballot_value) ballots"

abbreviation spec_step :: "lease_area \<Rightarrow> spec \<Rightarrow> spec \<Rightarrow> bool" where
  "spec_step g \<equiv> ballot_step (area_quorum g) proposes (area_hosts g)"

section \<open>The relation\<close>

definition view_of :: "spec \<Rightarrow> u64 \<Rightarrow> ballot \<Rightarrow> ballot_view" where
  "view_of a h k = \<lparr>v_pc = pc_of a h, v_wrote1 = wrote1 a k, v_read1 = read1 a k, v_seen1 = seen1 a k,
     v_value = value_of a k, v_wrote2 = wrote2 a k, v_read2 = read2 a k\<rparr>"

definition tracks :: "spec \<Rightarrow> u64 \<Rightarrow> ballot \<Rightarrow> ballot_view \<Rightarrow> bool" where
  "tracks a h k v \<longleftrightarrow> running (pc_of a h) k \<and> view_of a h k = v"

text \<open>
  A host in the middle of a read: what it has got so far is in the history, or contains a block ahead.
\<close>

definition fetched :: "lease_area \<Rightarrow> (nat \<Rightarrow> bytes option) \<Rightarrow> u64 set" where
  "fetched g got = {q \<in> area_hosts g. got (1 + unat q) \<noteq> None}"

definition fetch_rel ::
    "lease_area \<Rightarrow> spec \<Rightarrow> u64 \<Rightarrow> ballot \<Rightarrow> nat \<Rightarrow> nat \<Rightarrow> (nat \<Rightarrow> bytes option) \<Rightarrow> (bytes \<Rightarrow> ballot_prog) \<Rightarrow> ballot_view \<Rightarrow> bool" where
  "fetch_rel g a h k i n got c v \<longleftrightarrow>
    (2 + la_num_hosts g) * la_sector_size g \<le> n \<and> (v_pc v = Rd1 k \<or> v_pc v = Rd2 k) \<and>
    (\<forall>j sec. got j = Some sec \<longrightarrow> length sec = la_sector_size g) \<and>
    (\<forall>q \<in> fetched g got. good_sector (the (got (1 + unat q)))) \<and>
    ((\<exists>q \<in> fetched g got. ahead k (sector_block (the (got (1 + unat q))))) \<or>
     tracks a h k (note_reads i (fetched g got) (\<lambda>q. sector_block (the (got (1 + unat q)))) v)) \<and>
    (\<forall>b. length b = n \<longrightarrow> (\<forall>q \<in> area_hosts g. good_sector (buf_sector (la_sector_size g) b q)) \<longrightarrow>
      follows g h (ballot_end g k) (c b)
        (if sees_ahead g b v then None
         else Some (note_reads i (area_hosts g) (\<lambda>q. sector_block (buf_sector (la_sector_size g) b q)) v)))"

fun proc_rel :: "lease_area \<Rightarrow> spec \<Rightarrow> u64 \<Rightarrow> ballot \<Rightarrow> proc \<Rightarrow> bool" where
  "proc_rel g a h k Stopped \<longleftrightarrow> pc_of a h = Idle"
| "proc_rel g a h k (Run m) \<longleftrightarrow> (\<exists>v. follows g h (ballot_end g k) m v \<and> (\<forall>v0. v = Some v0 \<longrightarrow> tracks a h k v0))"
| "proc_rel g a h k (Fetch p off n got c) \<longleftrightarrow> (\<exists>i v. i < length (la_disks g) \<and> p = fst (la_disks g ! i) \<and>
     off = unat (snd (la_disks g ! i)) \<and> fetch_rel g a h k i n got c v)"

definition blocks_rel :: "lease_area \<Rightarrow> disks \<Rightarrow> spec \<Rightarrow> bool" where
  "blocks_rel g ds a \<longleftrightarrow> (\<forall>i h. i < length (la_disks g) \<longrightarrow> h \<in> area_hosts g \<longrightarrow>
     sector_intact (host_sector g ds i h) \<and> blocks a i h = sector_block (host_sector g ds i h))"

definition won_rel :: "ballot_sys \<Rightarrow> spec \<Rightarrow> bool" where
  "won_rel s a \<longleftrightarrow> (\<forall>(k, pd) \<in> sys_won s. decided a k \<and> value_of a k = Some (dblock_value pd) \<and> pd_lver pd = lver_of k) \<and>
     (\<forall>k. decided a k \<longrightarrow> k \<in> fst ` sys_won s)"

definition sys_rel :: "lease_area \<Rightarrow> ballot_sys \<Rightarrow> spec \<Rightarrow> bool" where
  "sys_rel g s a \<longleftrightarrow> blocks_rel g (sys_disks s) a \<and> owner_of a = sys_started s \<and> won_rel s a \<and>
     (\<forall>h. proc_rel g a h (sys_ballot s h) (sys_proc s h))"

section \<open>What concerns one host only\<close>

text \<open>Steps of host \<open>h\<close> in ballot \<open>k\<close> leave the others alone.\<close>

definition only_ballot :: "u64 \<Rightarrow> ballot \<Rightarrow> spec \<Rightarrow> spec \<Rightarrow> bool" where
  "only_ballot h k a a' \<longleftrightarrow> owner_of a' = owner_of a \<and> (\<forall>h'. h' \<noteq> h \<longrightarrow> pc_of a' h' = pc_of a h') \<and>
     (\<forall>k'. k' \<noteq> k \<longrightarrow> wrote1 a' k' = wrote1 a k' \<and> read1 a' k' = read1 a k' \<and> seen1 a' k' = seen1 a k' \<and>
        value_of a' k' = value_of a k' \<and> wrote2 a' k' = wrote2 a k' \<and> read2 a' k' = read2 a k')"

lemma only_ballot_refl [simp]: "only_ballot h k a a"
  by (simp add: only_ballot_def)

lemma only_ballot_trans: "only_ballot h k a b \<Longrightarrow> only_ballot h k b c \<Longrightarrow> only_ballot h k a c"
  by (simp add: only_ballot_def)

lemma proc_rel_cong:
  assumes "proc_rel g a h k p" and "pc_of a' h = pc_of a h" and "running (pc_of a h) k \<Longrightarrow> view_of a' h k = view_of a h k"
  shows "proc_rel g a' h k p"
proof -
  have "tracks a h k v \<Longrightarrow> tracks a' h k v" for v using assms(2,3) by (auto simp: tracks_def)
  then have "fetch_rel g a h k i n got c v \<Longrightarrow> fetch_rel g a' h k i n got c v" for i n got c v
    unfolding fetch_rel_def by blast
  with \<open>\<And>v. tracks a h k v \<Longrightarrow> tracks a' h k v\<close> assms(1,2) show ?thesis by (cases p) (simp_all, blast+)
qed

text \<open>So for a step of host \<open>h\<close> it is enough to look at \<open>h\<close>.\<close>

definition others_keep :: "u64 \<Rightarrow> (u64 \<Rightarrow> ballot) \<Rightarrow> spec \<Rightarrow> spec \<Rightarrow> bool" where
  "others_keep h bal a a' \<longleftrightarrow> (\<forall>h'. h' \<noteq> h \<longrightarrow> pc_of a' h' = pc_of a h' \<and>
     (running (pc_of a h') (bal h') \<longrightarrow> view_of a' h' (bal h') = view_of a h' (bal h')))"

lemma only_ballot_others:
  assumes "only_ballot h k a a'" and "inv_running a" and "running (pc_of a h) k"
  shows "others_keep h bal a a'"
proof -
  have "bal h' \<noteq> k" if "h' \<noteq> h" "running (pc_of a h') (bal h')" for h'
    using running_unique [OF assms(2,3), of h'] that by auto
  then show ?thesis using assms(1) by (auto simp: others_keep_def only_ballot_def view_of_def)
qed

lemma others_keep_pc: "others_keep h bal a (a\<lparr>pc_of := (pc_of a)(h := pc)\<rparr>)"
  by (simp add: others_keep_def view_of_def)

lemma proc_rel_upd:
  assumes "\<forall>h. proc_rel g a h (bal h) (procs h)" and "others_keep h bal a a'" and "proc_rel g a' h (bal h) p"
  shows "\<forall>h'. proc_rel g a' h' (bal h') ((procs(h := p)) h')"
  using assms proc_rel_cong [of g a _ _ _ a'] by (auto simp: others_keep_def)

section \<open>Steps of the specification that match the calls of a host\<close>

definition matched :: "lease_area \<Rightarrow> u64 \<Rightarrow> ballot \<Rightarrow> spec \<Rightarrow> spec \<Rightarrow> bool" where
  "matched g h k a a' \<longleftrightarrow> (spec_step g)\<^sup>*\<^sup>* a a' \<and> only_ballot h k a a' \<and> decided a' = decided a"

lemma matched_refl [simp]: "matched g h k a a"
  by (simp add: matched_def)

lemma matched_trans: "matched g h k a b \<Longrightarrow> matched g h k b c \<Longrightarrow> matched g h k a c"
  unfolding matched_def by (auto intro: only_ballot_trans)

lemma matched_step: "spec_step g a a' \<Longrightarrow> only_ballot h k a a' \<Longrightarrow> decided a' = decided a \<Longrightarrow> matched g h k a a'"
  by (simp add: matched_def r_into_rtranclp)

lemma matchedI:
  assumes "spec_step g a a'" and "only_ballot h k a a'" and "decided a' = decided a" and "tracks a' h k v" and "blocks a' = B"
  shows "\<exists>a'. matched g h k a a' \<and> tracks a' h k v \<and> blocks a' = B"
  using assms matched_step by blast

lemma tracks_pc:
  assumes "tracks a h k v"
  shows "v_pc v = Wr1 k' \<Longrightarrow> k' = k \<and> pc_of a h = Wr1 k" "v_pc v = Rd1 k' \<Longrightarrow> k' = k \<and> pc_of a h = Rd1 k"
    "v_pc v = Wr2 k' \<Longrightarrow> k' = k \<and> pc_of a h = Wr2 k" "v_pc v = Rd2 k' \<Longrightarrow> k' = k \<and> pc_of a h = Rd2 k"
  using assms by (auto simp: tracks_def view_of_def)

text \<open>The fields of a tracked history are those of the specification.\<close>

lemma tracksD:
  assumes "tracks a h k v"
  shows "pc_of a h = v_pc v" "wrote1 a k = v_wrote1 v" "read1 a k = v_read1 v" "seen1 a k = v_seen1 v"
    "value_of a k = v_value v" "wrote2 a k = v_wrote2 v" "read2 a k = v_read2 v"
  using assms by (auto simp: tracks_def view_of_def)

lemma match_enter_read:
  assumes t: "tracks a h k v"
  shows "\<exists>a'. matched g h k a a' \<and> tracks a' h k (enter_read v) \<and> blocks a' = blocks a"
proof (cases "v_pc v")
  case (Wr1 k')
  note pc = tracks_pc(1) [OF t this]
  then have step: "spec_step g a (a\<lparr>pc_of := (pc_of a)(h := Rd1 k)\<rparr>)" by (intro ballot_step.begin_read1) simp
  show ?thesis using t Wr1 pc
    by (intro matchedI [OF step]) (auto simp: only_ballot_def tracks_def view_of_def enter_read_def)
next
  case (Wr2 k')
  note pc = tracks_pc(3) [OF t this]
  then have step: "spec_step g a (a\<lparr>pc_of := (pc_of a)(h := Rd2 k)\<rparr>)" by (intro ballot_step.begin_read2) simp
  show ?thesis using t Wr2 pc
    by (intro matchedI [OF step]) (auto simp: only_ballot_def tracks_def view_of_def enter_read_def)
qed (use t in \<open>auto intro!: exI [of _ a] simp: enter_read_def\<close>)

lemma match_enter_write:
  assumes t: "tracks a h k v" and w: "enter_write g h bl v = Some v1"
  shows "\<exists>a'. matched g h k a a' \<and> tracks a' h k v1 \<and> blocks a' = blocks a"
proof (cases "v_pc v")
  case (Rd1 k')
  then have pc: "pc_of a h = Rd1 k" and k': "k' = k" using tracks_pc(2) [OF t] by simp_all
  have step: "spec_step g a (a\<lparr>value_of := (value_of a)(k \<mapsto> b_val bl), pc_of := (pc_of a)(h := Wr2 k)\<rparr>)"
    using w Rd1 k' by (intro ballot_step.choose [OF pc]) (auto simp: enter_write_def tracksD [OF t] split: if_splits)
  moreover have "v1 = v\<lparr>v_value := Some (b_val bl), v_pc := Wr2 k\<rparr>"
    using w Rd1 k' by (auto simp: enter_write_def split: if_splits)
  ultimately show ?thesis
    using t by (intro matchedI [OF step]) (auto simp: only_ballot_def tracks_def view_of_def)
qed (use t w in \<open>auto intro!: exI [of _ a] simp: enter_write_def split: if_splits\<close>)

text \<open>A write that reaches the disk; \<open>ok\<close> says whether it is reported as done.\<close>

lemma match_write:
  assumes t: "tracks a h k v1" and w: "enter_write g h bl v = Some v1"
  shows "\<exists>a'. matched g h k a a' \<and> tracks a' h k (if ok then note_write i v1 else v1) \<and> blocks a' = set_block a i h bl"
proof -
  consider (wr1) k' where "v_pc v1 = Wr1 k'" "is_block k' 0 bl"
    | (wr2) k' where "v_pc v1 = Wr2 k'" "is_block k' (num_of k') bl" "v_value v1 = Some (b_val bl)"
    using w by (auto simp: enter_write_def split: ballot_pc.splits if_splits)
  then show ?thesis
  proof cases
    case (wr1 k')
    define ws where "ws = (if ok then insert i (wrote1 a k) else wrote1 a k)"
    have k': "k' = k" and pc: "pc_of a h = Wr1 k" using tracks_pc(1) [OF t wr1(1)] by simp_all
    have ws: "ws = wrote1 a k \<or> ws = insert i (wrote1 a k)" by (simp add: ws_def)
    note step = ballot_step.write1 [of a h k ws i "area_quorum g" proposes "area_hosts g" "b_val bl", OF pc ws,
        unfolded is_blockD [OF wr1(2) [unfolded k']]]
    show ?thesis
      using t wr1(1) by (intro matchedI [OF step]) (auto simp: only_ballot_def tracks_def view_of_def note_write_def ws_def)
  next
    case (wr2 k')
    define ws where "ws = (if ok then insert i (wrote2 a k) else wrote2 a k)"
    have k': "k' = k" and pc: "pc_of a h = Wr2 k" using tracks_pc(3) [OF t wr2(1)] by simp_all
    have val: "value_of a k = Some (b_val bl)" and ws: "ws = wrote2 a k \<or> ws = insert i (wrote2 a k)"
      using tracksD(5) [OF t] wr2(3) by (simp_all add: ws_def)
    note step = ballot_step.write2 [of a h k "b_val bl" ws i "area_quorum g" proposes "area_hosts g", OF pc val ws,
        unfolded is_blockD [OF wr2(2) [unfolded k']]]
    show ?thesis
      using t wr2(1) by (intro matchedI [OF step]) (auto simp: only_ballot_def tracks_def view_of_def note_write_def ws_def)
  qed
qed

lemma match_read:
  assumes t: "tracks a h k v" and pc: "v_pc v = Rd1 k \<or> v_pc v = Rd2 k" and q: "q \<in> area_hosts g" and "\<not> ahead k (blocks a i q)"
  shows "\<exists>a'. matched g h k a a' \<and> tracks a' h k (note_reads i {q} (\<lambda>_. blocks a i q) v) \<and> blocks a' = blocks a"
  using pc
proof
  assume pc1: "v_pc v = Rd1 k"
  then have "pc_of a h = Rd1 k" using tracks_pc(2) [OF t] by simp
  note step = ballot_step.read1 [OF this q assms(4), of "area_quorum g" proposes]
  show ?thesis
    using t pc1 by (intro matchedI [OF step]) (auto simp: only_ballot_def tracks_def view_of_def note_reads_def)
next
  assume pc2: "v_pc v = Rd2 k"
  then have "pc_of a h = Rd2 k" using tracks_pc(4) [OF t] by simp
  note step = ballot_step.read2 [OF this q assms(4), of "area_quorum g" proposes]
  show ?thesis
    using t pc2 by (intro matchedI [OF step]) (auto simp: only_ballot_def tracks_def view_of_def note_reads_def)
qed

section \<open>Sectors\<close>

lemma host_sector_write:
  assumes "area_ok g" and "i < length (la_disks g)" and "length b = la_sector_size g" and "i' < length (la_disks g)"
  shows "host_sector g (disk_write ds (fst (la_disks g ! i)) (block_pos g i h) b) i' h' =
    (if i' = i \<and> h' = h then b else host_sector g ds i' h')"
proof (cases "i' = i")
  case False
  then have "fst (la_disks g ! i) \<noteq> fst (la_disks g ! i')"
    using assms nth_eq_iff_index_eq [of "map fst (la_disks g)" i i'] by (auto simp: area_ok_def)
  with False show ?thesis by (simp add: host_sector_def disk_store.rd_wr_other)
next
  case True
  have "host_sector g (disk_write ds (fst (la_disks g ! i)) (block_pos g i h) b) i h = b"
    using disk_store.rd_wr_same [of ds _ _ b] assms(3) by (simp add: host_sector_def)
  moreover have "host_sector g (disk_write ds (fst (la_disks g ! i)) (block_pos g i h) b) i h' = host_sector g ds i h'" if "h' \<noteq> h"
  proof -
    have "1 + unat h \<noteq> 1 + unat h'" using that by (simp add: word_unat_eq_iff)
    then show ?thesis
      unfolding host_sector_def block_pos_def by (rule disk_store.rd_wr_sector [OF assms(3)])
  qed
  ultimately show ?thesis using True by auto
qed

lemma blocks_rel_write:
  assumes "area_ok g" and "blocks_rel g ds a" and "i < length (la_disks g)" and "length b = la_sector_size g"
    and "sector_intact b" and "blocks a' = set_block a i h (sector_block b)"
  shows "blocks_rel g (disk_write ds (fst (la_disks g ! i)) (block_pos g i h) b) a'"
  using assms unfolding blocks_rel_def by (auto simp: host_sector_write set_block_def)

text \<open>The blocks on the disks are good: blocks of phase 2 have a value, which is a host id.\<close>

lemma blocks_rel_good:
  assumes "reach ballots_init (spec_step g) a" and "blocks_rel g ds a" and "i < length (la_disks g)" and "h \<in> area_hosts g"
  shows "good_sector (host_sector g ds i h)"
proof -
  have inv: "inv_started (area_hosts g) a" "inv_block a" "inv_valid proposes a"
    using ballots.reach_inv [OF assms(1)] by (simp_all add: ballot_inv_def)
  have rel: "sector_intact (host_sector g ds i h)" "blocks a i h = sector_block (host_sector g ds i h)"
    using assms(2-4) by (auto simp: blocks_rel_def)
  have "fst (b_val (blocks a i h)) \<noteq> 0" if "b_bal (blocks a i h) \<noteq> 0"
  proof -
    have "block_ok a h (blocks a i h)" using inv(2) by (simp add: inv_block_def)
    then have "value_of a (block_ballot (blocks a i h)) = Some (b_val (blocks a i h))" using that by (auto simp: block_ok_def)
    then obtain k' h' where "owner_of a k' = Some h'" "proposes h' (b_val (blocks a i h))" using inv(3) unfolding inv_valid_def by blast
    moreover from this have "h' \<in> area_hosts g" using inv(1) unfolding inv_started_def by blast
    ultimately show ?thesis by (auto simp: proposes_def area_hosts_def)
  qed
  then show ?thesis using rel by (simp add: good_sector_def)
qed

section \<open>Every step is matched\<close>

lemma spec_inv:
  assumes "reach ballots_init (spec_step g) a"
  shows "inv_running a" "inv_fresh a" "inv_started (area_hosts g) a"
  using ballots.reach_inv [OF assms] by (simp_all add: ballot_inv_def)

lemma sys_rel_matched:
  assumes rel: "sys_rel g s a" and reach: "reach ballots_init (spec_step g) a"
    and run: "running (pc_of a h) (sys_ballot s h)" and m: "matched g h (sys_ballot s h) a a'"
    and "blocks_rel g ds a'" and "proc_rel g a' h (sys_ballot s h) p"
  shows "\<exists>a'. (spec_step g)\<^sup>*\<^sup>* a a' \<and> sys_rel g (s\<lparr>sys_disks := ds, sys_proc := (sys_proc s)(h := p)\<rparr>) a'"
proof -
  note inv = spec_inv [OF reach]
  have only: "only_ballot h (sys_ballot s h) a a'" "decided a' = decided a" and steps: "(spec_step g)\<^sup>*\<^sup>* a a'"
    using m by (simp_all add: matched_def)
  have "\<not> decided a (sys_ballot s h)" by (rule running_facts(2) [OF inv(1) run])
  then have "decided a k \<Longrightarrow> value_of a' k = value_of a k" for k
    using only(1) by (cases "k = sys_ballot s h") (auto simp: only_ballot_def)
  then have "won_rel s a'" using rel only(2) by (auto simp: sys_rel_def won_rel_def)
  moreover have "\<forall>h'. proc_rel g a' h' (sys_ballot s h') (((sys_proc s)(h := p)) h')"
    using rel only_ballot_others [OF only(1) inv(1) run] assms(6) by (intro proc_rel_upd [of g a]) (simp_all add: sys_rel_def)
  ultimately have "sys_rel g (s\<lparr>sys_disks := ds, sys_proc := (sys_proc s)(h := p)\<rparr>) a'"
    using rel only(1) assms(5) by (simp add: sys_rel_def only_ballot_def won_rel_def)
  with steps show ?thesis by blast
qed

lemma sys_rel_same:
  assumes "sys_rel g s a" and "proc_rel g a h (sys_ballot s h) p"
  shows "\<exists>a'. (spec_step g)\<^sup>*\<^sup>* a a' \<and> sys_rel g (set_proc s h p) a'"
proof (intro exI conjI)
  show "sys_rel g (set_proc s h p) a"
    using assms by (auto simp: sys_rel_def won_rel_def)
qed simp

lemma follows_local: "io_local m m' \<Longrightarrow> follows g h Q m v \<Longrightarrow> follows g h Q m' v"
  by (induction rule: io_local.induct) auto

text \<open>Programs of hosts, with the history they are in.\<close>

lemma sys_rel_run:
  assumes "sys_rel g s a" and "sys_proc s h = Run m"
  obtains "follows g h (ballot_end g (sys_ballot s h)) m None"
  | v where "follows g h (ballot_end g (sys_ballot s h)) m (Some v)" and "tracks a h (sys_ballot s h) v"
proof -
  have "proc_rel g a h (sys_ballot s h) (Run m)" using assms by (metis sys_rel_def)
  then obtain v where "follows g h (ballot_end g (sys_ballot s h)) m v" "\<forall>v0. v = Some v0 \<longrightarrow> tracks a h (sys_ballot s h) v0"
    by auto
  then show thesis using that by (cases v) auto
qed

lemma tracks_running: "tracks a h k v \<Longrightarrow> running (pc_of a h) k"
  by (simp add: tracks_def)

lemma step_start:
  assumes rel: "sys_rel g s a" and reach: "reach ballots_init (spec_step g) a" and g: "area_ok g"
    and "sys_proc s h = Stopped" and h: "h \<in> area_hosts g" and tk: "token_for g h tk" and k: "may_start s h k"
  shows "\<exists>a'. (spec_step g)\<^sup>*\<^sup>* a a' \<and> sys_rel g (s\<lparr>sys_proc := (sys_proc s)(h := Run (run_ballot tk (int (la_num_hosts g)) (lver_of k) (num_of k) pd)),
      sys_ballot := (sys_ballot s)(h := k), sys_started := (sys_started s)(k \<mapsto> h)\<rparr>) a'"
proof -
  define a' where "a' = a\<lparr>owner_of := (owner_of a)(k \<mapsto> h), pc_of := (pc_of a)(h := Wr1 k)\<rparr>"
  have own: "owner_of a = sys_started s" and won: "won_rel s a" and procs: "\<forall>h. proc_rel g a h (sys_ballot s h) (sys_proc s h)"
    using rel by (simp_all add: sys_rel_def)
  have "proc_rel g a h (sys_ballot s h) Stopped" using procs assms(4) by metis
  then have "pc_of a h = Idle" by simp
  then have step: "spec_step g a a'"
    unfolding a'_def using h k own won by (intro ballot_step.start) (auto simp: may_start_def won_rel_def)
  have "owner_of a k = None" using k own by (simp add: may_start_def)
  then have "tracks a' h k (new_view k)"
    using spec_inv(2) [OF reach] by (simp add: inv_fresh_def tracks_def view_of_def new_view_def a'_def)
  then have "proc_rel g a' h k (Run (run_ballot tk (int (la_num_hosts g)) (lver_of k) (num_of k) pd))"
    using follows_run_ballot [OF g tk h, of k pd] unfolding proc_rel.simps by blast
  moreover have "proc_rel g a' h' (sys_ballot s h') (sys_proc s h')" if "h' \<noteq> h" for h'
    by (rule proc_rel_cong [of g a h']) (use procs that in \<open>auto simp: a'_def view_of_def\<close>)
  ultimately have "sys_rel g (s\<lparr>sys_proc := (sys_proc s)(h := Run (run_ballot tk (int (la_num_hosts g)) (lver_of k) (num_of k) pd)),
      sys_ballot := (sys_ballot s)(h := k), sys_started := (sys_started s)(k \<mapsto> h)\<rparr>) a'"
    using rel by (simp add: sys_rel_def won_rel_def blocks_rel_def a'_def)
  with step show ?thesis by blast
qed

lemma step_write:
  assumes rel: "sys_rel g s a" and reach: "reach ballots_init (spec_step g) a" and g: "area_ok g"
    and p: "sys_proc s h = Run (Write_iobuf d off b t c)" and rv: "rv \<le> 0" "rv < 0 \<or> lands"
    and ds: "ds = (if lands then disk_write (sys_disks s) (sd_path d) (unat off) b else sys_disks s)"
  shows "\<exists>a'. (spec_step g)\<^sup>*\<^sup>* a a' \<and> sys_rel g (s\<lparr>sys_disks := ds, sys_proc := (sys_proc s)(h := Run (c rv))\<rparr>) a'"
  using rel p
proof (cases rule: sys_rel_run)
  case (2 v)
  let ?k = "sys_ballot s h"
  from 2(1) obtain i v1 where w: "i < length (la_disks g)" "sd_path d = fst (la_disks g ! i)" "unat off = block_pos g i h"
      "length b = la_sector_size g" "sector_intact b" "enter_write g h (sector_block b) v = Some v1"
    and next1: "follows g h (ballot_end g ?k) (c 0) (Some (note_write i v1))" "\<forall>rv<0. follows g h (ballot_end g ?k) (c rv) (Some v1)"
    by auto
  obtain a1 where a1: "matched g h ?k a a1" "tracks a1 h ?k v1" "blocks a1 = blocks a"
    using match_enter_write [OF 2(2) w(6)] by blast
  have br: "blocks_rel g (sys_disks s) a1" using rel a1(3) by (simp add: sys_rel_def blocks_rel_def)
  have "\<exists>a2. matched g h ?k a1 a2 \<and> tracks a2 h ?k (if rv = 0 then note_write i v1 else v1) \<and> blocks_rel g ds a2"
  proof (cases lands)
    case True
    obtain a2 where "matched g h ?k a1 a2" "tracks a2 h ?k (if rv = 0 then note_write i v1 else v1)"
      "blocks a2 = set_block a1 i h (sector_block b)"
      using match_write [OF a1(2) w(6), of "rv = 0" i] by blast
    then show ?thesis using blocks_rel_write [OF g br w(1,4,5)] True ds w(2,3) by auto
  next
    case False
    then show ?thesis using a1(2) br ds rv by (intro exI [of _ a1]) auto
  qed
  then obtain a2 where a2: "matched g h ?k a1 a2" "tracks a2 h ?k (if rv = 0 then note_write i v1 else v1)" "blocks_rel g ds a2" by blast
  have "proc_rel g a2 h ?k (Run (c rv))"
    using next1 rv(1) a2(2) by (cases "rv = 0") (auto intro!: exI [of _ "Some (if rv = 0 then note_write i v1 else v1)"])
  then show ?thesis
    by (rule sys_rel_matched [OF rel reach tracks_running [OF 2(2)] matched_trans [OF a1(1) a2(1)] a2(3)])
qed simp

lemma sys_rel_matched_read:
  assumes "sys_rel g s a" and "reach ballots_init (spec_step g) a" and "running (pc_of a h) (sys_ballot s h)"
    and "matched g h (sys_ballot s h) a a'" and "blocks a' = blocks a" and "proc_rel g a' h (sys_ballot s h) p"
  shows "\<exists>a'. (spec_step g)\<^sup>*\<^sup>* a a' \<and> sys_rel g (set_proc s h p) a'"
proof -
  have "blocks_rel g (sys_disks s) a'" using assms(1,5) by (simp add: sys_rel_def blocks_rel_def)
  from sys_rel_matched [OF assms(1-4) this assms(6)] show ?thesis by simp
qed

lemma step_local:
  assumes rel: "sys_rel g s a" and reach: "reach ballots_init (spec_step g) a"
    and "sys_proc s h = Run m" and "io_local m m'"
  shows "\<exists>a'. (spec_step g)\<^sup>*\<^sup>* a a' \<and> sys_rel g (set_proc s h (Run m')) a'"
  using rel assms(3)
proof (cases rule: sys_rel_run)
  case 1
  then show ?thesis using follows_local [OF assms(4)] by (intro sys_rel_same [OF rel]) fastforce
next
  case (2 v)
  then show ?thesis using follows_local [OF assms(4)] by (intro sys_rel_same [OF rel]) fastforce
qed

text \<open>A read that starts enters the read phase; what it returns on failure does not matter.\<close>

lemma step_read_fails:
  assumes rel: "sys_rel g s a" and reach: "reach ballots_init (spec_step g) a"
    and "sys_proc s h = Run (Read_iobuf d off n t c)" and "rv < 0" and "length b = n"
  shows "\<exists>a'. (spec_step g)\<^sup>*\<^sup>* a a' \<and> sys_rel g (set_proc s h (Run (c rv b))) a'"
  using rel assms(3)
proof (cases rule: sys_rel_run)
  case (2 v)
  obtain a' where a': "matched g h (sys_ballot s h) a a'" "tracks a' h (sys_ballot s h) (enter_read v)" "blocks a' = blocks a"
    using match_enter_read [OF 2(2)] by blast
  have "follows g h (ballot_end g (sys_ballot s h)) (c rv b) (Some (enter_read v))" using 2(1) assms(4,5) by auto
  then have "proc_rel g a' h (sys_ballot s h) (Run (c rv b))" using a'(2) by fastforce
  then show ?thesis
    by (rule sys_rel_matched_read [OF rel reach tracks_running [OF 2(2)] a'(1,3)])
qed simp

lemma note_reads_empty [simp]: "note_reads i {} B v = v"
  by (simp add: note_reads_def split: ballot_pc.splits)

lemma enter_read_pc:
  assumes "tracks a h k v" and "running (pc_of a h) k"
  shows "v_pc (enter_read v) = Rd1 k \<or> v_pc (enter_read v) = Rd2 k" "pc_ballot (v_pc (enter_read v)) = pc_ballot (v_pc v)"
  using assms by (cases "pc_of a h"; auto simp: tracks_def view_of_def enter_read_def)+

lemma step_read_begins:
  assumes rel: "sys_rel g s a" and reach: "reach ballots_init (spec_step g) a"
    and "sys_proc s h = Run (Read_iobuf d off n t c)"
  shows "\<exists>a'. (spec_step g)\<^sup>*\<^sup>* a a' \<and> sys_rel g (set_proc s h (Fetch (sd_path d) (unat off) n Map.empty (c 0))) a'"
  using rel assms(3)
proof (cases rule: sys_rel_run)
  case (2 v)
  obtain a' where a': "matched g h (sys_ballot s h) a a'" "tracks a' h (sys_ballot s h) (enter_read v)" "blocks a' = blocks a"
    using match_enter_read [OF 2(2)] by blast
  note pc = enter_read_pc [OF 2(2) tracks_running [OF 2(2)]]
  obtain i where i: "i < length (la_disks g)" "sd_path d = fst (la_disks g ! i)" "off = snd (la_disks g ! i)"
      "(2 + la_num_hosts g) * la_sector_size g \<le> n"
    and cont: "\<forall>b. length b = n \<longrightarrow> (\<forall>q \<in> area_hosts g. good_sector (buf_sector (la_sector_size g) b q)) \<longrightarrow>
       follows g h (ballot_end g (sys_ballot s h)) (c 0 b)
         (if sees_ahead g b v then None
          else Some (note_reads i (area_hosts g) (\<lambda>q. sector_block (buf_sector (la_sector_size g) b q)) (enter_read v)))"
    using 2(1) by auto
  have "sees_ahead g b (enter_read v) = sees_ahead g b v" for b by (simp add: sees_ahead_def pc(2))
  then have "fetch_rel g a' h (sys_ballot s h) i n Map.empty (c 0) (enter_read v)"
    using i(4) cont pc(1) a'(2) by (simp add: fetch_rel_def fetched_def)
  then have "proc_rel g a' h (sys_ballot s h) (Fetch (sd_path d) (unat off) n Map.empty (c 0))" using i(1-3) by auto
  then show ?thesis
    by (rule sys_rel_matched_read [OF rel reach tracks_running [OF 2(2)] a'(1,3)])
qed simp

lemma note_reads_insert:
  "note_reads i {q} (\<lambda>_. B q) (note_reads i F B v) = note_reads i (insert q F) B v"
proof -
  have "{i} \<times> insert q F = {i} \<times> F \<union> {i} \<times> {q}" by auto
  then show ?thesis by (simp add: note_reads_def Un_ac split: ballot_pc.splits)
qed

lemma note_reads_cong: "(\<And>q. q \<in> F \<Longrightarrow> B q = B' q) \<Longrightarrow> note_reads i F B v = note_reads i F B' v"
  by (simp add: note_reads_def split: ballot_pc.splits)

lemma note_reads_pc [simp]: "v_pc (note_reads i F B v) = v_pc v"
  by (simp add: note_reads_def split: ballot_pc.splits)

text \<open>A sector that was fetched is that of a host, or none of the scans looks at it.\<close>

lemma fetched_upd:
  assumes "got j = None"
  shows "q \<in> area_hosts g \<Longrightarrow> j = 1 + unat q \<Longrightarrow> fetched g (got(j \<mapsto> sec)) = insert q (fetched g got)"
    and "\<nexists>q. q \<in> area_hosts g \<and> j = 1 + unat q \<Longrightarrow> fetched g (got(j \<mapsto> sec)) = fetched g got"
    and "q \<in> fetched g got \<Longrightarrow> the ((got(j \<mapsto> sec)) (1 + unat q)) = the (got (1 + unat q))"
  using assms by (auto simp: fetched_def word_unat_eq_iff)

lemma fetch_rel_upd:
  assumes f: "fetch_rel g a h k i n got c v" and j: "got j = None" and len: "length sec = la_sector_size g"
    and good: "\<And>q. q \<in> area_hosts g \<Longrightarrow> j = 1 + unat q \<Longrightarrow> good_sector sec"
    and pend: "(\<exists>q \<in> fetched g (got(j \<mapsto> sec)). ahead k (sector_block (the ((got(j \<mapsto> sec)) (1 + unat q))))) \<or>
     tracks a' h k (note_reads i (fetched g (got(j \<mapsto> sec))) (\<lambda>q. sector_block (the ((got(j \<mapsto> sec)) (1 + unat q)))) v)"
  shows "fetch_rel g a' h k i n (got(j \<mapsto> sec)) c v"
proof -
  have "good_sector (the ((got(j \<mapsto> sec)) (1 + unat q)))" if "q \<in> fetched g (got(j \<mapsto> sec))" for q
  proof (cases "j = 1 + unat q")
    case False
    then have "q \<in> fetched g got" using that by (simp add: fetched_def)
    then show ?thesis using f False unfolding fetch_rel_def by auto
  qed (use good that in \<open>auto simp: fetched_def\<close>)
  then show ?thesis using f len pend unfolding fetch_rel_def by (simp del: One_nat_def plus_1_eq_Suc)
qed

lemma fetch_rel_pend:
  assumes "fetch_rel g a h k i n got c v" and j: "got j = None"
  shows "(\<exists>q \<in> fetched g got. ahead k (sector_block (the ((got(j \<mapsto> sec)) (1 + unat q))))) \<or>
     tracks a h k (note_reads i (fetched g got) (\<lambda>q. sector_block (the ((got(j \<mapsto> sec)) (1 + unat q)))) v)"
proof -
  have old: "the ((got(j \<mapsto> sec)) (1 + unat q)) = the (got (1 + unat q))" if "q \<in> fetched g got" for q
    using fetched_upd(3) [of got j, OF j that] .
  have "note_reads i (fetched g got) (\<lambda>q. sector_block (the ((got(j \<mapsto> sec)) (1 + unat q)))) v =
      note_reads i (fetched g got) (\<lambda>q. sector_block (the (got (1 + unat q)))) v"
    by (rule note_reads_cong) (simp only: old)
  with assms(1) old show ?thesis unfolding fetch_rel_def by (metis (no_types, lifting))
qed

lemma fetch_rel_host:
  assumes f: "fetch_rel g a h k i n got c v" and j: "got j = None" and q: "q \<in> area_hosts g" "j = 1 + unat q"
    and "length sec = la_sector_size g" and "good_sector sec" and b: "blocks a i q = sector_block sec"
  shows "\<exists>a'. (a' = a \<or> running (pc_of a h) k) \<and> matched g h k a a' \<and> blocks a' = blocks a \<and>
    fetch_rel g a' h k i n (got(j \<mapsto> sec)) c v"
proof -
  let ?B = "\<lambda>q. sector_block (the ((got(j \<mapsto> sec)) (1 + unat q)))"
  have F: "fetched g (got(j \<mapsto> sec)) = insert q (fetched g got)" using fetched_upd(1) [of got j, OF j q] .
  have B: "?B q = sector_block sec" using q(2) by simp
  note upd = fetch_rel_upd [OF f j assms(5)]
  show ?thesis
  proof (cases "\<exists>q \<in> fetched g (got(j \<mapsto> sec)). ahead k (?B q)")
    case True
    then show ?thesis using assms(6) by (intro exI [of _ a]) (auto intro!: upd simp del: One_nat_def plus_1_eq_Suc)
  next
    case False
    then have t: "tracks a h k (note_reads i (fetched g got) ?B v)" and na: "\<not> ahead k (blocks a i q)"
      using fetch_rel_pend [OF f j, of sec] b B unfolding F by auto
    have "v_pc (note_reads i (fetched g got) ?B v) = Rd1 k \<or> v_pc (note_reads i (fetched g got) ?B v) = Rd2 k"
      using f by (simp add: fetch_rel_def)
    from match_read [OF t this q(1) na] obtain a' where a': "matched g h k a a'" "blocks a' = blocks a"
      "tracks a' h k (note_reads i {q} (\<lambda>_. ?B q) (note_reads i (fetched g got) ?B v))"
      unfolding b B by blast
    then have "tracks a' h k (note_reads i (fetched g (got(j \<mapsto> sec))) ?B v)" by (simp only: F note_reads_insert [of i q ?B])
    then have "fetch_rel g a' h k i n (got(j \<mapsto> sec)) c v" using assms(6) by (intro upd) auto
    with a'(1,2) tracks_running [OF t] show ?thesis by blast
  qed
qed

lemma step_fetch:
  assumes rel: "sys_rel g s a" and reach: "reach ballots_init (spec_step g) a" and "sys_proc s h = Fetch p off n got c"
    and j: "got j = None" and sec: "sec = disk_read (sys_disks s) p (off + j * la_sector_size g) (la_sector_size g)"
  shows "\<exists>a'. (spec_step g)\<^sup>*\<^sup>* a a' \<and> sys_rel g (set_proc s h (Fetch p off n (got(j \<mapsto> sec)) c)) a'"
proof -
  let ?k = "sys_ballot s h"
  have "proc_rel g a h ?k (Fetch p off n got c)" using rel assms(3) by (metis sys_rel_def)
  then obtain i v where i: "i < length (la_disks g)" "p = fst (la_disks g ! i)" "off = unat (snd (la_disks g ! i))"
    and f: "fetch_rel g a h ?k i n got c v" by auto
  have p': "proc_rel g a' h ?k (Fetch p off n (got(j \<mapsto> sec)) c)" if "fetch_rel g a' h ?k i n (got(j \<mapsto> sec)) c v" for a'
    using i that by auto
  have len: "length sec = la_sector_size g" by (simp add: sec)
  show ?thesis
  proof (cases "\<exists>q. q \<in> area_hosts g \<and> j = 1 + unat q")
    case False
    have "fetched g (got(j \<mapsto> sec)) = fetched g got" using fetched_upd(2) [of got j, OF j False] .
    then have "fetch_rel g a h ?k i n (got(j \<mapsto> sec)) c v"
      using fetch_rel_pend [OF f j, of sec] False by (intro fetch_rel_upd [OF f j len]) auto
    then show ?thesis by (intro sys_rel_same [OF rel] p')
  next
    case True
    then obtain q where q: "q \<in> area_hosts g" "j = 1 + unat q" by blast
    have "host_sector g (sys_disks s) i q = sec" using i(2,3) q(2) by (simp add: host_sector_def block_pos_def sec)
    then have "good_sector sec" "blocks a i q = sector_block sec"
      using blocks_rel_good [OF reach _ i(1) q(1)] rel i(1) q(1) by (auto simp: sys_rel_def blocks_rel_def)
    from fetch_rel_host [OF f j q len this] obtain a' where a': "a' = a \<or> running (pc_of a h) ?k" "matched g h ?k a a'"
        "blocks a' = blocks a" "fetch_rel g a' h ?k i n (got(j \<mapsto> sec)) c v" by blast
    from a'(1) show ?thesis
    proof
      assume "a' = a"
      then show ?thesis using p' [OF a'(4)] by (intro sys_rel_same [OF rel]) simp
    next
      assume "running (pc_of a h) ?k"
      then show ?thesis by (rule sys_rel_matched_read [OF rel reach _ a'(2,3) p' [OF a'(4)]])
    qed
  qed
qed

text \<open>When all sectors are there, the buffer is what was fetched.\<close>

lemma slice_concat_sectors:
  assumes "\<And>j. j < m \<Longrightarrow> length (f j) = ss"
  shows "length (concat (map f [0..<m])) = m * ss" and "j < m \<Longrightarrow> slice (j * ss) ss (concat (map f [0..<m])) = f j"
proof -
  have len: "length (concat (map f [0..<m])) = m * ss" if "\<And>j. j < m \<Longrightarrow> length (f j) = ss" for m
    using that by (induction m) simp_all
  from len assms show "length (concat (map f [0..<m])) = m * ss" .
  assume j: "j < m"
  then have "[0..<m] = [0..<j] @ j # [Suc j..<m]" by (metis le0 less_imp_le upt_conv_Cons upt_add_eq_append le_add_diff_inverse)
  moreover have "length (concat (map f [0..<j])) = j * ss" using len [of j] assms j by simp
  ultimately show "slice (j * ss) ss (concat (map f [0..<m])) = f j" using assms [OF j] by (simp add: slice_def)
qed

lemma fetched_buffer:
  assumes g: "area_ok g" and f: "fetch_rel g a h k i n got c v" and dom: "{..<num_sectors g n} \<subseteq> dom got"
    and b: "b = take n (concat (map (the \<circ> got) [0..<num_sectors g n]))"
  shows "length b = n" and "q \<in> area_hosts g \<Longrightarrow> buf_sector (la_sector_size g) b q = the (got (1 + unat q))"
    and "fetched g got = area_hosts g"
proof -
  define m where "m = num_sectors g n"
  have ss: "0 < la_sector_size g" using g by (auto simp: area_ok_def)
  have n: "n \<le> m * la_sector_size g"
    using ss div_mult_mod_eq [of "n + la_sector_size g - 1" "la_sector_size g"] mod_less_divisor [OF ss, of "n + la_sector_size g - 1"]
    unfolding m_def num_sectors_def by linarith
  have N: "(2 + la_num_hosts g) * la_sector_size g \<le> n" using f by (simp add: fetch_rel_def)
  then have "(2 + la_num_hosts g) * la_sector_size g \<le> m * la_sector_size g" using n by simp
  then have m: "2 + la_num_hosts g \<le> m" using ss by (simp only: mult_le_cancel2)
  have len: "length ((the \<circ> got) j) = la_sector_size g" if "j < m" for j
    using dom f that unfolding fetch_rel_def m_def by auto
  note slices = slice_concat_sectors [of m "the \<circ> got" "la_sector_size g", OF len]
  show "length b = n" using slices(1) n by (simp add: b m_def min_def)
  have "1 + unat q \<in> dom got" if "q \<in> area_hosts g" for q
    using that dom m by (intro subsetD [OF dom]) (simp add: area_hosts_def m_def)
  then show "fetched g got = area_hosts g" by (auto simp: fetched_def)
  assume q: "q \<in> area_hosts g"
  then have "(1 + unat q) + 1 \<le> 2 + la_num_hosts g" by (simp add: area_hosts_def)
  then have "((1 + unat q) + 1) * la_sector_size g \<le> (2 + la_num_hosts g) * la_sector_size g" by (rule mult_right_mono) simp
  then have "(1 + unat q) * la_sector_size g + la_sector_size g \<le> n" using N unfolding add_mult_distrib mult_1 by linarith
  then have "buf_sector (la_sector_size g) b q = slice ((1 + unat q) * la_sector_size g) (la_sector_size g) (concat (map (the \<circ> got) [0..<m]))"
    by (simp add: buf_sector_def b m_def slice_def drop_take min_def)
  also have "\<dots> = the (got (1 + unat q))" using slices(2) [of "1 + unat q"] q m by (simp add: area_hosts_def)
  finally show "buf_sector (la_sector_size g) b q = the (got (1 + unat q))" .
qed

lemma step_read_ends:
  assumes g: "area_ok g" and rel: "sys_rel g s a" and "sys_proc s h = Fetch p off n got c"
    and dom: "{..<num_sectors g n} \<subseteq> dom got" and b: "b = take n (concat (map (the \<circ> got) [0..<num_sectors g n]))"
  shows "\<exists>a'. (spec_step g)\<^sup>*\<^sup>* a a' \<and> sys_rel g (set_proc s h (Run (c b))) a'"
proof -
  let ?k = "sys_ballot s h" and ?B = "\<lambda>q. sector_block (the (got (1 + unat q)))"
  have "proc_rel g a h ?k (Fetch p off n got c)" using rel assms(3) by (metis sys_rel_def)
  then obtain i v where f: "fetch_rel g a h ?k i n got c v" by auto
  note buf = fetched_buffer [OF g f dom b]
  have good: "\<forall>q \<in> area_hosts g. good_sector (buf_sector (la_sector_size g) b q)" and pc: "pc_ballot (v_pc v) = ?k"
    and pend: "(\<exists>q \<in> area_hosts g. ahead ?k (?B q)) \<or> tracks a h ?k (note_reads i (area_hosts g) ?B v)"
    and cont: "\<And>b. length b = n \<Longrightarrow> \<forall>q \<in> area_hosts g. good_sector (buf_sector (la_sector_size g) b q) \<Longrightarrow>
      follows g h (ballot_end g ?k) (c b) (if sees_ahead g b v then None
         else Some (note_reads i (area_hosts g) (\<lambda>q. sector_block (buf_sector (la_sector_size g) b q)) v))"
    using f buf(2) unfolding fetch_rel_def buf(3) by auto
  have ahead: "sees_ahead g b v \<longleftrightarrow> (\<exists>q \<in> area_hosts g. ahead ?k (?B q))" by (auto simp: sees_ahead_def pc buf(2))
  have "note_reads i (area_hosts g) (\<lambda>q. sector_block (buf_sector (la_sector_size g) b q)) v = note_reads i (area_hosts g) ?B v"
    by (rule note_reads_cong) (simp only: buf(2))
  then have "proc_rel g a h ?k (Run (c b))" using cont [OF buf(1) good] pend ahead by (auto split: if_splits)
  then show ?thesis by (rule sys_rel_same [OF rel])
qed

lemma step_stop:
  assumes "sys_rel g s a"
  shows "\<exists>a'. (spec_step g)\<^sup>*\<^sup>* a a' \<and> sys_rel g (set_proc s h Stopped) a'"
proof -
  define a' where "a' = a\<lparr>pc_of := (pc_of a)(h := Idle)\<rparr>"
  have "\<forall>h'. proc_rel g a' h' (sys_ballot s h') (((sys_proc s)(h := Stopped)) h')"
    using assms by (intro proc_rel_upd [of g a]) (simp_all add: sys_rel_def a'_def others_keep_pc)
  then have "sys_rel g (set_proc s h Stopped) a'"
    using assms by (simp add: sys_rel_def won_rel_def blocks_rel_def a'_def)
  moreover have "spec_step g a a'" unfolding a'_def by (rule ballot_step.give_up)
  ultimately show ?thesis by blast
qed

lemma step_finish:
  assumes rel: "sys_rel g s a" and reach: "reach ballots_init (spec_step g) a" and p: "sys_proc s h = Run (Ret (rv, pd, tk))"
    and won: "won = (if rv = SANLK_OK then insert (sys_ballot s h, pd) (sys_won s) else sys_won s)"
  shows "\<exists>a'. (spec_step g)\<^sup>*\<^sup>* a a' \<and> sys_rel g (s\<lparr>sys_proc := (sys_proc s)(h := Stopped), sys_won := won\<rparr>) a'"
proof (cases "rv = SANLK_OK")
  case False
  then show ?thesis using step_stop [OF rel, of h] won by simp
next
  case True
  let ?k = "sys_ballot s h"
  from rel p obtain v where t: "tracks a h ?k v" and v: "v_pc v = Rd2 ?k" "area_quorum g (v_wrote2 v)"
      "area_quorum g (all_read (area_hosts g) (v_read2 v))" "v_value v = Some (dblock_value pd)" "pd_lver pd = lver_of ?k"
    by (cases rule: sys_rel_run) (use True in \<open>auto simp: ballot_end_def\<close>)
  define a' where "a' = a\<lparr>decided := (decided a)(?k := True), pc_of := (pc_of a)(h := Idle)\<rparr>"
  have step: "spec_step g a a'"
    unfolding a'_def using v tracks_pc(4) [OF t v(1)] by (intro ballot_step.decide) (simp_all add: tracksD [OF t])
  have "others_keep h (sys_ballot s) a a'" by (simp add: others_keep_def view_of_def a'_def)
  then have "\<forall>h'. proc_rel g a' h' (sys_ballot s h') (((sys_proc s)(h := Stopped)) h')"
    using rel by (intro proc_rel_upd [of g a]) (simp_all add: sys_rel_def a'_def)
  moreover have "value_of a ?k = Some (dblock_value pd)" using tracksD(5) [OF t] v(4) by simp
  ultimately have "sys_rel g (s\<lparr>sys_proc := (sys_proc s)(h := Stopped), sys_won := won\<rparr>) a'"
    using rel True v(5) by (auto simp: sys_rel_def won_rel_def blocks_rel_def a'_def won)
  with step show ?thesis by blast
qed

lemma step_other:
  assumes "sys_rel g s a"
    and "\<And>i h. i < length (la_disks g) \<Longrightarrow> h \<in> area_hosts g \<Longrightarrow> sector_intact (host_sector g ds i h) \<and>
      sector_block (host_sector g ds i h) = sector_block (host_sector g (sys_disks s) i h)"
  shows "\<exists>a'. (spec_step g)\<^sup>*\<^sup>* a a' \<and> sys_rel g (s\<lparr>sys_disks := ds\<rparr>) a'"
proof (intro exI conjI)
  show "sys_rel g (s\<lparr>sys_disks := ds\<rparr>) a" using assms by (simp add: sys_rel_def won_rel_def blocks_rel_def)
qed simp

lemma sys_step_matched:
  assumes "area_ok g" and "sys_step g s s'" and "sys_rel g s a" and "reach ballots_init (spec_step g) a"
  shows "\<exists>a'. (spec_step g)\<^sup>*\<^sup>* a a' \<and> sys_rel g s' a'"
  using assms(2,1,3,4)
  by (induction rule: sys_step.induct)
    (simp_all only: step_start step_local step_write step_read_fails step_read_begins step_fetch step_read_ends step_finish
      step_stop step_other)

lemma sys_init_matched:
  assumes "sys_init g s"
  shows "\<exists>a. ballots_init a \<and> sys_rel g s a"
proof -
  define a :: spec where "a = \<lparr>owner_of = \<lambda>_. None, wrote1 = \<lambda>_. {}, read1 = \<lambda>_. {}, seen1 = \<lambda>_. {}, value_of = \<lambda>_. None,
    wrote2 = \<lambda>_. {}, read2 = \<lambda>_. {}, decided = \<lambda>_. False, pc_of = \<lambda>_. Idle,
    blocks = \<lambda>i h. if i < length (la_disks g) \<and> h \<in> area_hosts g then sector_block (host_sector g (sys_disks s) i h) else Block 0 0 0 (0, 0, 0)\<rparr>"
  have "ballots_init a" using assms by (auto simp: ballots_init_def a_def sys_init_def)
  moreover have "sys_rel g s a" using assms by (auto simp: sys_rel_def blocks_rel_def won_rel_def a_def sys_init_def)
  ultimately show ?thesis by blast
qed

section \<open>Refinement and agreement\<close>

interpretation ballot_code: simulation "sys_init g" "sys_step g" ballots_init "spec_step g" "\<lambda>s a. area_ok g \<and> sys_rel g s a" for g
proof
  show "\<exists>a. ballots_init a \<and> area_ok g \<and> sys_rel g s a" if "sys_init g s" for s
    using sys_init_matched [OF that] that by (auto simp: sys_init_def)
  show "\<exists>a'. (spec_step g)\<^sup>*\<^sup>* a a' \<and> area_ok g \<and> sys_rel g s' a'"
    if "area_ok g \<and> sys_rel g s a" "reach ballots_init (spec_step g) a" "sys_step g s s'" for s a s'
    using sys_step_matched [of g s s' a] that by blast
qed

text \<open>What the simulation gives for the ballots that were won.\<close>

lemma sys_won_spec:
  assumes "sys_reachable g s"
  obtains a where "reach ballots_init (spec_step g) a" and "owner_of a = sys_started s" and "blocks_rel g (sys_disks s) a" and "area_ok g"
    and "\<And>k pd. (k, pd) \<in> sys_won s \<Longrightarrow> decided a k \<and> value_of a k = Some (dblock_value pd) \<and> pd_lver pd = lver_of k"
proof -
  obtain a where a: "reach ballots_init (spec_step g) a" "area_ok g" "sys_rel g s a" using ballot_code.reach_sim [OF assms] by blast
  have "(k, pd) \<in> sys_won s \<Longrightarrow> decided a k \<and> value_of a k = Some (dblock_value pd) \<and> pd_lver pd = lver_of k" for k pd
    using a(3) by (auto simp: sys_rel_def won_rel_def)
  with a show thesis using that by (simp add: sys_rel_def)
qed

lemma won_agree:
  assumes "sys_reachable g s" and "(k, pd) \<in> sys_won s" and "(k', pd') \<in> sys_won s" and "pd_lver pd = pd_lver pd'"
  shows "dblock_value pd = dblock_value pd'"
  using assms(1)
proof (rule sys_won_spec)
  fix a
  assume a: "reach ballots_init (spec_step g) a"
    and won: "\<And>k pd. (k, pd) \<in> sys_won s \<Longrightarrow> decided a k \<and> value_of a k = Some (dblock_value pd) \<and> pd_lver pd = lver_of k"
  have "value_of a k = value_of a k'"
    using won [OF assms(2)] won [OF assms(3)] assms(4)
    by (intro majority.ballot_agreement [OF a [unfolded area_quorum_def]]) simp_all
  then show ?thesis using won [OF assms(2)] won [OF assms(3)] by simp
qed

lemma won_valid:
  assumes "sys_reachable g s" and "(k, pd) \<in> sys_won s"
  shows "\<exists>k'. sys_started s k' = Some (pd_inp pd) \<and> lver_of k' = pd_lver pd"
  using assms(1)
proof (rule sys_won_spec)
  fix a
  assume a: "reach ballots_init (spec_step g) a" "owner_of a = sys_started s"
    and won: "\<And>k pd. (k, pd) \<in> sys_won s \<Longrightarrow> decided a k \<and> value_of a k = Some (dblock_value pd) \<and> pd_lver pd = lver_of k"
  have "inv_valid proposes a" using ballots.reach_inv [OF a(1)] by (simp add: ballot_inv_def)
  then obtain k' h where "owner_of a k' = Some h" "lver_of k' = lver_of k" "proposes h (dblock_value pd)"
    using won [OF assms(2)] unfolding inv_valid_def by blast
  then show ?thesis using a(2) won [OF assms(2)] by (auto simp: proposes_def dblock_value_def)
qed

end
