(* ===== verification/Ballot_Solo.thy ===== *)
theory Ballot_Solo
  imports Ballot_Refine
begin

text \<open>
  A ballot that nobody disturbs succeeds: when the devices work and no block on disk is ahead of the
  ballot, \<open>run_ballot\<close> returns \<open>SANLK_OK\<close>.  The same runs exist in the system of many hosts.
\<close>

section \<open>Undisturbed writes\<close>

lemma exec_write_dblock_smooth:
  assumes g: "area_ok g" and tk: "token_for g h tk" and h: "h \<in> area_hosts g" and i: "i < num_disks tk" and e: "smooth e"
  shows "\<exists>pd' b. exec (write_dblock tk (tk_disks tk ! i) h pd) e =
      Some ((0, pd'), after_io e (disk_write (env_disks e) (fst (la_disks g ! i)) (block_pos g i h) b)) \<and>
    same_dblock pd pd' \<and> length b = la_sector_size g \<and> sector_block b = dblock_block pd \<and> sector_intact b"
proof -
  obtain pd' d where seal: "dblock_seal pd (replicate dblock_size 0) = (pd', d)" by fastforce
  note sealed = sealed_sector [OF seal]
  have same: "same_dblock pd pd'" using sealed(4) by (simp add: same_dblock_def)
  have ss: "tk_sector_size tk = 512 \<or> tk_sector_size tk = 4096" "tk_sector_size tk = int (la_sector_size g)"
    using g tk by (auto simp: area_ok_def token_for_def)
  then have size: "size_t (tk_sector_size tk) = la_sector_size g" by auto
  have disk: "sd_path (tk_disks tk ! i) = fst (la_disks g ! i)"
    "unat (sd_offset (tk_disks tk ! i) + (2 + h - 1) * word_of_int (tk_sector_size tk)) = block_pos g i h"
    using token_for_disk [OF tk] i block_pos_word [OF g _ h, of i] ss(2) by simp_all
  show ?thesis
  proof (cases "tk_flags tk AND T_WRITE_DBLOCK_MBLOCK_SH = 0")
    case True
    define b where "b = splice_at 0 d (replicate (la_sector_size g) 0)"
    have b: "b = d @ replicate (la_sector_size g - dblock_size) 0" by (simp add: b_def splice_at_def sealed(3))
    have "exec (write_dblock tk (tk_disks tk ! i) h pd) e =
        Some ((0, pd'), after_io e (disk_write (env_disks e) (fst (la_disks g ! i)) (block_pos g i h) b))"
      unfolding write_dblock_def seal using True ss sealed(3) disk
      by (auto simp: write_sector_def do_write_sectors_def Let_def io_simps size smooth_memalign [OF e] smooth_write [OF e] b_def
          simp del: exec.simps(3,5))
    then show ?thesis using same sealed ss by (auto simp: b)
  next
    case False
    define b where "b = splice_at MBLOCK_OFFSET (mode_block_out \<lparr>mb_flags = MBLOCK_SHARED, mb_generation = tk_host_generation tk\<rparr>
      (map (env_junk e) [0..<mblock_size])) (splice_at 0 d (map (env_junk e) [0..<la_sector_size g]))"
    have b: "\<exists>rest. b = d @ rest \<and> length b = la_sector_size g"
      using ss sealed(3) by (intro exI [of _ "drop dblock_size b"]) (auto simp: splice_at_def b_def mblock_disk.enc_length)
    have "tk_sector_size tk \<noteq> 0" using ss(1) by auto
    then have "exec (write_dblock tk (tk_disks tk ! i) h pd) e =
        Some ((0, pd'), after_io e (disk_write (env_disks e) (fst (la_disks g ! i)) (block_pos g i h) b))"
      unfolding write_dblock_def write_dblock_mblock_sh_def Let_def seal using False disk
      by (simp add: size smooth_memalign [OF e] smooth_write [OF e] b_def del: exec.simps(3,5))
    then show ?thesis using same sealed b by auto
  qed
qed

text \<open>The writes of a phase: our block is on every disk, the other blocks are as before.\<close>

definition own_blocks :: "lease_area \<Rightarrow> u64 \<Rightarrow> paxos_dblock \<Rightarrow> nat set \<Rightarrow> disks \<Rightarrow> disks \<Rightarrow> bool" where
  "own_blocks g h pd I ds ds' \<longleftrightarrow> (\<forall>i q. i < length (la_disks g) \<longrightarrow> q \<in> area_hosts g \<longrightarrow>
     (if q = h \<and> i \<in> I then sector_intact (host_sector g ds' i q) \<and> sector_block (host_sector g ds' i q) = dblock_block pd
      else host_sector g ds' i q = host_sector g ds i q))"

lemma own_blocks_write:
  assumes g: "area_ok g" and b: "length b = la_sector_size g" "sector_block b = dblock_block pd" "sector_intact b"
    and i: "i < length (la_disks g)" "i \<notin> I"
    and own: "own_blocks g h pd I (disk_write ds (fst (la_disks g ! i)) (block_pos g i h) b) ds'"
  shows "own_blocks g h pd (insert i I) ds ds'"
  unfolding own_blocks_def
proof (intro allI impI)
  fix i' q
  assume iq: "i' < length (la_disks g)" "q \<in> area_hosts g"
  have "if q = h \<and> i' \<in> I then sector_intact (host_sector g ds' i' q) \<and> sector_block (host_sector g ds' i' q) = dblock_block pd
      else host_sector g ds' i' q = (if i' = i \<and> q = h then b else host_sector g ds i' q)"
    using own [unfolded own_blocks_def, rule_format, OF iq] unfolding host_sector_write [OF g i(1) b(1) iq(1)] .
  then show "if q = h \<and> i' \<in> insert i I then sector_intact (host_sector g ds' i' q) \<and> sector_block (host_sector g ds' i' q) = dblock_block pd
      else host_sector g ds' i' q = host_sector g ds i' q"
    using b(2,3) by (auto split: if_splits)
qed

lemma exec_ballot_writes:
  assumes g: "area_ok g" and tk: "token_for g h tk" and h: "h \<in> area_hosts g"
  shows "i \<le> num_disks tk \<Longrightarrow> smooth e \<Longrightarrow> same_dblock pd pd1 \<Longrightarrow>
    \<exists>pd' e'. exec (ballot_writes tk (drop i (tk_disks tk)) pd1 nw) e = Some ((nw + (num_disks tk - i), pd'), e') \<and>
      smooth e' \<and> same_dblock pd pd' \<and> own_blocks g h pd {i..<num_disks tk} (env_disks e) (env_disks e')"
proof (induction "num_disks tk - i" arbitrary: i e pd1 nw)
  case 0
  then show ?case by (simp add: own_blocks_def)
next
  case (Suc n)
  then have i: "i < num_disks tk" and n: "n = num_disks tk - Suc i" by simp_all
  have nd: "num_disks tk = length (la_disks g)" by (rule token_for_disk(1) [OF tk])
  have id: "tk_host_id tk = h" using tk by (simp add: token_for_def)
  obtain pd2 b where w: "exec (write_dblock tk (tk_disks tk ! i) h pd1) e =
      Some ((0, pd2), after_io e (disk_write (env_disks e) (fst (la_disks g ! i)) (block_pos g i h) b))"
    and b: "same_dblock pd1 pd2" "length b = la_sector_size g" "sector_block b = dblock_block pd1" "sector_intact b"
    using exec_write_dblock_smooth [OF g tk h i Suc.prems(2)] by blast
  define ds where "ds = disk_write (env_disks e) (fst (la_disks g ! i)) (block_pos g i h) b"
  from Suc.hyps(1) [OF n, of "after_io e ds" pd2 "nw + 1"] i Suc.prems same_dblock_trans [OF Suc.prems(3) b(1)]
  obtain pd' e' where r: "exec (ballot_writes tk (drop (Suc i) (tk_disks tk)) pd2 (nw + 1)) (after_io e ds) =
        Some ((nw + 1 + (num_disks tk - Suc i), pd'), e')" "smooth e'" "same_dblock pd pd'"
      "own_blocks g h pd {Suc i..<num_disks tk} ds (env_disks e')" by auto
  have "exec (ballot_writes tk (drop i (tk_disks tk)) pd1 nw) e = Some ((nw + (num_disks tk - i), pd'), e')"
    using w r(1) i by (simp add: Cons_nth_drop_Suc [OF i, symmetric] id exec_bnd ds_def)
  moreover have "{i..<num_disks tk} = insert i {Suc i..<num_disks tk}" using i by auto
  then have "own_blocks g h pd {i..<num_disks tk} (env_disks e) (env_disks e')"
    using own_blocks_write [OF g b(2) _ b(4) _ _ r(4) [unfolded ds_def]] b(3) same_dblock_block(1) [OF Suc.prems(3)] i nd
    by simp
  ultimately show ?case using r(2,3) by blast
qed

section \<open>Undisturbed reads\<close>

text \<open>No block on the disks is ahead of ballot \<open>k\<close>.\<close>

definition calm :: "lease_area \<Rightarrow> ballot \<Rightarrow> disks \<Rightarrow> bool" where
  "calm g k ds \<longleftrightarrow> (\<forall>i q. i < length (la_disks g) \<longrightarrow> q \<in> area_hosts g \<longrightarrow>
     good_sector (host_sector g ds i q) \<and> \<not> ahead k (sector_block (host_sector g ds i q)))"

lemma calm_buffer:
  assumes g: "area_ok g" and calm: "calm g k ds" and i: "i < length (la_disks g)"
    and n: "(2 + la_num_hosts g) * la_sector_size g \<le> n" and q: "q < la_num_hosts g"
    and b: "b = disk_read ds (fst (la_disks g ! i)) (unat (snd (la_disks g ! i))) n"
  shows "good_sector (drop ((2 + q) * la_sector_size g) b)" and "\<not> ahead k (buf_block (la_sector_size g) b q)"
proof -
  define h :: u64 where "h = of_nat (Suc q)"
  have h: "h \<in> area_hosts g" "unat h = Suc q" using area_hosts_image [OF g] q by (auto simp: h_def simp del: of_nat_Suc)
  have "(2 + q) * la_sector_size g + la_sector_size g \<le> (2 + la_num_hosts g) * la_sector_size g"
    using mult_right_mono [of "2 + q + 1" "2 + la_num_hosts g" "la_sector_size g"] q by (simp add: algebra_simps)
  then have sec: "buf_sector (la_sector_size g) b h = host_sector g ds i h"
    using n disk_store.rd_slice [of "(2 + q) * la_sector_size g" "la_sector_size g" n ds]
    by (simp add: buf_sector_def b h(2) host_sector_def block_pos_def)
  have "(2 + la_num_hosts g) * la_sector_size g \<le> length b" using n by (simp add: b)
  note eq = buf_sector_block [OF g q this, folded h_def, unfolded sec]
  show "good_sector (drop ((2 + q) * la_sector_size g) b)" "\<not> ahead k (buf_block (la_sector_size g) b q)"
    unfolding eq [symmetric] using calm i h(1) by (simp_all add: calm_def)
qed

lemma exec_phase1_reads:
  assumes g: "area_ok g" and tk: "token_for g h tk" and k: "k = dblock_ballot dblock"
    and n: "(2 + la_num_hosts g) * la_sector_size g \<le> n" and calm: "calm g k ds"
  shows "i \<le> num_disks tk \<Longrightarrow> smooth e \<Longrightarrow> env_disks e = ds \<Longrightarrow> same_token tk tk1 \<Longrightarrow> is_bk_max S bk \<Longrightarrow>
    \<exists>tk' bk' S' bs e'. exec (phase1_reads (int (la_num_hosts g)) n dblock (map (\<lambda>d. (d, True)) (drop i (tk_disks tk))) tk1 nr bk bufs) e =
      Some ((None, tk', nr + (num_disks tk - i), bk', bufs @ bs), e') \<and> bs = replicate (num_disks tk - i) True \<and>
      smooth e' \<and> env_disks e' = ds \<and> same_token tk tk' \<and> is_bk_max S' bk'"
proof (induction "num_disks tk - i" arbitrary: i e tk1 S bk nr bufs)
  case 0
  then show ?case by auto
next
  case (Suc m)
  then have i: "i < num_disks tk" and m: "m = num_disks tk - Suc i" by simp_all
  note disk = token_for_disk [OF tk]
  define b where "b = disk_read ds (fst (la_disks g ! i)) (unat (snd (la_disks g ! i))) n"
  have "\<forall>q \<in> set [0..<la_num_hosts g]. good_sector (drop ((2 + q) * la_sector_size g) b)"
    and na: "\<forall>q \<in> set [0..<la_num_hosts g]. \<not> ahead k (buf_block (la_sector_size g) b q)"
    using calm_buffer [OF g calm _ n _ b_def] i disk(1) by auto
  note scan = phase1_scan_abort [OF this(1), of dblock tk1 bk] phase1_scan_done [OF this(1), of dblock tk1 bk]
  obtain err tk2 bk2 where sc: "phase1_scan (la_sector_size g) b dblock [0..<la_num_hosts g] tk1 bk = (err, tk2, bk2)"
    by (metis prod_cases3)
  have err: "err = None" using scan(1) sc na k by (cases err) auto
  then have "same_token tk tk2" "\<exists>S'. is_bk_max S' bk2" using scan(2) sc Suc.prems(4,5) by blast+
  then obtain S' where S': "same_token tk tk2" "is_bk_max S' bk2" by blast
  have ss: "nat (tk_sector_size tk1) = la_sector_size g"
    using tk same_token_fields(5) [OF Suc.prems(4)] by (simp add: token_for_def)
  have "exec (phase1_reads (int (la_num_hosts g)) n dblock (map (\<lambda>d. (d, True)) (drop i (tk_disks tk))) tk1 nr bk bufs) e =
      exec (phase1_reads (int (la_num_hosts g)) n dblock (map (\<lambda>d. (d, True)) (drop (Suc i) (tk_disks tk))) tk2 (nr + 1) bk2 (bufs @ [True]))
        (after_io e ds)"
    using disk(2) [OF i] Suc.prems(3) sc err
    by (simp add: Cons_nth_drop_Suc [OF i, symmetric] smooth_read [OF Suc.prems(2)] ss b_def del: exec.simps(6))
  moreover have "bufs @ True # replicate m True = bufs @ replicate (num_disks tk - i) True" using m i
    by (simp add: Suc.hyps(2) [symmetric])
  ultimately show ?case
    using Suc.hyps(1) [OF m, of "after_io e ds" tk2 S' bk2 "nr + 1" "bufs @ [True]"] i Suc.prems(2) S' m by auto
qed

lemma exec_phase2_reads:
  assumes g: "area_ok g" and tk: "token_for g h tk" and k: "k = dblock_ballot dblock"
    and n: "(2 + la_num_hosts g) * la_sector_size g \<le> n" and calm: "calm g k ds"
  shows "i \<le> num_disks tk \<Longrightarrow> smooth e \<Longrightarrow> env_disks e = ds \<Longrightarrow>
    \<exists>e'. exec (phase2_reads (int (la_num_hosts g)) n dblock (zip (drop i (tk_disks tk)) (replicate (num_disks tk - i) True)) tk nr) e =
      Some ((None, nr + (num_disks tk - i)), e') \<and> smooth e' \<and> env_disks e' = ds"
proof (induction "num_disks tk - i" arbitrary: i e nr)
  case 0
  then show ?case by simp
next
  case (Suc m)
  then have i: "i < num_disks tk" and m: "m = num_disks tk - Suc i" by simp_all
  note disk = token_for_disk [OF tk]
  define b where "b = disk_read ds (fst (la_disks g ! i)) (unat (snd (la_disks g ! i))) n"
  have good: "\<forall>q \<in> set [0..<la_num_hosts g]. good_sector (drop ((2 + q) * la_sector_size g) b)"
    and "\<forall>q \<in> set [0..<la_num_hosts g]. \<not> ahead k (buf_block (la_sector_size g) b q)"
    using calm_buffer [OF g calm _ n _ b_def] i disk(1) by auto
  then have sc: "phase2_scan (la_sector_size g) b dblock [0..<la_num_hosts g] = None"
    using phase2_scan_result [OF good, of dblock] k by (auto split: option.splits)
  have ss: "nat (tk_sector_size tk) = la_sector_size g" using tk by (simp add: token_for_def)
  have "exec (phase2_reads (int (la_num_hosts g)) n dblock (zip (drop i (tk_disks tk)) (replicate (num_disks tk - i) True)) tk nr) e =
      exec (phase2_reads (int (la_num_hosts g)) n dblock (zip (drop (Suc i) (tk_disks tk)) (replicate m True)) tk (nr + 1)) (after_io e ds)"
    using disk(2) [OF i] Suc.prems(3) sc
    by (simp add: Cons_nth_drop_Suc [OF i, symmetric] Suc.hyps(2) [symmetric] smooth_read [OF Suc.prems(2)] ss b_def del: exec.simps(6))
  then show ?case
    using Suc.hyps(1) [OF m, of "after_io e ds" "nr + 1"] i Suc.prems(2) m by auto
qed

section \<open>An undisturbed ballot succeeds\<close>

lemma calm_own_blocks:
  assumes "calm g k ds" and "own_blocks g h pd I ds ds'" and "k = dblock_ballot pd" and "pd_bal pd \<noteq> 0 \<longrightarrow> pd_inp pd \<noteq> 0"
  shows "calm g k ds'"
  unfolding calm_def
proof (intro allI impI)
  fix i q
  assume iq: "i < length (la_disks g)" "q \<in> area_hosts g"
  have old: "good_sector (host_sector g ds i q) \<and> \<not> ahead k (sector_block (host_sector g ds i q))"
    using assms(1) iq by (simp add: calm_def)
  show "good_sector (host_sector g ds' i q) \<and> \<not> ahead k (sector_block (host_sector g ds' i q))"
    using assms(2) [unfolded own_blocks_def, rule_format, OF iq] old assms(3,4)
    by (auto simp: good_sector_def ahead_def before_def block_ballot_def dblock_block_def dblock_value_def split: if_splits)
qed

text \<open>The blocks of host \<open>h\<close> on all disks are those of a ballot in phase 2.\<close>

definition ballot_on_disks :: "lease_area \<Rightarrow> u64 \<Rightarrow> paxos_dblock \<Rightarrow> disks \<Rightarrow> bool" where
  "ballot_on_disks g h pd ds \<longleftrightarrow> (\<forall>i < length (la_disks g). sector_block (host_sector g ds i h) = dblock_block pd)"

lemma exec_ballot_phase2:
  assumes g: "area_ok g" and tk: "token_for g h tk" and h: "h \<in> area_hosts g" and nd: "la_disks g \<noteq> []"
    and k: "k = dblock_ballot pd" and n: "(2 + la_num_hosts g) * la_sector_size g \<le> n"
    and calm: "calm g k (env_disks e)" and e: "smooth e" and pd: "pd_inp pd \<noteq> 0"
  shows "\<exists>pd' e'. exec (ballot_phase2 tk (int (la_num_hosts g)) n (replicate (num_disks tk) True) pd) e = Some ((SANLK_OK, pd', tk), e') \<and>
    same_dblock pd pd' \<and> calm g k (env_disks e') \<and> ballot_on_disks g h pd (env_disks e')"
proof -
  have "0 < num_disks tk" using nd token_for_disk(1) [OF tk] by simp
  then have maj: "majority_disks (num_disks tk) (num_disks tk)" by (simp add: majority_disks_iff)
  obtain pd' e1 where w: "exec (ballot_writes tk (tk_disks tk) pd 0) e = Some ((num_disks tk, pd'), e1)" "smooth e1" "same_dblock pd pd'"
      "own_blocks g h pd {0..<num_disks tk} (env_disks e) (env_disks e1)"
    using exec_ballot_writes [OF g tk h, of 0 e pd pd 0] e by auto
  have calm1: "calm g k (env_disks e1)" using calm_own_blocks [OF calm w(4) k] pd by simp
  have k': "k = dblock_ballot pd'" using k same_dblock_block [OF w(3)] by simp
  obtain e2 where r: "exec (phase2_reads (int (la_num_hosts g)) n pd' (zip (tk_disks tk) (replicate (num_disks tk) True)) tk 0) e1 =
      Some ((None, num_disks tk), e2)" "smooth e2" "env_disks e2 = env_disks e1"
    using exec_phase2_reads [OF g tk k' n calm1, of 0 e1 0] w(2) by auto
  have "exec (ballot_phase2 tk (int (la_num_hosts g)) n (replicate (num_disks tk) True) pd) e = Some ((SANLK_OK, pd', tk), e2)"
    by (simp add: ballot_phase2_def exec_bnd w(1) r(1) maj ballot_out_def)
  moreover have "ballot_on_disks g h pd (env_disks e2)"
    using w(4) h token_for_disk(1) [OF tk] by (auto simp: ballot_on_disks_def own_blocks_def r(3))
  ultimately show ?thesis using w(3) calm1 r(3) by auto
qed

lemma exec_ballot_choose:
  assumes g: "area_ok g" and tk: "token_for g h tk" and h: "h \<in> area_hosts g" and nd: "la_disks g \<noteq> []"
    and k: "k = dblock_ballot pd" and n: "(2 + la_num_hosts g) * la_sector_size g \<le> n"
    and calm: "calm g k (env_disks e)" and e: "smooth e"
  shows "\<exists>pd' e'. exec (ballot_choose tk (int (la_num_hosts g)) n (replicate (num_disks tk) True) pd bk) e = Some ((SANLK_OK, pd', tk), e') \<and>
    dblock_ballot pd' = k \<and> pd_bal pd' = num_of k \<and> calm g k (env_disks e') \<and> ballot_on_disks g h pd' (env_disks e')"
proof -
  have h0: "tk_host_id tk \<noteq> 0" using tk h by (auto simp: token_for_def area_hosts_def)
  have *: "\<exists>pd' e'. exec (ballot_phase2 tk (int (la_num_hosts g)) n (replicate (num_disks tk) True) pd2) e = Some ((SANLK_OK, pd', tk), e') \<and>
    dblock_ballot pd' = k \<and> pd_bal pd' = num_of k \<and> calm g k (env_disks e') \<and> ballot_on_disks g h pd' (env_disks e')"
    if p: "k = dblock_ballot pd2" "pd_bal pd2 = num_of k" "pd_inp pd2 \<noteq> 0" for pd2
  proof -
    obtain pd' e' where r: "exec (ballot_phase2 tk (int (la_num_hosts g)) n (replicate (num_disks tk) True) pd2) e = Some ((SANLK_OK, pd', tk), e')"
        "same_dblock pd2 pd'" "calm g k (env_disks e')" "ballot_on_disks g h pd2 (env_disks e')"
      using exec_ballot_phase2 [OF g tk h nd p(1) n calm e p(3)] by blast
    moreover have "pd_bal pd' = pd_bal pd2" using r(2) unfolding same_dblock_def by (cases pd2; cases pd'; simp)
    ultimately show ?thesis using same_dblock_block [OF r(2)] p by (auto simp: ballot_on_disks_def)
  qed
  show ?thesis
  proof (cases "pd_inp bk = 0")
    case True
    let ?pd = "pd\<lparr>pd_inp := tk_host_id tk, pd_inp2 := tk_host_generation tk, pd_inp3 := env_time e, pd_bal := pd_mbal pd, pd_checksum := 0\<rparr>"
    have "exec (ballot_choose tk (int (la_num_hosts g)) n (replicate (num_disks tk) True) pd bk) e =
        exec (ballot_phase2 tk (int (la_num_hosts g)) n (replicate (num_disks tk) True) ?pd) e" using True by (simp add: ballot_choose_def)
    then show ?thesis using * [of ?pd] k h0 by simp
  next
    case False
    let ?pd = "pd\<lparr>pd_inp := pd_inp bk, pd_inp2 := pd_inp2 bk, pd_inp3 := pd_inp3 bk, pd_bal := pd_mbal pd, pd_checksum := 0\<rparr>"
    have "exec (ballot_choose tk (int (la_num_hosts g)) n (replicate (num_disks tk) True) pd bk) e =
        exec (ballot_phase2 tk (int (la_num_hosts g)) n (replicate (num_disks tk) True) ?pd) e" using False by (simp add: ballot_choose_def)
    then show ?thesis using * [of ?pd] k False by simp
  qed
qed

lemma exec_ballot_memaligns: "smooth e \<Longrightarrow> exec (ballot_memaligns n d) e = Some (0, e)"
  by (induction d) (simp_all add: smooth_memalign del: exec.simps(3))

lemma exec_run_ballot:
  assumes g: "area_ok g" and tk: "token_for g h tk" and h: "h \<in> area_hosts g" and nd: "la_disks g \<noteq> []"
    and calm: "calm g k (env_disks e)" and e: "smooth e"
  shows "\<exists>pd' tk' e'. exec (run_ballot tk (int (la_num_hosts g)) (lver_of k) (num_of k) pd) e = Some ((SANLK_OK, pd', tk'), e') \<and>
    dblock_ballot pd' = k \<and> pd_bal pd' = num_of k \<and> calm g k (env_disks e') \<and> ballot_on_disks g h pd' (env_disks e')"
proof -
  have ss: "tk_sector_size tk = int (la_sector_size g)" using tk by (simp add: token_for_def)
  define n where "n = size_t (ballot_iobuf_len tk (int (la_num_hosts g)))"
  note n = ballot_iobuf_len_fits [OF g ss, folded n_def]
  define pd1 where "pd1 = zero_dblock\<lparr>pd_mbal := num_of k, pd_lver := lver_of k, pd_checksum := 0\<rparr>"
  have k: "k = dblock_ballot pd1" and pd1: "pd_bal pd1 = 0" by (simp_all add: pd1_def zero_dblock_def)
  have "0 < num_disks tk" using nd token_for_disk(1) [OF tk] by simp
  then have maj: "majority_disks (num_disks tk) (num_disks tk)" by (simp add: majority_disks_iff)
  obtain pd2 e1 where w: "exec (ballot_writes tk (tk_disks tk) pd1 0) e = Some ((num_disks tk, pd2), e1)" "smooth e1" "same_dblock pd1 pd2"
      "own_blocks g h pd1 {0..<num_disks tk} (env_disks e) (env_disks e1)"
    using exec_ballot_writes [OF g tk h, of 0 e pd1 pd1 0] e by auto
  have calm1: "calm g k (env_disks e1)" using calm_own_blocks [OF calm w(4) k] pd1 by simp
  have k2: "k = dblock_ballot pd2" using k same_dblock_block [OF w(3)] by simp
  have bk0: "is_bk_max {} zero_dblock" by (simp add: is_bk_max_def zero_dblock_def)
  obtain tk' bk' e2 where r: "exec (phase1_reads (int (la_num_hosts g)) n pd2 (map (\<lambda>d. (d, True)) (tk_disks tk)) tk 0 zero_dblock []) e1 =
      Some ((None, tk', num_disks tk, bk', replicate (num_disks tk) True), e2)" "smooth e2" "env_disks e2 = env_disks e1" "same_token tk tk'"
    using exec_phase1_reads [OF g tk k2 n(1) calm1, of 0 e1 tk "{}" zero_dblock 0 "[]"] w(2) bk0 by auto
  have tk': "token_for g h tk'" "num_disks tk' = num_disks tk" using tk same_token_fields [OF r(4)] by (simp_all add: token_for_def)
  have "exec (run_ballot tk (int (la_num_hosts g)) (lver_of k) (num_of k) pd) e =
      exec (ballot_choose tk' (int (la_num_hosts g)) n (replicate (num_disks tk') True) pd2 bk') e2"
    using n(2) w(1) r(1) maj by (simp add: run_ballot_def Let_def exec_bnd exec_ballot_memaligns [OF e] n_def [symmetric] ballot_phase1_def pd1_def tk'(2))
  then show ?thesis
    using exec_ballot_choose [OF g tk'(1) h nd k2 n(1), of e2 bk'] r(2,3) calm1 by fastforce
qed

section \<open>Undisturbed runs in the system\<close>

text \<open>A read that is not interrupted gets what is on the disk.\<close>

lemma fetch_all:
  assumes "sys_proc s h = Fetch p off n Map.empty c" and "m \<le> num_sectors g n"
  shows "\<exists>got. (sys_step g)\<^sup>*\<^sup>* s (set_proc s h (Fetch p off n got c)) \<and> dom got = {..<m} \<and>
    (\<forall>j < m. got j = Some (disk_read (sys_disks s) p (off + j * la_sector_size g) (la_sector_size g)))"
  using assms(2)
proof (induction m)
  case 0
  have eq: "set_proc s h (Fetch p off n Map.empty c) = s" using assms(1) by (cases s) auto
  have "(sys_step g)\<^sup>*\<^sup>* s (set_proc s h (Fetch p off n Map.empty c))" unfolding eq by simp
  then show ?case by (intro exI [of _ Map.empty] conjI) (assumption, simp_all)
next
  case (Suc m)
  then obtain got where got: "(sys_step g)\<^sup>*\<^sup>* s (set_proc s h (Fetch p off n got c))" "dom got = {..<m}"
    "\<forall>j < m. got j = Some (disk_read (sys_disks s) p (off + j * la_sector_size g) (la_sector_size g))" using Suc_leD by blast
  let ?sec = "disk_read (sys_disks s) p (off + m * la_sector_size g) (la_sector_size g)"
  have "got m = None" using got(2) by auto
  then have "sys_step g (set_proc s h (Fetch p off n got c)) (set_proc (set_proc s h (Fetch p off n got c)) h (Fetch p off n (got(m \<mapsto> ?sec)) c))"
    using Suc.prems by (intro sys_step.fetch) auto
  moreover have "set_proc (set_proc s h (Fetch p off n got c)) h (Fetch p off n (got(m \<mapsto> ?sec)) c) = set_proc s h (Fetch p off n (got(m \<mapsto> ?sec)) c)"
    by simp
  ultimately have "(sys_step g)\<^sup>*\<^sup>* s (set_proc s h (Fetch p off n (got(m \<mapsto> ?sec)) c))"
    using got(1) by (metis rtranclp.rtrancl_into_rtrancl)
  then show ?case using got(2,3) by (intro exI [of _ "got(m \<mapsto> ?sec)"] conjI) (assumption, auto simp: less_Suc_eq)
qed

lemma disk_read_sectors:
  "concat (map (\<lambda>j. disk_read ds p (off + j * ss) ss) [0..<m]) = disk_read ds p off (m * ss)"
proof (induction m)
  case (Suc m)
  have "[off..<off + m * ss] @ [off + m * ss..<off + m * ss + ss] = [off..<off + (m * ss + ss)]"
    using upt_add_eq_append [of off "off + m * ss" ss] by (simp add: add.assoc)
  then have "disk_read ds p off (m * ss) @ disk_read ds p (off + m * ss) ss = disk_read ds p off (m * ss + ss)"
    by (simp only: disk_read_def flip: map_append)
  with Suc show ?case by (simp add: add.commute)
qed (simp add: disk_read_def)

lemma sys_run_read:
  assumes "area_ok g" and "sys_proc s h = Run (Read_iobuf d off n t c)"
  shows "(sys_step g)\<^sup>*\<^sup>* s (set_proc s h (Run (c 0 (disk_read (sys_disks s) (sd_path d) (unat off) n))))"
proof -
  define s1 where "s1 = set_proc s h (Fetch (sd_path d) (unat off) n Map.empty (c 0))"
  define m where "m = num_sectors g n"
  have 1: "sys_step g s s1" unfolding s1_def by (rule sys_step.read_begins [OF assms(2)])
  have "sys_proc s1 h = Fetch (sd_path d) (unat off) n Map.empty (c 0)" by (simp add: s1_def)
  from fetch_all [OF this, of m g] obtain got where got: "(sys_step g)\<^sup>*\<^sup>* s1 (set_proc s1 h (Fetch (sd_path d) (unat off) n got (c 0)))"
      "dom got = {..<m}" "\<forall>j < m. got j = Some (disk_read (sys_disks s1) (sd_path d) (unat off + j * la_sector_size g) (la_sector_size g))"
    by (auto simp: m_def)
  have "map (the \<circ> got) [0..<m] = map (\<lambda>j. disk_read (sys_disks s) (sd_path d) (unat off + j * la_sector_size g) (la_sector_size g)) [0..<m]"
    using got(3) by (simp add: s1_def)
  then have b: "take n (concat (map (the \<circ> got) [0..<m])) = take n (disk_read (sys_disks s) (sd_path d) (unat off) (m * la_sector_size g))"
    by (simp only: disk_read_sectors)
  have ss: "0 < la_sector_size g" using assms(1) by (auto simp: area_ok_def)
  have "n \<le> m * la_sector_size g"
    using ss div_mult_mod_eq [of "n + la_sector_size g - 1" "la_sector_size g"] mod_less_divisor [OF ss, of "n + la_sector_size g - 1"]
    unfolding m_def num_sectors_def by linarith
  then have "take n (concat (map (the \<circ> got) [0..<m])) = disk_read (sys_disks s) (sd_path d) (unat off) n"
    unfolding b by (simp add: disk_read_def take_map min_def)
  then have "sys_step g (set_proc s1 h (Fetch (sd_path d) (unat off) n got (c 0)))
      (set_proc (set_proc s1 h (Fetch (sd_path d) (unat off) n got (c 0))) h (Run (c 0 (disk_read (sys_disks s) (sd_path d) (unat off) n))))"
    using got(2) by (intro sys_step.read_ends [where h = h and got = got]) (auto simp: m_def)
  then have "(sys_step g)\<^sup>*\<^sup>* s1 (set_proc s h (Run (c 0 (disk_read (sys_disks s) (sd_path d) (unat off) n))))" using got(1) by (simp add: s1_def)
  with 1 show ?thesis by (rule converse_rtranclp_into_rtranclp)
qed

text \<open>A run in an environment is a run of the system in which only this host moves.\<close>

definition finished :: "ballot_sys \<Rightarrow> u64 \<Rightarrow> disks \<Rightarrow> int \<times> paxos_dblock \<times> token \<Rightarrow> ballot_sys" where
  "finished s h ds x = s\<lparr>sys_disks := ds, sys_proc := (sys_proc s)(h := Run (Ret x))\<rparr>"

lemma finished_set_proc [simp]: "finished (s\<lparr>sys_disks := ds0, sys_proc := (sys_proc s)(h := p)\<rparr>) h ds x = finished s h ds x"
  "finished (set_proc s h p) h ds x = finished s h ds x"
  by (simp_all add: finished_def)

lemma sys_run_call:
  assumes "io_local m m'" and "sys_proc s h = Run m" and "(sys_step g)\<^sup>*\<^sup>* (set_proc s h (Run m')) (finished (set_proc s h (Run m')) h ds x)"
  shows "(sys_step g)\<^sup>*\<^sup>* s (finished s h ds x)"
  using converse_rtranclp_into_rtranclp [of "sys_step g", OF sys_step.local_call [OF assms(2,1)] assms(3)] by (simp only: finished_set_proc)

lemma sys_run_exec:
  assumes g: "area_ok g"
  shows "smooth e \<Longrightarrow> exec m e = Some (x, e') \<Longrightarrow> sys_proc s h = Run m \<Longrightarrow> env_disks e = sys_disks s \<Longrightarrow>
    (sys_step g)\<^sup>*\<^sup>* s (finished s h (env_disks e') x)"
proof (induction m arbitrary: e s)
  case (Ret y)
  then have eq: "finished s h (env_disks e') x = s" by (cases s) (auto simp: finished_def)
  show ?case unfolding eq by (rule rtranclp.rtrancl_refl)
next
  case (Posix_memalign n k)
  then have r: "exec (k 0 (map (env_junk e) [0..<n])) e = Some (x, e')" by (simp only: smooth_memalign)
  show ?case
    by (rule sys_run_call [OF io_local.memalign [of 0 "map (env_junk e) [0..<n]"] Posix_memalign.prems(3)])
      (simp_all add: memalign_rv_def Posix_memalign.IH [OF Posix_memalign.prems(1) r] Posix_memalign.prems(4) del: finished_set_proc)
next
  case (Uninit n k)
  then have r: "exec (k (map (env_junk e) [0..<n])) e = Some (x, e')" by simp
  show ?case
    by (rule sys_run_call [OF io_local.uninit [of "map (env_junk e) [0..<n]"] Uninit.prems(3)])
      (simp_all add: Uninit.IH [OF Uninit.prems(1) r] Uninit.prems(4) del: finished_set_proc)
next
  case (Write_iobuf d off b t k)
  define ds where "ds = disk_write (env_disks e) (sd_path d) (unat off) b"
  have r: "exec (k 0) (after_io e ds) = Some (x, e')" using Write_iobuf.prems(2) by (simp only: smooth_write [OF Write_iobuf.prems(1)] ds_def)
  let ?s = "s\<lparr>sys_disks := ds, sys_proc := (sys_proc s)(h := Run (k 0))\<rparr>"
  have "sys_step g s ?s"
    using Write_iobuf.prems(4) by (intro sys_step.dev_write [OF Write_iobuf.prems(3), of 0 True]) (auto simp: ds_def)
  moreover have "(sys_step g)\<^sup>*\<^sup>* ?s (finished ?s h (env_disks e') x)"
    by (rule Write_iobuf.IH [OF _ r]) (simp_all add: Write_iobuf.prems(1))
  ultimately show ?case unfolding finished_set_proc by (rule converse_rtranclp_into_rtranclp)
next
  case (Read_iobuf d off n t k)
  let ?m = "k 0 (disk_read (sys_disks s) (sd_path d) (unat off) n)"
  have r: "exec ?m (after_io e (env_disks e)) = Some (x, e')"
    using Read_iobuf.prems(2) unfolding smooth_read [OF Read_iobuf.prems(1)] Read_iobuf.prems(4) .
  have "(sys_step g)\<^sup>*\<^sup>* s (set_proc s h (Run ?m))" by (rule sys_run_read [OF g Read_iobuf.prems(3)])
  moreover have "(sys_step g)\<^sup>*\<^sup>* (set_proc s h (Run ?m)) (finished (set_proc s h (Run ?m)) h (env_disks e') x)"
    by (rule Read_iobuf.IH [OF _ r]) (simp_all add: Read_iobuf.prems(1,4))
  ultimately show ?case unfolding finished_set_proc by (rule rtranclp_trans)
next
  case (Open_path p k)
  then have r: "exec (k (next_or 3 (env_open e))) (e\<lparr>env_open := tl (env_open e)\<rparr>) = Some (x, e')" by (simp add: Let_def)
  show ?case
    by (rule sys_run_call [OF io_local.opened Open_path.prems(3)], rule Open_path.IH [OF _ r]) (use Open_path.prems in \<open>simp_all add: smooth_def\<close>)
next
  case (Monotime k)
  then have r: "exec (k (env_time e)) e = Some (x, e')" by (simp add: Let_def)
  show ?case
    by (rule sys_run_call [OF io_local.monotime Monotime.prems(3)], rule Monotime.IH [OF _ r]) (use Monotime.prems in \<open>simp_all add: smooth_def\<close>)
next
  case (Sleep n k)
  then have r: "exec k (e\<lparr>env_time := env_time e + of_nat n\<rparr>) = Some (x, e')" by (simp add: Let_def)
  show ?case
    by (rule sys_run_call [OF io_local.sleep Sleep.prems(3)], rule Sleep.IH [OF _ r]) (use Sleep.prems in \<open>simp_all add: smooth_def\<close>)
next
  case (Usleep i k)
  then have r: "exec k e = Some (x, e')" by (simp add: Let_def)
  show ?case
    by (rule sys_run_call [OF io_local.usleep Usleep.prems(3)], rule Usleep.IH [OF _ r]) (use Usleep.prems in \<open>simp_all add: smooth_def\<close>)
next
  case (Get_rand a b k)
  then have r: "exec (k (if a \<le> next_or a (env_rand e) \<and> next_or a (env_rand e) \<le> b then next_or a (env_rand e) else -1)) (e\<lparr>env_rand := tl (env_rand e)\<rparr>) = Some (x, e')" by (simp add: Let_def)
  show ?case
    by (rule sys_run_call [OF io_local.rand Get_rand.prems(3)], rule Get_rand.IH [OF _ r]) (use Get_rand.prems in \<open>simp_all add: smooth_def\<close>)
next
  case (Call c args k)
  then have r: "exec (k (next_or 0 (env_calls e))) (e\<lparr>env_calls := tl (env_calls e)\<rparr>) = Some (x, e')" by (simp add: Let_def)
  show ?case
    by (rule sys_run_call [OF io_local.call Call.prems(3)], rule Call.IH [OF _ r]) (use Call.prems in \<open>simp_all add: smooth_def\<close>)
next
  case (Shared f k)
  then have r: "exec (k (env_shared e)) (e\<lparr>env_shared := f (env_shared e)\<rparr>) = Some (x, e')" by (simp add: Let_def)
  show ?case
    by (rule sys_run_call [OF io_local.shared Shared.prems(3)], rule Shared.IH [OF _ r]) (use Shared.prems in \<open>simp_all add: smooth_def\<close>)
qed simp

text \<open>A host that nobody disturbs wins a ballot that no block is ahead of.\<close>

definition none_ahead :: "lease_area \<Rightarrow> ballot \<Rightarrow> disks \<Rightarrow> bool" where
  "none_ahead g k ds \<longleftrightarrow> (\<forall>i q. i < length (la_disks g) \<longrightarrow> q \<in> area_hosts g \<longrightarrow> \<not> ahead k (sector_block (host_sector g ds i q)))"

lemma none_ahead_before: "none_ahead g k ds \<Longrightarrow> before k k' \<Longrightarrow> none_ahead g k' ds"
  unfolding none_ahead_def ahead_def by (blast intro: before_trans)

lemma sys_reachable_calm:
  assumes "sys_reachable g s" and "none_ahead g k (sys_disks s)"
  shows "calm g k (sys_disks s)"
  using assms(1)
proof (rule sys_won_spec)
  fix a
  assume "reach ballots_init (spec_step g) a" "blocks_rel g (sys_disks s) a"
  then show ?thesis using blocks_rel_good assms(2) by (auto simp: calm_def none_ahead_def)
qed

lemma sys_solo:
  assumes reach: "sys_reachable g s" and stopped: "sys_proc s h = Stopped" and h: "h \<in> area_hosts g" and nd: "la_disks g \<noteq> []"
    and tk: "token_for g h tk" and start: "may_start s h k" and na: "none_ahead g k (sys_disks s)"
  shows "\<exists>s' pd. (sys_step g)\<^sup>*\<^sup>* s s' \<and> (k, pd) \<in> sys_won s' \<and> sys_won s \<subseteq> sys_won s' \<and> sys_proc s' = sys_proc s \<and>
    sys_started s' = (sys_started s)(k \<mapsto> h) \<and> none_ahead g k (sys_disks s') \<and> ballot_on_disks g h pd (sys_disks s')"
proof -
  have g: "area_ok g" using sys_won_spec [OF reach] by blast
  define e :: "daemon env" where "e = \<lparr>env_disks = sys_disks s, env_time = 0, env_junk = \<lambda>_. 0, env_io = [], env_ticks = [], env_mem = [],
    env_rand = [], env_open = [], env_calls = [], env_shared = undefined\<rparr>"
  have e: "smooth e" "env_disks e = sys_disks s" by (simp_all add: smooth_def e_def)
  define prog where "prog = run_ballot tk (int (la_num_hosts g)) (lver_of k) (num_of k) zero_dblock"
  obtain pd tk' e' where r: "exec prog e = Some ((SANLK_OK, pd, tk'), e')" "calm g k (env_disks e')" "ballot_on_disks g h pd (env_disks e')"
    using exec_run_ballot [OF g tk h nd, of k e zero_dblock] sys_reachable_calm [OF reach na] e unfolding prog_def by auto
  define s1 where "s1 = s\<lparr>sys_proc := (sys_proc s)(h := Run prog), sys_ballot := (sys_ballot s)(h := k), sys_started := (sys_started s)(k \<mapsto> h)\<rparr>"
  define s2 where "s2 = finished s1 h (env_disks e') (SANLK_OK, pd, tk')"
  define s3 where "s3 = s2\<lparr>sys_proc := (sys_proc s2)(h := Stopped), sys_won := insert (k, pd) (sys_won s2)\<rparr>"
  have 1: "sys_step g s s1" unfolding s1_def by (rule sys_step.start [OF stopped h tk start]) (simp add: prog_def)
  have 2: "(sys_step g)\<^sup>*\<^sup>* s1 s2" unfolding s2_def by (rule sys_run_exec [OF g e(1) r(1)]) (simp_all add: s1_def e(2))
  have 3: "sys_step g s2 s3" unfolding s3_def
    by (rule sys_step.finish [where rv = SANLK_OK and pd = pd and tk = tk']) (simp_all add: s2_def s1_def finished_def)
  have "(sys_step g)\<^sup>*\<^sup>* s s3" by (rule rtranclp.rtrancl_into_rtrancl [OF converse_rtranclp_into_rtranclp [of "sys_step g", OF 1 2] 3])
  moreover have "none_ahead g k (sys_disks s3)" "ballot_on_disks g h pd (sys_disks s3)"
    using r(2,3) by (simp_all add: s3_def s2_def finished_def none_ahead_def calm_def)
  moreover have "(sys_proc s)(h := Stopped) = sys_proc s" using stopped by auto
  then have "sys_won s3 = insert (k, pd) (sys_won s)" "sys_started s3 = (sys_started s)(k \<mapsto> h)" "sys_proc s3 = sys_proc s"
    by (simp_all add: s3_def s2_def s1_def finished_def)
  ultimately show ?thesis by (intro exI [of _ s3] exI [of _ pd]) blast
qed

end
