(* ===== verification/Ballot_Theorems.thy ===== *)
theory Ballot_Theorems
  imports Ballot_Solo
begin

text \<open>The properties of ballots, with a system of two hosts and three disks as their witness.\<close>

section \<open>A system of two hosts\<close>

definition two_hosts :: lease_area where
  "two_hosts = \<lparr>la_disks = [(''/dev/a'', 0), (''/dev/b'', 0), (''/dev/c'', 1048576)], la_sector_size = 512, la_num_hosts = 2\<rparr>"

definition host_token :: "u64 \<Rightarrow> token" where
  "host_token h = \<lparr>tk_host_id = h, tk_host_generation = 1, tk_io_timeout = 10, tk_flags = 0, tk_sector_size = 512,
     tk_align_size = 1048576, tk_shared_count = 0, tk_shared_bitmap = [],
     tk_disks = map (\<lambda>(p, off). \<lparr>sd_path = p, sd_offset = off, sd_sector_size = 512, sd_fd = 3\<rparr>) (la_disks two_hosts),
     tk_r = \<lparr>r_lockspace_name = [], r_name = [], r_lver = 0, r_data64 = 0, r_data32 = 0, r_flags = 0\<rparr>\<rparr>"

text \<open>All disks are zero.\<close>

definition fresh_system :: ballot_sys where
  "fresh_system = \<lparr>sys_disks = \<lambda>_ _. 0, sys_proc = \<lambda>_. Stopped, sys_ballot = \<lambda>_. Ballot 0 0, sys_started = \<lambda>_. None, sys_won = {}\<rparr>"

lemma two_hosts_ok: "area_ok two_hosts"
  by (simp add: area_ok_def two_hosts_def)

lemma two_hosts_members: "1 \<in> area_hosts two_hosts" "2 \<in> area_hosts two_hosts"
  by (simp_all add: area_hosts_def two_hosts_def)

lemma host_token_for: "token_for two_hosts h (host_token h)"
  by (simp add: token_for_def host_token_def two_hosts_def)

lemma le_get_zeros [simp]: "le_get (replicate n 0) = 0"
  by (induction n) simp_all

lemma fresh_sector: "host_sector two_hosts (sys_disks fresh_system) i h = replicate 512 0"
  by (simp add: host_sector_def fresh_system_def disk_read_def two_hosts_def map_replicate_const)

lemma zero_dblock_sector: "paxos_dblock_in (replicate 512 0) = zero_dblock"
  by (simp add: paxos_dblock_in_def slice_def zero_dblock_def)

lemma fresh_system_init: "sys_init two_hosts fresh_system"
  by (simp add: sys_init_def two_hosts_ok fresh_sector sector_intact_def sector_block_def zero_dblock_sector dblock_block_def)
    (simp add: fresh_system_def zero_dblock_def verify_dblock_def)

lemma fresh_system_none_ahead: "none_ahead two_hosts (Ballot 1 1) (sys_disks fresh_system)"
  by (simp add: none_ahead_def fresh_sector sector_block_def zero_dblock_sector dblock_block_def ahead_def before_def block_ballot_def)
    (simp add: zero_dblock_def)

text \<open>Host 1 wins ballot 1, then host 2 wins ballot 2 of the same lease version.\<close>

lemma two_winners:
  "\<exists>s pd pd'. sys_reachable two_hosts s \<and> (Ballot 1 1, pd) \<in> sys_won s \<and> (Ballot 1 2, pd') \<in> sys_won s"
proof -
  have r0: "sys_reachable two_hosts fresh_system" by (rule reach.init [of "sys_init two_hosts", OF fresh_system_init])
  have nd: "la_disks two_hosts \<noteq> []" by (simp add: two_hosts_def)
  obtain s pd where s: "(sys_step two_hosts)\<^sup>*\<^sup>* fresh_system s" "(Ballot 1 1, pd) \<in> sys_won s" "sys_proc s = sys_proc fresh_system"
      "sys_started s = (sys_started fresh_system)(Ballot 1 1 \<mapsto> 1)" "none_ahead two_hosts (Ballot 1 1) (sys_disks s)"
    using sys_solo [OF r0 _ two_hosts_members(1) nd host_token_for _ fresh_system_none_ahead]
    by (auto simp: fresh_system_def may_start_def)
  have r1: "sys_reachable two_hosts s" by (rule reach_steps [OF s(1) r0])
  have "none_ahead two_hosts (Ballot 1 2) (sys_disks s)" by (rule none_ahead_before [OF s(5)]) (simp add: before_def)
  moreover have "may_start s 2 (Ballot 1 2)" using s(4) by (simp add: may_start_def fresh_system_def)
  ultimately obtain s' pd' where s': "(sys_step two_hosts)\<^sup>*\<^sup>* s s'" "(Ballot 1 2, pd') \<in> sys_won s'" "sys_won s \<subseteq> sys_won s'"
    using sys_solo [OF r1 _ two_hosts_members(2) nd host_token_for, of "Ballot 1 2"] s(3)
    by (auto simp: fresh_system_def)
  have "sys_reachable two_hosts s'" by (rule reach_steps [OF s'(1) r1])
  with s(2) s'(2,3) show ?thesis by blast
qed

section \<open>Writes of phase 2\<close>

text \<open>A write of a host block with \<open>bal\<close> set: from then on other hosts may commit its value.\<close>

definition phase2_write :: "daemon event \<Rightarrow> bool" where
  "phase2_write ev = (case ev of E_write d off b rv \<Rightarrow> pd_bal (paxos_dblock_in b) \<noteq> 0 | _ \<Rightarrow> False)"

abbreviation in_phase1 :: "daemon event list \<Rightarrow> bool" where
  "in_phase1 hist \<equiv> \<forall>ev \<in> set hist. \<not> phase2_write ev"

lemma sealed_bal:
  assumes "dblock_seal pd (replicate dblock_size 0) = (pd', pd_end)" and "pd_bal pd = 0"
  shows "pd_bal (paxos_dblock_in (pd_end @ rest)) = 0" and "pd_bal pd' = 0"
proof -
  have "sector_block (pd_end @ rest) = dblock_block pd" by (rule sealed_sector [OF assms(1)])
  then show "pd_bal (paxos_dblock_in (pd_end @ rest)) = 0" using assms(2) by (simp add: sector_block_def dblock_block_def)
  show "pd_bal pd' = 0" using sealed_sector(4) [OF assms(1)] assms(2) by (metis paxos_dblock.ext_inject paxos_dblock.surjective paxos_dblock.update_convs)
qed

lemma wp_write_dblock_phase1:
  assumes "in_phase1 hist" and "pd_bal pd = 0"
  shows "wp (\<lambda>(rv, pd') hist'. in_phase1 hist' \<and> pd_bal pd' = 0) (write_dblock tk disk h pd) hist"
proof -
  obtain pd' pd_end where seal: "dblock_seal pd (replicate dblock_size 0) = (pd', pd_end)" by fastforce
  note bal = sealed_bal [OF seal assms(2)] sealed_sector(3) [OF seal]
  show ?thesis using assms
    by (auto simp: write_dblock_def write_dblock_mblock_sh_def write_sector_def do_write_sectors_def seal io_simps Let_def phase2_write_def
        splice_at_def bal)
qed

lemma wp_ballot_writes_phase1:
  assumes "in_phase1 hist" and "pd_bal pd = 0"
  shows "wp (\<lambda>(n, pd') hist'. in_phase1 hist' \<and> pd_bal pd' = 0) (ballot_writes tk disks pd nw) hist"
  using assms
proof (induction disks arbitrary: pd nw hist)
  case (Cons disk disks)
  show ?case unfolding ballot_writes.simps wp_bnd
    by (rule wp_mono [OF wp_write_dblock_phase1 [OF Cons.prems]]) (auto intro!: Cons.IH)
qed simp

lemma wp_phase1_reads_phase1:
  "in_phase1 hist \<Longrightarrow> wp (\<lambda>_ hist'. in_phase1 hist') (phase1_reads N n pd ds tk nr bk bufs) hist"
proof (induction ds arbitrary: tk nr bk bufs hist)
  case (Cons d ds)
  have "in_phase1 (hist @ [E_read disk off m rv b])" for disk off m rv b using Cons.prems by (auto simp: phase2_write_def)
  with Cons show ?case by (cases d) (auto split: prod.splits option.splits)
qed simp

definition retract_noted :: "int \<times> paxos_dblock \<times> token \<Rightarrow> daemon event list \<Rightarrow> bool" where
  "retract_noted = (\<lambda>(rv, pd, tk') hist. rv \<in> {SANLK_DBLOCK_READ, SANLK_DBLOCK_WRITE} \<and> (\<exists>ev \<in> set hist. phase2_write ev) \<longrightarrow>
     tk_flags tk' AND T_RETRACT_PAXOS \<noteq> 0)"

lemma retract_noted_phase1: "in_phase1 hist \<Longrightarrow> retract_noted r hist"
  by (auto simp: retract_noted_def)

lemma retract_noted_phase2: "retract_noted (ballot_out tk True e pd) hist"
proof -
  have "(x OR T_RETRACT_PAXOS) AND T_RETRACT_PAXOS = T_RETRACT_PAXOS" for x :: u32 by (simp add: and.commute)
  then have "(x OR T_RETRACT_PAXOS) AND T_RETRACT_PAXOS \<noteq> 0" for x :: u32 by simp
  then show ?thesis by (auto simp: ballot_out_def retract_noted_def)
qed

lemma wp_ballot_phase2_retract: "wp retract_noted (ballot_phase2 tk num_hosts n bufs pd) hist"
proof -
  have reads: "wp retract_noted (bnd (phase2_reads num_hosts n d ds tk 0) (\<lambda>(error, num_reads). case error of
      Some e \<Rightarrow> Ret (ballot_out tk True e d)
    | None \<Rightarrow> if \<not> majority_disks (num_disks tk) num_reads then Ret (ballot_out tk True SANLK_DBLOCK_READ d)
              else Ret (ballot_out tk True SANLK_OK d))) hist'" for d ds hist'
    unfolding wp_bnd by (rule wp_mono [OF wp_true]) (auto simp: retract_noted_phase2 split: option.splits)
  show ?thesis unfolding ballot_phase2_def wp_bnd
    by (rule wp_mono [OF wp_true]) (auto simp: retract_noted_phase2 intro!: reads)
qed

lemma wp_ballot_phase1_retract:
  assumes "in_phase1 hist" and "pd_bal pd = 0"
  shows "wp retract_noted (ballot_phase1 tk num_hosts n pd) hist"
proof -
  have choose: "wp retract_noted (ballot_choose t num_hosts n bufs d bk) hist" for t bufs d bk hist
    using wp_ballot_phase2_retract by (simp add: ballot_choose_def)
  have reads: "wp retract_noted (bnd (phase1_reads num_hosts n d ds tk 0 zero_dblock [])
        (\<lambda>(error, tk, num_reads, bk_max, bufs). case error of Some e \<Rightarrow> Ret (ballot_out tk False e d)
          | None \<Rightarrow> if \<not> majority_disks (num_disks tk) num_reads then Ret (ballot_out tk False SANLK_DBLOCK_READ d)
                    else ballot_choose tk num_hosts n bufs d bk_max)) hist'"
    if "in_phase1 hist'" for d ds hist'
    unfolding wp_bnd
    by (rule wp_mono [OF wp_phase1_reads_phase1 [OF that]]) (auto simp: retract_noted_phase1 choose split: option.splits)
  show ?thesis unfolding ballot_phase1_def wp_bnd
    by (rule wp_mono [OF wp_ballot_writes_phase1 [OF assms]]) (auto simp: retract_noted_phase1 intro!: reads)
qed

lemma wp_ballot_memaligns_phase1: "in_phase1 hist \<Longrightarrow> wp (\<lambda>_ hist'. in_phase1 hist') (ballot_memaligns n d) hist"
  by (induction d arbitrary: hist) (auto simp: phase2_write_def)

lemma run_ballot_retract_noted: "wp retract_noted (run_ballot tk num_hosts next_lver our_mbal dblock_out) []"
proof -
  have "wp (\<lambda>rv. wp retract_noted (if rv \<noteq> 0 then Ret (rv, dblock_out, tk) else ballot_phase1 tk num_hosts n
      (zero_dblock\<lparr>pd_mbal := our_mbal, pd_lver := next_lver, pd_checksum := 0\<rparr>))) (ballot_memaligns n d) []" for n d
    by (rule wp_mono [OF wp_ballot_memaligns_phase1])
      (auto simp: retract_noted_phase1 zero_dblock_def intro!: wp_ballot_phase1_retract)
  then show ?thesis unfolding run_ballot_def Let_def by (simp add: wp_bnd retract_noted_phase1)
qed

section \<open>Properties\<close>



text \<open>
  C7: Refinement.  Every reachable state of the hosts running \<open>run_ballot\<close> corresponds to a state that the
  abstract ballot machine reaches: the same ballots were started, the host blocks on the disks are its
  blocks, and exactly its decided ballots returned \<open>SANLK_OK\<close>, with the value it chose for them.
\<close>

theorem run_ballot_refines:
  assumes "sys_reachable g s"
  shows "\<exists>a. ballot_reachable (area_quorum g) proposes (area_hosts g) a \<and> owner_of a = sys_started s \<and>
    (\<forall>i h. i < length (la_disks g) \<longrightarrow> h \<in> area_hosts g \<longrightarrow> blocks a i h = sector_block (host_sector g (sys_disks s) i h)) \<and>
    (\<forall>k. decided a k \<longleftrightarrow> k \<in> fst ` sys_won s) \<and> (\<forall>k pd. (k, pd) \<in> sys_won s \<longrightarrow> value_of a k = Some (dblock_value pd))"
proof -
  obtain a where "reach ballots_init (spec_step g) a" "sys_rel g s a" using ballot_code.reach_sim [OF assms] by blast
  then show ?thesis by (intro exI [of _ a]) (force simp: sys_rel_def blocks_rel_def won_rel_def)
qed

theorem run_ballot_refines_witness:
  "\<exists>a s. sys_reachable two_hosts s \<and> ballot_reachable (area_quorum two_hosts) proposes (area_hosts two_hosts) a \<and>
    decided a (Ballot 1 1) \<and> decided a (Ballot 1 2)"
proof -
  obtain s pd pd' where s: "sys_reachable two_hosts s" "(Ballot 1 1, pd) \<in> sys_won s" "(Ballot 1 2, pd') \<in> sys_won s"
    using two_winners by blast
  obtain a where a: "ballot_reachable (area_quorum two_hosts) proposes (area_hosts two_hosts) a"
      "\<forall>k. decided a k \<longleftrightarrow> k \<in> fst ` sys_won s"
    using run_ballot_refines [OF s(1)] by blast
  have "decided a (Ballot 1 1)" "decided a (Ballot 1 2)" using a(2) image_eqI [OF _ s(2), of _ fst] image_eqI [OF _ s(3), of _ fst] by auto
  with a(1) s(1) show ?thesis by blast
qed

text \<open>
  C25: Validity.  The owner that a successful ballot committed for a lease version is a host that has itself
  started a ballot for that version.
\<close>

theorem run_ballot_validity:
  assumes "sys_reachable g s" and "(k, pd) \<in> sys_won s"
  shows "\<exists>k'. sys_started s k' = Some (pd_inp pd) \<and> lver_of k' = pd_lver pd"
  by (rule won_valid [OF assms])

theorem run_ballot_validity_witness:
  "\<exists>s k pd. sys_reachable two_hosts s \<and> (Ballot 1 2, pd) \<in> sys_won s \<and> sys_started s k = Some (pd_inp pd)"
proof -
  obtain s pd where s: "sys_reachable two_hosts s" "(Ballot 1 2, pd) \<in> sys_won s"
    using two_winners by blast
  with run_ballot_validity [OF s] show ?thesis by blast
qed



text \<open>
  C18: Errors.  Whatever the disks, the other hosts and the allocator do: \<open>run_ballot\<close> never returns a read
  or write error after it has tried to write a block with \<open>bal\<close> set without putting the flag on the
  token that makes the daemon retract the block later.  A ballot that another host may commit is never
  just forgotten.
\<close>

theorem run_ballot_error_retracts:
  "wp (\<lambda>(rv, pd, tk') hist.
      \<not> (rv \<in> {SANLK_DBLOCK_READ, SANLK_DBLOCK_WRITE} \<and> list_ex phase2_write hist \<and> tk_flags tk' AND T_RETRACT_PAXOS = 0))
    (run_ballot tk num_hosts next_lver our_mbal dblock_out) []"
  by (rule wp_mono [OF run_ballot_retract_noted]) (auto simp: retract_noted_def list_ex_iff)

text \<open>
  C34: The smallest power of two.  \<open>roundup_power_of_two\<close>, written with shifts and ors on 32 bits, returns
  the least power of two that is not below its argument, for every argument from 2 to \<open>2 ^ 31\<close>.
\<close>

theorem roundup_power_of_two_correct:
  assumes "1 < val" and "val \<le> 2 ^ 31"
  shows "\<exists>k. unat (roundup_power_of_two val) = 2 ^ k \<and> unat val \<le> 2 ^ k \<and> (\<forall>j. unat val \<le> 2 ^ j \<longrightarrow> (2 :: nat) ^ k \<le> 2 ^ j)"
proof -
  obtain k where k: "unat (roundup_power_of_two val) = 2 ^ k" "unat val \<le> 2 ^ k" "2 ^ k < 2 * unat val"
    using roundup_power_of_two_least [of val] assms by (auto simp: word_less_nat_alt word_le_nat_alt)
  have "k \<le> j" if "unat val \<le> 2 ^ j" for j
  proof -
    have "(2 :: nat) ^ k < 2 ^ Suc j" using k(3) that by simp
    then show ?thesis by (metis less_Suc_eq_le nat_power_less_imp_less zero_less_numeral)
  qed
  with k(1,2) show ?thesis by (intro exI [of _ k]) auto
qed

theorem roundup_power_of_two_correct_witness: "unat (roundup_power_of_two 2002) = 2048 \<and> (\<exists>k. unat (roundup_power_of_two 2002) = 2 ^ k)"
proof -
  have "roundup_power_of_two 2002 = 2048" by (simp add: roundup_power_of_two_def)
  moreover have "\<exists>k. unat (roundup_power_of_two 2002) = 2 ^ k" using roundup_power_of_two_correct [of 2002] by auto
  ultimately show ?thesis by simp
qed

text \<open>
  C27: Bounds of the ballot buffers.  For the sizes of every resource the flags can describe and every number
  of hosts it has room for, the buffer \<open>run_ballot\<close> computes with 32-bit arithmetic holds the leader sector,
  the request sector and the block of every host it scans, and the read of it stays inside the lease area.
\<close>

theorem run_ballot_buffer_bounds:
  assumes "sizes_from_flags flags kind = (0, sector_size, align_size, max_hosts)" and "sector_size \<noteq> 0"
    and "0 < num_hosts" and "num_hosts \<le> max_hosts" and "tk_sector_size tk = sector_size"
  shows "(2 + num_hosts) * sector_size \<le> int (size_t (ballot_iobuf_len tk num_hosts)) \<and>
    int (size_t (ballot_iobuf_len tk num_hosts)) \<le> align_size"
proof -
  have m: "max_hosts = size_to_max_hosts sector_size align_size" "max_hosts \<noteq> 0"
    using assms(1,2) by (auto simp: sizes_from_flags_def Let_def split: if_splits)
  then have sizes: "(sector_size, align_size, max_hosts) \<in> {(512, 2 ^ 11 * 512, 2000), (4096, 2 ^ 8 * 4096, 250), (4096, 2 ^ 9 * 4096, 500),
      (4096, 2 ^ 10 * 4096, 1000), (4096, 2 ^ 11 * 4096, 2000)}"
    by (auto simp: size_to_max_hosts_def split: if_splits)
  then have "\<exists>K \<in> {8, 9, 10, 11}. max_hosts + 2 \<le> 2 ^ K \<and> align_size = 2 ^ K * sector_size" by auto
  then obtain K where K: "max_hosts + 2 \<le> 2 ^ K" "align_size = 2 ^ K * sector_size" by blast
  define N ss where N: "N = nat num_hosts" "ss = nat sector_size"
  have eq: "num_hosts = int N" "sector_size = int ss" "N \<le> 2000" "ss = 512 \<or> ss = 4096"
    using N sizes assms(3,4) by auto
  obtain j where j: "ballot_iobuf_len tk num_hosts = int (2 ^ j * ss)" "N + 2 \<le> 2 ^ j" "2 ^ j < 2 * (N + 2)" "(2 :: nat) ^ j * ss < 2 ^ 31"
    using ballot_iobuf_len_power [OF eq(3) _ eq(4), of tk] assms(5) eq by auto
  have len: "int (size_t (ballot_iobuf_len tk num_hosts)) = 2 ^ j * sector_size" unfolding j(1) size_t_int [OF j(4)] using eq(2) by simp
  have "int N + 2 \<le> int (2 ^ K)" using K(1) assms(4) eq(1) by simp
  then have "N + 2 \<le> 2 ^ K" by linarith
  then have "(2 :: nat) ^ j < 2 ^ Suc K" using j(3) by simp
  then have "j \<le> K" using nat_power_less_imp_less [of 2 j "Suc K"] by simp
  then have "(2 :: int) ^ j \<le> 2 ^ K" by simp
  moreover have "int (N + 2) \<le> int (2 ^ j)" using j(2) by (rule zle_int [THEN iffD2])
  then have "2 + num_hosts \<le> (2 :: int) ^ j" using eq(1) by simp
  ultimately show ?thesis unfolding len K(2) using eq(2) by (intro conjI mult_right_mono) simp_all
qed

theorem run_ballot_buffer_bounds_witness:
  "int (size_t (ballot_iobuf_len (host_token 1) 2000)) \<le> 1048576"
proof -
  have "sizes_from_flags 0x110 ''RES'' = (0, 512, 1048576, 2000)"
    by (simp add: sizes_from_flags_def sanlk_res_align_flag_to_size_def sanlk_res_sector_flag_to_size_def
        size_to_max_hosts_def)
  then show ?thesis using run_ballot_buffer_bounds [of "0x110" "''RES''" 512 1048576 2000 2000 "host_token 1"]
    by (simp add: host_token_def)
qed

end
