(* ===== verification/Delta_Runs.thy ===== *)
theory Delta_Runs
  imports Delta_Theorems
begin

text \<open>
  Runs of the delta lease operations when the devices work and no one else writes to the lease: a
  lockspace that was initialised can be joined, the lease renewed and released, and joined again.
\<close>

section \<open>Single operations\<close>

text \<open>The lease of host id \<open>h\<close> on the disks, intact and with record \<open>l\<close>.\<close>

definition intact_lease :: "bytes \<Rightarrow> space \<Rightarrow> sync_disk \<Rightarrow> u64 \<Rightarrow> disks \<Rightarrow> leader_record \<Rightarrow> bool" where
  "intact_lease name sp disk h ds l \<longleftrightarrow>
    (let sec = sector_at ds disk (sp_sector_size sp) (h - 1)
     in leader_record_in sec = l \<and> delta_verify_leader name l (leader_checksum sec) = SANLK_OK)"

abbreviation sizes_ok :: "space \<Rightarrow> bool" where
  "sizes_ok sp \<equiv> sp_sector_size sp = 512 \<or> sp_sector_size sp = 4096"

lemma sector_prefix:
  assumes "leader_size \<le> length sec"
  shows "leader_record_in (take leader_size sec) = leader_record_in sec" "leader_checksum (take leader_size sec) = leader_checksum sec"
proof -
  show "leader_record_in (take leader_size sec) = leader_record_in sec" by (rule leader_in_take [OF assms])
  show "leader_checksum (take leader_size sec) = leader_checksum sec" by (simp add: leader_checksum_def min_def)
qed

lemma exec_delta_leader_read:
  assumes "sizes_ok sp" and "smooth e" and "intact_lease name sp disk h (env_disks e) l"
  shows "exec (delta_lease_leader_read (sp_sector_size sp) io disk name h ret) e = Some ((SANLK_OK, l), after_io e (env_disks e))"
  using assms sector_prefix [of "sector_at (env_disks e) disk (sp_sector_size sp) (h - 1)"]
  by (auto simp: delta_lease_leader_read_def exec_bnd exec_read_sectors intact_lease_def Let_def)

lemma exec_delta_wait:
  "\<not> removed_or_shutdown (env_shared e) sp \<Longrightarrow> exec (delta_wait sp n) e = Some (True, e\<lparr>env_time := env_time e + of_nat n\<rparr>)"
proof (induction n arbitrary: e)
  case (Suc n)
  then show ?case by (simp add: add_ac)
qed simp

text \<open>A sealed record that is written to a sector is intact there, and the other sectors keep their contents.\<close>

lemma intact_write:
  assumes "sizes_ok sp" and "leader_ok l" and "leader_seal l (replicate leader_size 0) = (l1, e1)"
    and "delta_verify_leader name l1 (lr_checksum l1) = SANLK_OK"
    and "sector_at ds disk (sp_sector_size sp) (h - 1) = e1 @ rest"
  shows "intact_lease name sp disk h ds l1"
  using assms leader_seal_length [OF assms(2), of "replicate leader_size 0"] leader_seal_in [OF assms(2), of "replicate leader_size 0"]
    leader_seal_checksum [OF assms(2), of "replicate leader_size 0"] leader_disk.dec_prefix leader_checksum_append
  by (simp add: intact_lease_def)

section \<open>Leases of different hosts\<close>

text \<open>A lockspace on a disk: its area does not wrap around the 64-bit offsets.\<close>

definition space_on :: "space \<Rightarrow> sync_disk \<Rightarrow> bool" where
  "space_on sp disk \<longleftrightarrow> space_ok sp \<and> unat (sd_offset disk) + size_t (sp_align_size sp) < 2 ^ 64"

definition host_of :: "space \<Rightarrow> u64 \<Rightarrow> bool" where
  "host_of sp h \<longleftrightarrow> 0 < h \<and> h \<le> word_of_int (sp_max_hosts sp)"

definition others_kept :: "space \<Rightarrow> sync_disk \<Rightarrow> u64 \<Rightarrow> disks \<Rightarrow> disks \<Rightarrow> bool" where
  "others_kept sp disk h ds ds' \<longleftrightarrow> (\<forall>h'. host_of sp h' \<and> h' \<noteq> h \<longrightarrow>
     sector_at ds' disk (sp_sector_size sp) (h' - 1) = sector_at ds disk (sp_sector_size sp) (h' - 1))"

lemma others_kept_trans: "others_kept sp disk h a b \<Longrightarrow> others_kept sp disk h b c \<Longrightarrow> others_kept sp disk h a c"
  by (simp add: others_kept_def)

lemma others_kept_refl [simp]: "others_kept sp disk h a a"
  by (simp add: others_kept_def)

lemma space_on_sizes: "space_on sp disk \<Longrightarrow> sizes_ok sp"
  by (simp add: space_on_def space_ok_def)

lemma slot_sector_off:
  assumes "space_on sp disk" and "host_of sp h"
  shows "sector_off disk (sp_sector_size sp) (h - 1) = unat (sd_offset disk) + (unat h - 1) * nat (sp_sector_size sp)"
proof -
  have sp: "space_ok sp" "0 < h" "h \<le> word_of_int (sp_max_hosts sp)" using assms by (simp_all add: space_on_def host_of_def)
  have "unat (sd_offset disk) + unat ((h - 1) * word_of_int (sp_sector_size sp)) < 2 ^ 64"
    using slot_in_area [OF sp] assms(1) by (simp add: space_on_def)
  then show ?thesis using unat_add_lem [of "sd_offset disk" "(h - 1) * word_of_int (sp_sector_size sp)"] slot_offset(1) [OF sp]
    by (simp add: sector_off_def)
qed

lemma others_kept_write:
  assumes "space_on sp disk" and "host_of sp h" and "length b = nat (sp_sector_size sp)"
  shows "others_kept sp disk h ds (disk_write ds (sd_path disk) (sector_off disk (sp_sector_size sp) (h - 1)) b)"
  unfolding others_kept_def
proof (intro allI impI)
  fix h'
  assume h': "host_of sp h' \<and> h' \<noteq> h"
  then have "unat h - 1 \<noteq> unat h' - 1" using assms(2) by (auto simp: host_of_def word_less_nat_alt word_unat_eq_iff)
  from disk_store.rd_wr_sector [OF assms(3) this]
  show "sector_at (disk_write ds (sd_path disk) (sector_off disk (sp_sector_size sp) (h - 1)) b) disk (sp_sector_size sp) (h' - 1) =
      sector_at ds disk (sp_sector_size sp) (h' - 1)"
    using slot_sector_off [OF assms(1)] assms(2) h' by (simp add: sector_at_def)
qed

lemma others_kept_write_sector:
  assumes "space_on sp disk" and "host_of sp h" and "length data \<le> nat (sp_sector_size sp)"
  shows "others_kept sp disk h ds (write_sector_at ds disk (sp_sector_size sp) (h - 1) data)"
  using others_kept_write [OF assms(1,2), of "data @ replicate (nat (sp_sector_size sp) - length data) 0"] assms(3)
  by (simp add: write_sector_at_def)

text \<open>The slot of a host in the buffer of the whole area is the start of its sector.\<close>

lemma area_slot_sector:
  assumes "space_on sp disk" and "host_of sp h"
  shows "area_slot sp h (disk_read ds (sd_path disk) (unat (sd_offset disk)) (size_t (sp_align_size sp))) =
    take leader_size (sector_at ds disk (sp_sector_size sp) (h - 1))"
proof -
  have sp: "space_ok sp" "0 < h" "h \<le> word_of_int (sp_max_hosts sp)" using assms by (simp_all add: space_on_def host_of_def)
  have ls: "leader_size \<le> nat (sp_sector_size sp)" using sp(1) by (auto simp: space_ok_def)
  let ?o = "unat ((h - 1) * word_of_int (sp_sector_size sp))"
  have "area_slot sp h (disk_read ds (sd_path disk) (unat (sd_offset disk)) (size_t (sp_align_size sp))) =
      slice ?o leader_size (disk_read ds (sd_path disk) (unat (sd_offset disk)) (size_t (sp_align_size sp)))"
    by (simp add: area_slot_def slice_def)
  also have "\<dots> = disk_read ds (sd_path disk) (unat (sd_offset disk) + ?o) leader_size"
    using slot_in_area [OF sp] ls by (intro disk_store.rd_slice) simp
  also have "\<dots> = slice 0 leader_size (sector_at ds disk (sp_sector_size sp) (h - 1))"
    using disk_store.rd_slice [of 0 leader_size "nat (sp_sector_size sp)" ds "sd_path disk"] ls
    by (simp add: sector_at_def slot_sector_off [OF assms] slot_offset(1) [OF sp])
  finally show ?thesis by (simp add: slice_def)
qed

section \<open>Acquire, renew, release\<close>

lemma intact_leader_ok:
  assumes "sizes_ok sp" and "intact_lease name sp disk h ds l"
  shows "leader_ok l"
  using assms leader_ok_in [of "sector_at ds disk (sp_sector_size sp) (h - 1)"] by (auto simp: intact_lease_def Let_def)

definition named :: "bytes \<Rightarrow> leader_record \<Rightarrow> bool" where
  "named name l \<longleftrightarrow> lr_magic l = DELTA_DISK_MAGIC \<and> lr_version l AND 0xFFFF0000 = DELTA_DISK_VERSION_MAJOR \<and>
     strneq NAME_ID_SIZE (lr_space_name l) name"

lemma delta_verify_iff: "delta_verify_leader name l c = SANLK_OK \<longleftrightarrow> named name l \<and> lr_checksum l = c"
  by (simp add: delta_verify_leader_def named_def)

lemma intact_named: "intact_lease name sp disk h ds l \<Longrightarrow> named name l"
  by (simp add: intact_lease_def Let_def delta_verify_iff)

text \<open>Sealing a record and writing it to the sector of a host.\<close>

lemma exec_write_sealed:
  assumes sp: "space_on sp disk" and h: "host_of sp h" and e: "smooth e" and l: "leader_ok l" "named name l"
    and seal: "leader_seal l (replicate leader_size 0) = (l1, d1)"
  shows "\<exists>ds. exec (write_sector disk (sp_sector_size sp) (h - 1) d1 io) e = Some (0, after_io e ds) \<and>
    intact_lease name sp disk h ds l1 \<and> others_kept sp disk h (env_disks e) ds \<and> l1 = l\<lparr>lr_checksum := lr_checksum l1\<rparr>"
proof -
  note ss = space_on_sizes [OF sp]
  have len: "length d1 = leader_size" using leader_seal_length [OF l(1), of "replicate leader_size 0"] seal by simp
  have l1: "l1 = l\<lparr>lr_checksum := lr_checksum l1\<rparr>" using seal by (auto simp: leader_seal_def Let_def)
  have ver: "delta_verify_leader name l1 (lr_checksum l1) = SANLK_OK"
    unfolding delta_verify_iff by (subst l1) (use l(2) in \<open>simp add: named_def\<close>)
  define ds where "ds = write_sector_at (env_disks e) disk (sp_sector_size sp) (h - 1) d1"
  have sec: "sector_at ds disk (sp_sector_size sp) (h - 1) = d1 @ replicate (nat (sp_sector_size sp) - leader_size) 0"
    using sector_at_write [of d1 "sp_sector_size sp"] len ss by (auto simp: ds_def)
  have "exec (write_sector disk (sp_sector_size sp) (h - 1) d1 io) e = Some (0, after_io e ds)"
    using exec_write_sector [OF ss _ e, of d1] len ss by (auto simp: ds_def)
  moreover have "others_kept sp disk h (env_disks e) ds"
    unfolding ds_def using others_kept_write_sector [OF sp h] len ss by auto
  ultimately show ?thesis using intact_write [OF ss l(1) seal ver sec] l1 by blast
qed

lemma shared_after_io [simp]: "env_shared (after_io e ds) = env_shared e"
  by (simp add: after_io_def env_tick_def)

lemma exec_delta_confirm:
  assumes sp: "space_on sp disk" and e: "smooth e" "\<not> removed_or_shutdown (env_shared e) sp"
    and l: "intact_lease name sp disk h (env_disks e) l"
  shows "\<exists>e1. exec (delta_confirm sp disk name h t l ret) e = Some ((SANLK_OK, l), e1) \<and> smooth e1 \<and> env_shared e1 = env_shared e \<and>
    env_disks e1 = env_disks e"
proof -
  define e0 where "e0 = e\<lparr>env_time := env_time e + of_nat (nat (2 * t))\<rparr>"
  have "smooth e0" "env_disks e0 = env_disks e" "env_shared e0 = env_shared e" using e(1) by (simp_all add: e0_def smooth_def)
  moreover from this have "exec (delta_lease_leader_read (sp_sector_size sp) (uint (sp_io_timeout sp)) disk name h l) e0 =
      Some ((SANLK_OK, l), after_io e0 (env_disks e0))"
    using exec_delta_leader_read [OF space_on_sizes [OF sp], of e0] l by simp
  ultimately show ?thesis using exec_delta_wait [OF e(2)] by (simp add: delta_confirm_def exec_bnd e0_def [symmetric])
qed

lemma exec_delta_acquire_free:
  assumes sp: "space_on sp disk" and h: "host_of sp h" and e: "smooth e" "\<not> removed_or_shutdown (env_shared e) sp"
    and l: "intact_lease name sp disk h (env_disks e) l" "lr_timestamp l = LEASE_FREE"
  shows "\<exists>l1 e1. exec (delta_lease_acquire com sp disk name host_name h ret) e = Some ((SANLK_OK, l1), e1) \<and>
    smooth e1 \<and> env_shared e1 = env_shared e \<and> intact_lease name sp disk h (env_disks e1) l1 \<and>
    others_kept sp disk h (env_disks e) (env_disks e1) \<and> lr_owner_id l1 = h \<and>
    lr_owner_generation l1 = lr_owner_generation l + 1 \<and> strneq (NAME_ID_SIZE - 1) (lr_resource_name l1) host_name"
proof -
  note ss = space_on_sizes [OF sp]
  define ea where "ea = after_io e (env_disks e)"
  have ea: "smooth ea" "env_disks ea = env_disks e" "env_shared ea = env_shared e" using e(1) by (simp_all add: ea_def)
  define new where "new = delta_new_leader sp host_name h (env_time ea) l"
  obtain l1 d1 where seal: "leader_seal new (replicate leader_size 0) = (l1, d1)" by fastforce
  have "leader_ok new" "named name new"
    using intact_leader_ok [OF ss l(1)] intact_named [OF l(1)] by (simp_all add: new_def delta_new_leader_def leader_ok_def named_def)
  from exec_write_sealed [OF sp h ea(1) this seal, of "uint (sp_io_timeout sp)"] ea(2)
  obtain ds where ds: "exec (write_sector disk (sp_sector_size sp) (h - 1) d1 (uint (sp_io_timeout sp))) ea = Some (0, after_io ea ds)"
    "intact_lease name sp disk h ds l1" "others_kept sp disk h (env_disks e) ds" "l1 = new\<lparr>lr_checksum := lr_checksum l1\<rparr>" by auto
  have l1: "lr_owner_id l1 = h" "lr_owner_generation l1 = lr_owner_generation l + 1" "strneq (NAME_ID_SIZE - 1) (lr_resource_name l1) host_name"
    by (subst ds(4), simp add: new_def delta_new_leader_def strneq_snprintf_s)+
  define t where "t = (if lr_io_timeout l = 0 then uint (sp_io_timeout sp) else uint (lr_io_timeout l))"
  obtain e1 where e1: "exec (delta_confirm sp disk name h t l1 ret) (after_io ea ds) = Some ((SANLK_OK, l1), e1)"
      "smooth e1" "env_shared e1 = env_shared e" "env_disks e1 = ds"
    using exec_delta_confirm [OF sp, of "after_io ea ds" name h l1 t ret] ea e(2) ds(2) by auto
  have "exec (delta_lease_acquire com sp disk name host_name h ret) e = Some ((SANLK_OK, l1), e1)"
    using ds(1) e1(1) l(2) seal exec_delta_leader_read [OF ss e(1) l(1)]
    by (simp add: delta_lease_acquire_def exec_bnd Let_def ea_def [symmetric] delta_write_new_def new_def [symmetric] t_def [symmetric])
  with e1 ds(2,3) l1 show ?thesis by auto
qed

lemma renewed_leader:
  "leader_ok l \<Longrightarrow> leader_ok (delta_renewed_leader sp extra t l)" "named name l \<Longrightarrow> named name (delta_renewed_leader sp extra t l)"
  "same_owner (delta_renewed_leader sp extra t l) l" "lr_timestamp (delta_renewed_leader sp extra t l) = t"
  by (simp_all add: delta_renewed_leader_def Let_def leader_ok_def named_def same_owner_def split: option.split)

lemma exec_delta_renew:
  assumes sp: "space_on sp disk" and h: "host_of sp (lr_owner_id l)" and e: "smooth e"
    and l: "intact_lease name sp disk (lr_owner_id l) (env_disks e) l"
  shows "\<exists>l1 tsk e1. exec (delta_lease_renew com sp disk name bitmap extra SANLK_OK (Some l) ret rd
        \<lparr>tsk_timeout_aicb = False, tsk_iobuf = None\<rparr>) e = Some ((SANLK_OK, l1, SANLK_OK, tsk), e1) \<and>
    smooth e1 \<and> env_shared e1 = env_shared e \<and> intact_lease name sp disk (lr_owner_id l) (env_disks e1) l1 \<and>
    others_kept sp disk (lr_owner_id l) (env_disks e) (env_disks e1) \<and> same_owner l1 l \<and> lr_timestamp l1 = env_time (after_io e (env_disks e))"
proof -
  note ss = space_on_sizes [OF sp]
  let ?h = "lr_owner_id l"
  have sp': "space_ok sp" "0 < ?h" "?h \<le> word_of_int (sp_max_hosts sp)" using sp h by (simp_all add: space_on_def host_of_def)
  define area where "area = disk_read (env_disks e) (sd_path disk) (unat (sd_offset disk)) (size_t (sp_align_size sp))"
  define ea where "ea = after_io e (env_disks e)"
  have ea: "smooth ea" "env_disks ea = env_disks e" "env_shared ea = env_shared e" using e by (simp_all add: ea_def)
  have slot: "leader_record_in (area_slot sp ?h area) = l" "delta_verify_leader name l (leader_checksum (area_slot sp ?h area)) = SANLK_OK"
    using l area_slot_sector [OF sp h] sector_prefix [of "sector_at (env_disks e) disk (sp_sector_size sp) (?h - 1)"] ss
    by (auto simp: area_def intact_lease_def Let_def)
  define new where "new = delta_renewed_leader sp extra (env_time ea) l"
  note new = renewed_leader(1) [OF intact_leader_ok [OF ss l], of sp extra "env_time ea", folded new_def]
    renewed_leader(2) [OF intact_named [OF l], of sp extra "env_time ea", folded new_def]
  obtain l1 d1 where seal: "leader_seal new (replicate leader_size 0) = (l1, d1)" by fastforce
  define b where "b = splice_at LEADER_RECORD_MAX (take HOSTID_BITMAP_SIZE bitmap) (splice_at 0 d1 (replicate (size_t (sp_sector_size sp)) 0))"
  note sec = renewal_sector [OF ss new(1) seal b_def]
  have "length d1 = leader_size" using leader_seal_length [OF new(1), of "replicate leader_size 0"] seal by simp
  then have blen: "length b = nat (sp_sector_size sp)" using ss by (auto simp: b_def)
  define ds where "ds = disk_write (env_disks e) (sd_path disk) (sector_off disk (sp_sector_size sp) (?h - 1)) b"
  have "sector_at ds disk (sp_sector_size sp) (?h - 1) = b"
    using disk_store.rd_wr_same [of "env_disks e" "sd_path disk" _ b] by (simp add: ds_def sector_at_def blen)
  moreover have "named name l1" by (subst sec(3)) (use new(2) in \<open>simp add: named_def\<close>)
  ultimately have intact: "intact_lease name sp disk ?h ds l1" using sec by (simp add: intact_lease_def delta_verify_iff)
  have l1: "same_owner l1 l" "lr_timestamp l1 = env_time ea"
    by (subst sec(3), use renewed_leader(3,4) [of sp extra "env_time ea" l] in \<open>simp add: new_def same_owner_def\<close>)+
  have "\<not> word_of_int (sp_align_size sp) < (?h - 1) * word_of_int (sp_sector_size sp)"
    using slot_in_area [OF sp'] by (simp add: word_less_nat_alt size_t_def not_less)
  then have "\<exists>tsk. exec (delta_lease_renew com sp disk name bitmap extra SANLK_OK (Some l) ret rd
        \<lparr>tsk_timeout_aicb = False, tsk_iobuf = None\<rparr>) e = Some ((SANLK_OK, l1, SANLK_OK, tsk), after_io ea ds)"
    using slot seal
    by (simp add: delta_lease_renew_def Let_def smooth_memalign [OF e] smooth_read [OF e] ea_def [symmetric] area_def [symmetric]
        delta_renew_write_def area_slot_def [symmetric] smooth_memalign [OF ea(1)] smooth_write [OF ea(1)] new_def [symmetric] ea(2)
        b_def [symmetric] ds_def sector_off_def del: exec.simps(3,5,6))
  with intact l1 ea others_kept_write [OF sp h blen, of "env_disks e", folded ds_def] show ?thesis
    by (auto simp: ea_def [symmetric])
qed

lemma exec_delta_release:
  assumes sp: "space_on sp disk" and h: "host_of sp (lr_owner_id l)" and e: "smooth e"
    and l: "leader_ok l" "named name l"
  shows "\<exists>l1 e1. exec (delta_lease_release sp disk (Some l) ret) e = Some ((SANLK_OK, l1), e1) \<and>
    smooth e1 \<and> env_shared e1 = env_shared e \<and> intact_lease name sp disk (lr_owner_id l) (env_disks e1) l1 \<and>
    others_kept sp disk (lr_owner_id l) (env_disks e) (env_disks e1) \<and> same_owner l1 l \<and> lr_timestamp l1 = LEASE_FREE"
proof -
  define new where "new = l\<lparr>lr_timestamp := LEASE_FREE, lr_checksum := 0\<rparr>"
  obtain l1 d1 where seal: "leader_seal new (replicate leader_size 0) = (l1, d1)" by fastforce
  have "leader_ok new" "named name new" using l by (simp_all add: new_def leader_ok_def named_def)
  from exec_write_sealed [OF sp h e this seal, of "uint (sp_io_timeout sp)"]
  obtain ds where ds: "exec (write_sector disk (sp_sector_size sp) (lr_owner_id l - 1) d1 (uint (sp_io_timeout sp))) e = Some (0, after_io e ds)"
    "intact_lease name sp disk (lr_owner_id l) ds l1" "others_kept sp disk (lr_owner_id l) (env_disks e) ds" "l1 = new\<lparr>lr_checksum := lr_checksum l1\<rparr>"
    by blast
  have "same_owner l1 l" "lr_timestamp l1 = LEASE_FREE" by (subst ds(4), simp add: new_def same_owner_def)+
  with ds e seal show ?thesis by (auto simp: delta_lease_release_def exec_bnd new_def [symmetric])
qed

section \<open>Initialisation\<close>

text \<open>The slots of the buffer that \<open>delta_lease_init\<close> fills.\<close>

lemma delta_init_fill_slot:
  assumes "leader_size \<le> ss" and "\<And>i. leader_ok (leader i)" and "\<forall>i \<in> set is. (i + 1) * ss \<le> length buf" and "(j + 1) * ss \<le> length buf"
  shows "slice (j * ss) leader_size (delta_init_fill leader ss is buf) =
    (if j \<in> set is then snd (leader_seal (leader j) (replicate leader_size 0)) else slice (j * ss) leader_size buf) \<and>
    length (delta_init_fill leader ss is buf) = length buf"
  using assms(3,4)
proof (induction "is" arbitrary: buf)
  case (Cons i "is")
  let ?e = "snd (leader_seal (leader i) (replicate leader_size 0))"
  let ?buf = "splice_at (i * ss) ?e buf"
  have e: "length ?e = leader_size" using leader_seal_length [OF assms(2)] by simp
  have i: "i * ss + leader_size \<le> length buf" using Cons.prems(1) assms(1) by auto
  then have len: "length ?buf = length buf" using e by simp
  have "slice (j * ss) leader_size ?buf = (if j = i then ?e else slice (j * ss) leader_size buf)"
  proof (cases j i rule: linorder_cases)
    case less
    then have "(j + 1) * ss \<le> i * ss" by (intro mult_right_mono) auto
    then show ?thesis using less assms(1) i e by (simp add: slice_splice_before)
  next
    case greater
    then have "(i + 1) * ss \<le> j * ss" by (intro mult_right_mono) auto
    then show ?thesis using greater assms(1) i e by (simp add: slice_splice_after)
  qed (use e i in simp)
  then show ?case using Cons.IH [of ?buf] Cons.prems len by auto
qed simp

lemma init_leader_ok: "leader_ok (delta_init_leader ls io ss al i)"
  by (simp add: delta_init_leader_def leader_ok_def zero_leader_def)

lemma init_leader_named: "i \<noteq> 0 \<Longrightarrow> named (lsp_name ls) (delta_init_leader ls io ss al i)"
  by (simp add: delta_init_leader_def named_def)

definition fresh_lease :: "leader_record \<Rightarrow> bool" where
  "fresh_lease l \<longleftrightarrow> lr_timestamp l = LEASE_FREE \<and> lr_owner_id l = 0 \<and> lr_owner_generation l = 0"

lemma init_leader_fresh: "fresh_lease (delta_init_leader ls io ss al i)"
  by (simp add: delta_init_leader_def fresh_lease_def zero_leader_def)

text \<open>The first sector, written last, and any other sector of the area.\<close>

lemma intact_sealed:
  assumes "sizes_ok sp" and "leader_ok l" and "named name l" and "fresh_lease l"
    and "sector_at ds disk (sp_sector_size sp) (h - 1) = snd (leader_seal l (replicate leader_size 0)) @ rest"
  shows "\<exists>l1. intact_lease name sp disk h ds l1 \<and> fresh_lease l1"
proof -
  obtain l1 d1 where seal: "leader_seal l (replicate leader_size 0) = (l1, d1)" by fastforce
  then have l1: "l1 = l\<lparr>lr_checksum := lr_checksum l1\<rparr>" by (auto simp: leader_seal_def Let_def)
  have "named name l1" "fresh_lease l1" by (subst l1, use assms(3,4) in \<open>simp add: named_def fresh_lease_def\<close>)+
  with intact_write [OF assms(1,2) seal, of name ds disk h rest] assms(5) seal show ?thesis by (auto simp: delta_verify_iff)
qed

lemma init_area:
  assumes sp: "space_on sp disk" and n: "n = nat (sp_sector_size sp)" and len: "length iobuf = size_t (sp_align_size sp)"
    and b: "b = d1 @ rest" "length b = n"
    and ds: "ds = disk_write (disk_write ds0 (sd_path disk) (unat (sd_offset disk)) iobuf) (sd_path disk) (unat (sd_offset disk)) b"
    and h: "host_of sp h"
  shows "\<exists>rest. sector_at ds disk (sp_sector_size sp) (h - 1) = (if h = 1 then d1 else slice ((unat h - 1) * n) leader_size iobuf) @ rest"
proof -
  let ?ds1 = "disk_write ds0 (sd_path disk) (unat (sd_offset disk)) iobuf"
  have sp': "space_ok sp" "0 < h" "h \<le> word_of_int (sp_max_hosts sp)" using sp h by (simp_all add: space_on_def host_of_def)
  have n_ge: "leader_size \<le> n" using space_on_sizes [OF sp] n by auto
  have "1 \<le> h" using sp'(2) by (simp add: word_le_nat_alt word_less_nat_alt)
  then have one: "host_of sp 1" using order.trans [OF _ sp'(3)] by (simp add: host_of_def)
  have off: "sector_off disk (sp_sector_size sp) 0 = unat (sd_offset disk)" by (simp add: sector_off_def)
  show ?thesis
  proof (cases "h = 1")
    case True
    have "sector_at ds disk (sp_sector_size sp) (h - 1) = b"
      using disk_store.rd_wr_same [of ?ds1 "sd_path disk" _ b] True by (simp add: sector_at_def ds off b(2) n [symmetric])
    with b(1) True show ?thesis by auto
  next
    case False
    have "sector_at ds disk (sp_sector_size sp) (h - 1) = sector_at ?ds1 disk (sp_sector_size sp) (h - 1)"
      using others_kept_write [OF sp one, of b ?ds1] b(2) n False h by (simp add: others_kept_def ds off)
    also have "\<dots> = slice ((unat h - 1) * n) n iobuf"
      using slot_in_area [OF sp'] slot_offset(1) [OF sp'] slot_sector_off [OF sp h] len
        disk_store.rd_wr_inside [of "unat (sd_offset disk)" "unat (sd_offset disk) + (unat h - 1) * n" n iobuf ds0 "sd_path disk"]
      by (simp add: sector_at_def n)
    also have "\<dots> = slice ((unat h - 1) * n) leader_size iobuf @ slice ((unat h - 1) * n + leader_size) (n - leader_size) iobuf"
      using append_slice [of "(unat h - 1) * n" leader_size "n - leader_size" iobuf] slot_in_area [OF sp'] slot_offset(1) [OF sp'] n_ge len n by simp
    finally show ?thesis using False by simp
  qed
qed

lemma area_room:
  assumes "space_ok sp" and "j < nat (sp_max_hosts sp)"
  shows "(j + 1) * nat (sp_sector_size sp) \<le> size_t (sp_align_size sp)"
proof -
  have "(j + 1) * nat (sp_sector_size sp) \<le> nat (sp_max_hosts sp) * nat (sp_sector_size sp)" using assms(2) by (intro mult_right_mono) simp_all
  also have "\<dots> = nat (sp_max_hosts sp * sp_sector_size sp)" using assms(1) by (auto simp: space_ok_def nat_mult_distrib)
  also have "\<dots> \<le> nat (sp_align_size sp)" using assms(1) by (auto simp: space_ok_def)
  also have "\<dots> = size_t (sp_align_size sp)" using assms(1) by (auto simp: space_ok_def align_sizes_def)
  finally show ?thesis .
qed

lemma exec_delta_init:
  assumes sizes: "sizes_from_flags (lsp_flags ls) ''LSF'' = (0, sp_sector_size sp, sp_align_size sp, sp_max_hosts sp)"
    and sp: "space_on sp disk" and e: "smooth e"
  shows "\<exists>e1. exec (delta_lease_init com_io wio ls io disk) e = Some (0, e1) \<and> smooth e1 \<and> env_shared e1 = env_shared e \<and>
    (\<forall>h. host_of sp h \<longrightarrow> (\<exists>l. intact_lease (lsp_name ls) sp disk h (env_disks e1) l \<and> fresh_lease l))"
proof -
  note ss = space_on_sizes [OF sp]
  have sp': "space_ok sp" using sp by (simp add: space_on_def)
  define n where "n = nat (sp_sector_size sp)"
  define io' where "io' = (if io = 0 then com_io else io)"
  define leader where "leader = delta_init_leader ls io' (sp_sector_size sp) (sp_align_size sp)"
  define iobuf where "iobuf = delta_init_fill leader n [0..<nat (sp_max_hosts sp)] (replicate (size_t (sp_align_size sp)) 0)"
  define first where "first = (leader 0)\<lparr>lr_magic := DELTA_DISK_MAGIC, lr_checksum := 0\<rparr>"
  define d1 where "d1 = snd (leader_seal first (replicate leader_size 0))"
  have n: "n = 512 \<or> n = 4096" "leader_size \<le> n" using ss by (auto simp: n_def)
  have fill: "slice (j * n) leader_size iobuf = snd (leader_seal (leader j) (replicate leader_size 0))" "length iobuf = size_t (sp_align_size sp)"
    if "j < nat (sp_max_hosts sp)" for j
    using delta_init_fill_slot [OF n(2), of leader "[0..<nat (sp_max_hosts sp)]" "replicate (size_t (sp_align_size sp)) 0" j]
      area_room [OF sp'] that init_leader_ok
    by (simp_all add: iobuf_def leader_def n_def [symmetric])
  have first: "leader_ok first" "named (lsp_name ls) first" "fresh_lease first"
    using init_leader_ok init_leader_fresh by (simp_all add: first_def leader_def leader_ok_def named_def fresh_lease_def delta_init_leader_def)
  have d1: "length d1 = leader_size" using leader_seal_length [OF first(1), of "replicate leader_size 0"] by (simp add: d1_def)
  have pos: "0 < nat (sp_max_hosts sp)" using sp' by (simp add: space_ok_def)
  define b where "b = take n (splice_at 0 d1 iobuf)"
  have b: "b = d1 @ take (n - leader_size) (drop leader_size iobuf)" "length b = n"
    using d1 n(2) fill(2) [OF pos] area_room [OF sp' pos] by (simp_all add: b_def splice_at_def n_def)
  define ds where "ds = disk_write (disk_write (env_disks e) (sd_path disk) (unat (sd_offset disk)) iobuf) (sd_path disk) (unat (sd_offset disk)) b"
  have "sp_sector_size sp \<noteq> 0" using ss by auto
  moreover obtain l1 where "leader_seal first (replicate leader_size 0) = (l1, d1)" by (metis d1_def prod.collapse)
  ultimately have "exec (delta_lease_init com_io wio ls io disk) e =
      Some (0, after_io (after_io e (disk_write (env_disks e) (sd_path disk) (unat (sd_offset disk)) iobuf)) ds)"
    using sizes e
    by (simp add: delta_lease_init_def Let_def io'_def [symmetric] leader_def [symmetric] n_def [symmetric] iobuf_def [symmetric]
        first_def [symmetric] smooth_memalign smooth_write b_def [symmetric] ds_def del: exec.simps(3,5))
  moreover have "\<exists>l. intact_lease (lsp_name ls) sp disk h ds l \<and> fresh_lease l" if h: "host_of sp h" for h
  proof -
    obtain rest where sec: "sector_at ds disk (sp_sector_size sp) (h - 1) = (if h = 1 then d1 else slice ((unat h - 1) * n) leader_size iobuf) @ rest"
      using init_area [OF sp n_def fill(2) [OF pos] b ds_def h] by blast
    have hh: "0 < h" "h \<le> word_of_int (sp_max_hosts sp)" using h by (simp_all add: host_of_def)
    show ?thesis
    proof (cases "h = 1")
      case True
      then show ?thesis using intact_sealed [OF ss first] sec by (simp add: d1_def)
    next
      case False
      then have "unat h \<noteq> 1" by (simp add: word_unat_eq_iff)
      then have j: "unat h - 1 \<noteq> 0" "unat h - 1 < nat (sp_max_hosts sp)"
        using slot_offset(2) [OF sp' hh] hh(1) by (auto simp: word_less_nat_alt)
      show ?thesis
        using intact_sealed [OF ss init_leader_ok init_leader_named [OF j(1)] init_leader_fresh] sec fill(1) [OF j(2)] False
        by (simp add: leader_def)
    qed
  qed
  ultimately show ?thesis using e by auto
qed

section \<open>Properties\<close>

text \<open>A daemon with one lockspace on a zeroed disk, for the witnesses.\<close>

abbreviation witness_disk :: sync_disk where "witness_disk \<equiv> sp_host_id_disk witness_space"

definition witness_env :: "daemon env" where
  "witness_env = \<lparr>env_disks = \<lambda>_ _. 0, env_time = 100, env_junk = \<lambda>_. 0, env_io = [], env_ticks = [1, 0, 2], env_mem = [], env_rand = [], env_open = [], env_calls = [],
     env_shared = \<lparr>dm_com = default_com, dm_spaces = [witness_space], dm_spaces_rem = [], dm_spaces_add = [], dm_external_shutdown = 0, dm_space_id_counter = 2\<rparr>\<rparr>"

definition witness_lockspace :: sanlk_lockspace where
  "witness_lockspace = \<lparr>lsp_name = replicate 48 0, lsp_host_id = 2, lsp_flags = SANLK_LSF_ALIGN1M OR SANLK_LSF_SECTOR512,
     lsp_host_id_disk = sp_host_id_disk witness_space\<rparr>"

lemma witness_run:
  "space_on witness_space witness_disk" "host_of witness_space 2" "smooth witness_env" "\<not> removed_or_shutdown (env_shared witness_env) witness_space"
  "sizes_from_flags (lsp_flags witness_lockspace) ''LSF'' = (0, sp_sector_size witness_space, sp_align_size witness_space, sp_max_hosts witness_space)"
proof -
  show "space_on witness_space witness_disk" by (simp add: space_on_def space_ok_def align_sizes_def witness_space_def)
  show "host_of witness_space 2" by (simp add: host_of_def witness_space_def)
  show "smooth witness_env" by (simp add: smooth_def witness_env_def)
  show "\<not> removed_or_shutdown (env_shared witness_env) witness_space" by (simp add: removed_or_shutdown_def witness_env_def witness_space_def)
  show "sizes_from_flags (lsp_flags witness_lockspace) ''LSF'' = (0, sp_sector_size witness_space, sp_align_size witness_space, sp_max_hosts witness_space)"
    by (simp add: witness_lockspace_def witness_space_def sizes_from_flags_def sanlk_lsf_align_flag_to_size_def sanlk_lsf_sector_flag_to_size_def
        size_to_max_hosts_def)
qed

text \<open>
  C26: A new lockspace is free for everyone.  When its writes succeed, \<open>delta_lease_init\<close> returns success and
  leaves, on any disk, an intact and free lease with generation 0 for every host id of the lockspace.
\<close>

theorem delta_init_all_free:
  assumes "sizes_from_flags (lsp_flags ls) ''LSF'' = (0, sp_sector_size sp, sp_align_size sp, sp_max_hosts sp)"
    and "space_on sp disk" and "smooth e"
  shows "\<exists>e1. exec (delta_lease_init default_io_timeout write_init_io_timeout ls io_timeout disk) e = Some (0, e1) \<and>
    (\<forall>h. host_of sp h \<longrightarrow> (\<exists>l. intact_lease (lsp_name ls) sp disk h (env_disks e1) l \<and> fresh_lease l))"
  using exec_delta_init [OF assms] by blast

theorem delta_init_all_free_witness:
  "\<exists>e1 l. exec (delta_lease_init 10 0 witness_lockspace 0 witness_disk) witness_env = Some (0, e1) \<and>
    intact_lease (replicate 48 0) witness_space witness_disk 2 (env_disks e1) l \<and> fresh_lease l"
  using delta_init_all_free [OF witness_run(5,1,3), of 10 0 0] witness_run(2) by (auto simp: witness_lockspace_def)

text \<open>
  C16: The life of a delta lease.  When the devices work and nobody else writes the sector, a host acquires a
  free lease with the next generation, renews it, which moves the timestamp to the current time and keeps
  the owner, and releases it, after which the sector holds an intact free lease again; the sectors of the
  other hosts are the same bytes as before.
\<close>

theorem delta_lease_lifecycle:
  assumes "space_on sp disk" and "host_of sp h" and "smooth e" and "\<not> removed_or_shutdown (env_shared e) sp"
    and "intact_lease name sp disk h (env_disks e) l" and "lr_timestamp l = LEASE_FREE"
  shows "\<exists>l1 e1 l2 task e2 l3 e3.
    exec (delta_lease_acquire com sp disk name host_name h ret) e = Some ((SANLK_OK, l1), e1) \<and>
    lr_owner_id l1 = h \<and> lr_owner_generation l1 = lr_owner_generation l + 1 \<and>
    exec (delta_lease_renew com sp disk name bitmap extra SANLK_OK (Some l1) ret rd \<lparr>tsk_timeout_aicb = False, tsk_iobuf = None\<rparr>) e1 =
      Some ((SANLK_OK, l2, SANLK_OK, task), e2) \<and>
    same_owner l2 l1 \<and> lr_timestamp l2 = env_time (after_io e1 (env_disks e1)) \<and>
    exec (delta_lease_release sp disk (Some l2) ret) e2 = Some ((SANLK_OK, l3), e3) \<and>
    intact_lease name sp disk h (env_disks e3) l3 \<and> lr_timestamp l3 = LEASE_FREE \<and> same_owner l3 l2 \<and>
    others_kept sp disk h (env_disks e) (env_disks e3)"
proof -
  note ss = space_on_sizes [OF assms(1)]
  obtain l1 e1 where a: "exec (delta_lease_acquire com sp disk name host_name h ret) e = Some ((SANLK_OK, l1), e1)" "smooth e1"
      "intact_lease name sp disk h (env_disks e1) l1" "others_kept sp disk h (env_disks e) (env_disks e1)"
      "lr_owner_id l1 = h" "lr_owner_generation l1 = lr_owner_generation l + 1"
    using exec_delta_acquire_free [OF assms] by blast
  obtain l2 task e2 where r: "exec (delta_lease_renew com sp disk name bitmap extra SANLK_OK (Some l1) ret rd
        \<lparr>tsk_timeout_aicb = False, tsk_iobuf = None\<rparr>) e1 = Some ((SANLK_OK, l2, SANLK_OK, task), e2)" "smooth e2"
      "intact_lease name sp disk h (env_disks e2) l2" "others_kept sp disk h (env_disks e1) (env_disks e2)" "same_owner l2 l1"
      "lr_timestamp l2 = env_time (after_io e1 (env_disks e1))"
    using exec_delta_renew [OF assms(1), of l1 e1 name] a assms(2) by blast
  have h2: "lr_owner_id l2 = h" using r(5) a(5) by (simp add: same_owner_def)
  obtain l3 e3 where x: "exec (delta_lease_release sp disk (Some l2) ret) e2 = Some ((SANLK_OK, l3), e3)"
      "intact_lease name sp disk h (env_disks e3) l3" "others_kept sp disk h (env_disks e2) (env_disks e3)" "same_owner l3 l2"
      "lr_timestamp l3 = LEASE_FREE"
    using exec_delta_release [OF assms(1) _ r(2) intact_leader_ok [OF ss r(3)] intact_named [OF r(3)], of ret] h2 assms(2) by auto
  from others_kept_trans [OF others_kept_trans [OF a(4) r(4)] x(3)] a r x show ?thesis by blast
qed

theorem delta_lease_lifecycle_witness:
  "\<exists>e e1 l1. exec (delta_lease_init 10 0 witness_lockspace 0 witness_disk) witness_env = Some (0, e) \<and>
    exec (delta_lease_acquire default_com witness_space witness_disk (replicate 48 0) [104, 49] 2 zero_leader) e = Some ((SANLK_OK, l1), e1) \<and>
    lr_owner_id l1 = 2 \<and> lr_owner_generation l1 = 1"
proof -
  obtain e l where e: "exec (delta_lease_init 10 0 witness_lockspace 0 witness_disk) witness_env = Some (0, e)" "smooth e"
      "env_shared e = env_shared witness_env" "intact_lease (replicate 48 0) witness_space witness_disk 2 (env_disks e) l" "fresh_lease l"
    using exec_delta_init [OF witness_run(5,1,3), of 10 0 0] witness_run(2) by (auto simp: witness_lockspace_def)
  then have "lr_timestamp l = LEASE_FREE" "lr_owner_generation l = 0" "\<not> removed_or_shutdown (env_shared e) witness_space"
    using witness_run(4) by (simp_all add: fresh_lease_def)
  with delta_lease_lifecycle [OF witness_run(1,2) e(2) _ e(4), of default_com "[104, 49]" zero_leader "[]" None 0] e(1) show ?thesis by auto
qed

end
