(* ===== verification/Wdmd_Client.thy ===== *)
theory Wdmd_Client
  imports Diskio
begin

text \<open>
  The library with which a process talks to the watchdog daemon: \<open>src/wdmd/client.c\<close>.  \<open>send\<close> has the
  connection and the fields of \<open>struct wdmd_header\<close> that the daemon reads as arguments (the command, the fire
  timeout, the renewal time and the expiry time); \<open>recv\<close> delivers fields of the reply as further results.
\<close>

abbreviation CMD_REGISTER :: u32 where "CMD_REGISTER \<equiv> 1"
abbreviation CMD_REFCOUNT_SET :: u32 where "CMD_REFCOUNT_SET \<equiv> 2"
abbreviation CMD_REFCOUNT_CLEAR :: u32 where "CMD_REFCOUNT_CLEAR \<equiv> 3"
abbreviation CMD_TEST_LIVE :: u32 where "CMD_TEST_LIVE \<equiv> 4"
abbreviation CMD_STATUS :: u32 where "CMD_STATUS \<equiv> 5"
abbreviation CMD_DUMP_DEBUG :: u32 where "CMD_DUMP_DEBUG \<equiv> 6"
abbreviation CMD_OPEN_WATCHDOG :: u32 where "CMD_OPEN_WATCHDOG \<equiv> 7"

abbreviation WDMD_NAME_SIZE :: nat where "WDMD_NAME_SIZE \<equiv> 128"
abbreviation ENAMETOOLONG :: int where "ENAMETOOLONG \<equiv> 36"

definition neg_errno :: "('st, int) io" where
  "neg_errno = Call ''errno'' [] (\<lambda>errno. Ret (- errno))"

record wdmd_header =
  wh_cmd :: u32
  wh_fire_timeout :: u32
  wh_renewal_time :: u64
  wh_expire_time :: u64

definition zero_header :: wdmd_header where
  "zero_header = \<lparr>wh_cmd = 0, wh_fire_timeout = 0, wh_renewal_time = 0, wh_expire_time = 0\<rparr>"

definition send_wdmd_header :: "int \<Rightarrow> wdmd_header \<Rightarrow> ('st, int) io" where
  "send_wdmd_header con h =
    Call ''send'' [con, uint (wh_cmd h), uint (wh_fire_timeout h), uint (wh_renewal_time h), uint (wh_expire_time h)] (\<lambda>rv.
      if rv < 0 then neg_errno else Ret 0)"

definition wdmd_connect :: "('st, int) io" where
  "wdmd_connect =
    Call ''socket'' [] (\<lambda>s.
      if s < 0 then neg_errno
      else Call ''connect'' [s] (\<lambda>rv.
        if rv < 0 then bnd neg_errno (\<lambda>rv. Call ''close'' [s] (\<lambda>_. Ret rv)) else Ret s))"

definition wdmd_register :: "int \<Rightarrow> bytes \<Rightarrow> ('st, int) io" where
  "wdmd_register con name =
    (if length (cstr name) > WDMD_NAME_SIZE then Ret (- ENAMETOOLONG)
     else send_wdmd_header con (zero_header\<lparr>wh_cmd := CMD_REGISTER\<rparr>))"

definition send_header :: "int \<Rightarrow> u32 \<Rightarrow> ('st, int) io" where
  "send_header con cmd = send_wdmd_header con (zero_header\<lparr>wh_cmd := cmd\<rparr>)"

definition wdmd_open_watchdog :: "int \<Rightarrow> int \<Rightarrow> ('st, int) io" where
  "wdmd_open_watchdog con fire_timeout =
    bnd (send_wdmd_header con (zero_header\<lparr>wh_cmd := CMD_OPEN_WATCHDOG, wh_fire_timeout := word_of_int fire_timeout\<rparr>)) (\<lambda>rv.
      if rv < 0 then Ret rv
      else Call ''recv'' [con] (\<lambda>rv.
        if rv < 0 then neg_errno
        else Call ''recv fire_timeout'' [con] (\<lambda>ft.
          if (word_of_int ft :: u32) \<noteq> word_of_int fire_timeout then Ret (-1) else Ret 0)))"

definition wdmd_refcount_set :: "int \<Rightarrow> ('st, int) io" where
  "wdmd_refcount_set con = send_header con CMD_REFCOUNT_SET"

definition wdmd_refcount_clear :: "int \<Rightarrow> ('st, int) io" where
  "wdmd_refcount_clear con = send_header con CMD_REFCOUNT_CLEAR"

definition wdmd_test_live :: "int \<Rightarrow> u64 \<Rightarrow> u64 \<Rightarrow> ('st, int) io" where
  "wdmd_test_live con renewal_time expire_time =
    send_wdmd_header con (zero_header\<lparr>wh_cmd := CMD_TEST_LIVE, wh_renewal_time := renewal_time, wh_expire_time := expire_time\<rparr>)"

text \<open>
  The results are the return value, the test interval, the fire timeout and the last keepalive.  Any
  return value of \<open>recv\<close> that is not negative counts as a reply, also that of a closed connection, whose
  fields are not initialised.
\<close>

definition wdmd_status :: "int \<Rightarrow> ('st, int \<times> int \<times> int \<times> int) io" where
  "wdmd_status con =
    bnd (send_header con CMD_STATUS) (\<lambda>rv.
      if rv < 0 then Ret (rv, 0, 0, 0)
      else Call ''recv'' [con] (\<lambda>rv.
        if rv < 0 then bnd neg_errno (\<lambda>rv. Ret (rv, 0, 0, 0))
        else Call ''recv test_interval'' [con] (\<lambda>test_interval. Call ''recv fire_timeout'' [con] (\<lambda>fire_timeout.
          Call ''recv last_keepalive'' [con] (\<lambda>last_keepalive. Ret (0, test_interval, fire_timeout, last_keepalive))))))"

end
