(* ===== verification/Lockspace_Ops.thy ===== *)
theory Lockspace_Ops
  imports Lockspace Wdmd_Client
begin

text \<open>
  The operations of the daemon on its lockspaces (\<open>src/lockspace.c\<close>): adding, removing and listing them,
  the states reported for other hosts, the resource index flag, the configuration flags and the host
  events.  A lockspace is a node of one of the three lists of the daemon, and code that holds a pointer to
  it names it by its \<open>space_id\<close>: \<open>map_space\<close> is an update through such a pointer, \<open>current_space\<close> a read.  A
  call to another library with several results is followed by one \<open>Call\<close> for each further result; the
  result of \<open>malloc\<close> is 0 when it succeeded.
\<close>

section \<open>Constants and initial values\<close>

abbreviation SANLK_ADDLS_SIZES :: int where "SANLK_ADDLS_SIZES \<equiv> -230"
abbreviation SANLK_ADDLS_INVALID_HOSTID :: int where "SANLK_ADDLS_INVALID_HOSTID \<equiv> -231"
abbreviation SANLK_WD_ERROR :: int where "SANLK_WD_ERROR \<equiv> -203"

abbreviation SANLK_LSF_ADD :: u32 where "SANLK_LSF_ADD \<equiv> 0x1"
abbreviation SANLK_LSF_REM :: u32 where "SANLK_LSF_REM \<equiv> 0x2"

abbreviation SANLK_HOST_UNKNOWN :: u32 where "SANLK_HOST_UNKNOWN \<equiv> 1"
abbreviation SANLK_HOST_FREE :: u32 where "SANLK_HOST_FREE \<equiv> 2"
abbreviation SANLK_HOST_LIVE :: u32 where "SANLK_HOST_LIVE \<equiv> 3"
abbreviation SANLK_HOST_FAIL :: u32 where "SANLK_HOST_FAIL \<equiv> 4"
abbreviation SANLK_HOST_DEAD :: u32 where "SANLK_HOST_DEAD \<equiv> 5"

abbreviation SANLK_CONFIG_USED :: u32 where "SANLK_CONFIG_USED \<equiv> 0x1"
abbreviation SANLK_CONFIG_UNUSED :: u32 where "SANLK_CONFIG_UNUSED \<equiv> 0x2"
abbreviation SANLK_CONFIG_USED_BY_ORPHANS :: u32 where "SANLK_CONFIG_USED_BY_ORPHANS \<equiv> 0x4"
abbreviation SANLK_CONFIG_UNUSED_BY_ORPHANS :: u32 where "SANLK_CONFIG_UNUSED_BY_ORPHANS \<equiv> 0x8"

abbreviation SANLK_SETEV_CUR_GENERATION :: u32 where "SANLK_SETEV_CUR_GENERATION \<equiv> 0x1"
abbreviation SANLK_SETEV_CLEAR_HOSTID :: u32 where "SANLK_SETEV_CLEAR_HOSTID \<equiv> 0x2"
abbreviation SANLK_SETEV_CLEAR_EVENT :: u32 where "SANLK_SETEV_CLEAR_EVENT \<equiv> 0x4"
abbreviation SANLK_SETEV_REPLACE_EVENT :: u32 where "SANLK_SETEV_REPLACE_EVENT \<equiv> 0x8"
abbreviation SANLK_SETEV_ALL_HOSTS :: u32 where "SANLK_SETEV_ALL_HOSTS \<equiv> 0x10"

abbreviation SP_EXTERNAL_USED :: u32 where "SP_EXTERNAL_USED \<equiv> 0x1"
abbreviation SP_USED_BY_ORPHANS :: u32 where "SP_USED_BY_ORPHANS \<equiv> 0x2"

abbreviation MAX_EVENT_FDS :: nat where "MAX_EVENT_FDS \<equiv> 32"

definition zero_host_status :: host_status where
  "zero_host_status = \<lparr>hs_first_check = 0, hs_last_check = 0, hs_last_live = 0, hs_last_req = 0, hs_owner_id = 0,
     hs_owner_generation = 0, hs_timestamp = 0, hs_set_bit_time = 0, hs_io_timeout = 0, hs_lease_bad = 0,
     hs_owner_name = replicate (NAME_ID_SIZE + 1) 0\<rparr>"

definition zero_host_event :: sanlk_host_event where
  "zero_host_event = \<lparr>he_host_id = 0, he_generation = 0, he_event = 0, he_data = 0\<rparr>"

definition zero_lease_status :: lease_status where
  "zero_lease_status = \<lparr>ls_corrupt_result = 0, ls_acquire_last_result = 0, ls_renewal_last_result = 0,
     ls_acquire_last_attempt = 0, ls_acquire_last_success = 0, ls_renewal_last_attempt = 0,
     ls_renewal_last_success = 0, ls_renewal_read_count = 0, ls_renewal_read_check = 0, ls_renewal_read_buf = []\<rparr>"

definition zero_history :: renewal_history where
  "zero_history = \<lparr>rhi_timestamp = 0, rhi_read_ms = 0, rhi_write_ms = 0, rhi_next_timeouts = 0, rhi_next_errors = 0\<rparr>"

section \<open>Updates through a pointer\<close>

definition update_space :: "u32 \<Rightarrow> (space \<Rightarrow> space) \<Rightarrow> space list \<Rightarrow> space list" where
  "update_space space_id f sps = map (\<lambda>sp. if sp_space_id sp = space_id then f sp else sp) sps"

definition map_space :: "u32 \<Rightarrow> (space \<Rightarrow> space) \<Rightarrow> daemon \<Rightarrow> daemon" where
  "map_space space_id f dm =
    dm\<lparr>dm_spaces := update_space space_id f (dm_spaces dm),
       dm_spaces_rem := update_space space_id f (dm_spaces_rem dm),
       dm_spaces_add := update_space space_id f (dm_spaces_add dm)\<rparr>"

definition all_spaces :: "daemon \<Rightarrow> space list" where
  "all_spaces dm = dm_spaces dm @ dm_spaces_rem dm @ dm_spaces_add dm"

definition current_space :: "daemon \<Rightarrow> space \<Rightarrow> space" where
  "current_space dm sp =
    (case find (\<lambda>s. sp_space_id s = sp_space_id sp) (all_spaces dm) of Some s \<Rightarrow> s | None \<Rightarrow> sp)"

definition on_space :: "space \<Rightarrow> (space \<Rightarrow> 'a \<times> space) \<Rightarrow> 'a sio" where
  "on_space sp f =
    Shared (map_space (sp_space_id sp) (\<lambda>s. snd (f s))) (\<lambda>dm. Ret (fst (f (current_space dm sp))))"

definition find_started :: "daemon \<Rightarrow> bytes \<Rightarrow> space option" where
  "find_started dm name = map_option fst (search_space (Some name) None 0 [dm_spaces dm] 0)"

section \<open>The history of renewals\<close>

definition save_renewal_history :: "space \<Rightarrow> int \<Rightarrow> u64 \<Rightarrow> int \<Rightarrow> int \<Rightarrow> space" where
  "save_renewal_history sp delta_result last_success rd_ms wr_ms =
    (if sp_renewal_history sp = [] then sp
     else if delta_result = SANLK_OK then
       (let next = nat (sp_renewal_history_next sp);
            hi = (sp_renewal_history sp ! next)\<lparr>rhi_timestamp := last_success, rhi_read_ms := rd_ms, rhi_write_ms := wr_ms\<rparr>;
            next1 = sp_renewal_history_next sp + 1
        in sp\<lparr>sp_renewal_history := (sp_renewal_history sp)[next := hi],
              sp_renewal_history_prev := sp_renewal_history_next sp,
              sp_renewal_history_next := (if next1 \<ge> int (length (sp_renewal_history sp)) then 0 else next1)\<rparr>)
     else
       (let prev = nat (sp_renewal_history_prev sp);
            hi = sp_renewal_history sp ! prev;
            hi1 = (if delta_result = SANLK_AIO_TIMEOUT then hi\<lparr>rhi_next_timeouts := rhi_next_timeouts hi + 1\<rparr>
                   else hi\<lparr>rhi_next_errors := rhi_next_errors hi + 1\<rparr>)
        in sp\<lparr>sp_renewal_history := (sp_renewal_history sp)[prev := hi1]\<rparr>))"

section \<open>Adding a lockspace\<close>

definition new_space :: "com_options \<Rightarrow> sanlk_lockspace \<Rightarrow> u32 \<Rightarrow> bool \<Rightarrow> space" where
  "new_space com ls io_timeout history =
    \<lparr>sp_space_name = lsp_name ls, sp_space_id = 0, sp_host_id = lsp_host_id ls, sp_host_generation = 0,
     sp_host_id_disk = (lsp_host_id_disk ls)\<lparr>sd_sector_size := 0, sd_fd := -1\<rparr>,
     sp_io_timeout = io_timeout,
     sp_set_bitmap_seconds = word_of_int (calc_set_bitmap_seconds com (uint io_timeout)),
     sp_sector_size = 0, sp_align_size = 0, sp_max_hosts = 0, sp_killing_pids = 0, sp_external_remove = False,
     sp_renewal_read_extend_sec =
       (if com_renewal_read_extend_sec_set com \<noteq> 0 then com_renewal_read_extend_sec com else io_timeout),
     sp_host_event = zero_host_event, sp_lease_status = zero_lease_status,
     sp_host_status = replicate DEFAULT_MAX_HOSTS zero_host_status,
     sp_flags = 0, sp_rindex_op = 0, sp_space_dead = 0, sp_thread_stop = 0, sp_wd_fd = 0,
     sp_event_fds = replicate MAX_EVENT_FDS (-1), sp_set_event_time = 0,
     sp_renewal_history = (if history then replicate (nat (com_renewal_history_size com)) zero_history else []),
     sp_renewal_history_next = 0, sp_renewal_history_prev = 0\<rparr>"

text \<open>The critical section of \<open>add_lockspace_start\<close>: the result, the node with its id, and the daemon.\<close>

definition add_space :: "space \<Rightarrow> daemon \<Rightarrow> int \<times> space \<times> daemon" where
  "add_space sp dm =
    (let same = (\<lambda>heads. search_space (Some (sp_space_name sp)) (Some (sp_host_id_disk sp)) (sp_host_id sp) heads 0);
         heads = [dm_spaces dm, dm_spaces_add dm, dm_spaces_rem dm]
     in
       if same [dm_spaces dm] \<noteq> None then (- EEXIST, sp, dm)
       else if same [dm_spaces_add dm] \<noteq> None then (- EINPROGRESS, sp, dm)
       else if same [dm_spaces_rem dm] \<noteq> None then (- EAGAIN, sp, dm)
       else if search_space (Some (sp_space_name sp)) None 0 heads 0 \<noteq> None then (- EINVAL, sp, dm)
       else if search_space None (Some (sp_host_id_disk sp)) 0 heads 0 \<noteq> None then (- EINVAL, sp, dm)
       else
         (let sp' = sp\<lparr>sp_space_id := dm_space_id_counter dm\<rparr>
          in (0, sp', dm\<lparr>dm_space_id_counter := dm_space_id_counter dm + 1, dm_spaces_add := sp' # dm_spaces_add dm\<rparr>)))"

text \<open>\<open>list_del\<close> of a node, and the move of a node from \<open>spaces_add\<close> to the head of \<open>spaces\<close>.\<close>

definition del_space :: "space \<Rightarrow> daemon \<Rightarrow> daemon" where
  "del_space sp dm =
    dm\<lparr>dm_spaces := filter (\<lambda>s. sp_space_id s \<noteq> sp_space_id sp) (dm_spaces dm),
       dm_spaces_rem := filter (\<lambda>s. sp_space_id s \<noteq> sp_space_id sp) (dm_spaces_rem dm),
       dm_spaces_add := filter (\<lambda>s. sp_space_id s \<noteq> sp_space_id sp) (dm_spaces_add dm)\<rparr>"

definition start_space :: "space \<Rightarrow> daemon \<Rightarrow> daemon" where
  "start_space sp dm =
    (let s = current_space dm sp; dm1 = del_space sp dm in dm1\<lparr>dm_spaces := s # dm_spaces dm1\<rparr>)"

definition add_lockspace_start :: "com_options \<Rightarrow> sanlk_lockspace \<Rightarrow> u32 \<Rightarrow> (int \<times> space option) sio" where
  "add_lockspace_start com ls io_timeout =
    (if lsp_name ls ! 0 = 0 \<or> lsp_host_id ls = 0 \<or> sd_path (lsp_host_id_disk ls) = [] then Ret (- EINVAL, None)
     else Call ''malloc'' [] (\<lambda>null.
       if null \<noteq> 0 then Ret (- ENOMEM, None)
       else
         bnd (if com_renewal_history_size com \<noteq> 0 then Call ''malloc'' [] (\<lambda>null. Ret (null = 0)) else Ret False) (\<lambda>history.
           let sp = new_space com ls io_timeout history
           in Shared (\<lambda>dm. snd (snd (add_space sp dm))) (\<lambda>dm.
             case add_space sp dm of (rv, sp', _) \<Rightarrow>
               if rv \<noteq> 0 then Ret (rv, None)
               else Call ''pthread_create'' [uint (sp_space_id sp')] (\<lambda>rv.
                 if rv \<noteq> 0 then Shared (del_space sp') (\<lambda>_. Ret (-1, None)) else Ret (0, Some sp'))))))"

section \<open>The watchdog\<close>

text \<open>\<open>src/watchdog.c\<close>: the calls to the watchdog daemon for a lockspace.\<close>

definition open_watchdog :: "com_options \<Rightarrow> int \<Rightarrow> int \<Rightarrow> int sio" where
  "open_watchdog com con fire_timeout =
    (if com_use_watchdog com = 0 then Ret 0
     else bnd (wdmd_open_watchdog con fire_timeout) (\<lambda>rv. if rv < 0 then Ret (-1) else Ret 0))"

text \<open>The expiry is computed in 64 bits.\<close>

definition update_watchdog :: "com_options \<Rightarrow> space \<Rightarrow> u64 \<Rightarrow> int \<Rightarrow> unit sio" where
  "update_watchdog com sp timestamp id_renewal_fail_seconds =
    (if com_use_watchdog com = 0 then Ret ()
     else bnd (wdmd_test_live (sp_wd_fd sp) timestamp (timestamp + word_of_int id_renewal_fail_seconds)) (\<lambda>rv. Ret ()))"

definition connect_watchdog :: "com_options \<Rightarrow> int sio" where
  "connect_watchdog com =
    (if com_use_watchdog com = 0 then Ret 0
     else bnd wdmd_connect (\<lambda>con. if con < 0 then Ret (-1) else Ret con))"

text \<open>The name under which a lockspace registers; \<open>snprintf\<close> with its size one less than the buffer.\<close>

definition watchdog_name :: "space \<Rightarrow> bytes" where
  "watchdog_name sp =
    take (WDMD_NAME_SIZE - 2) (ascii ''sanlock_'' @ cstr (sp_space_name sp) @ ascii '':'' @ decimal (unat (sp_host_id sp)))"

text \<open>On success the connection is kept in the lockspace.\<close>

definition activate_watchdog :: "com_options \<Rightarrow> space \<Rightarrow> u64 \<Rightarrow> int \<Rightarrow> int \<Rightarrow> int sio" where
  "activate_watchdog com sp timestamp id_renewal_fail_seconds con =
    (let fail_close = Call ''close'' [con] (\<lambda>_. Ret (-1));
         fail_clear = bnd (wdmd_refcount_clear con) (\<lambda>_. fail_close)
     in
       if com_use_watchdog com = 0 then Ret 0
       else bnd (wdmd_register con (watchdog_name sp)) (\<lambda>rv.
         if rv < 0 then fail_close
         else bnd (wdmd_refcount_set con) (\<lambda>rv.
           if rv < 0 then fail_close
           else bnd (wdmd_status con) (\<lambda>(rv, test_interval, fire_timeout, last_keepalive).
             if rv < 0 then fail_clear
             else if fire_timeout \<noteq> com_watchdog_fire_timeout com then fail_clear
               else bnd (wdmd_test_live con timestamp (timestamp + word_of_int id_renewal_fail_seconds)) (\<lambda>rv.
                 if rv < 0 then fail_clear
                 else on_space sp (\<lambda>s. (0, s\<lparr>sp_wd_fd := con\<rparr>)))))))"

definition deactivate_watchdog :: "com_options \<Rightarrow> space \<Rightarrow> unit sio" where
  "deactivate_watchdog com sp =
    (if com_use_watchdog com = 0 then Ret ()
     else bnd (wdmd_test_live (sp_wd_fd sp) 0 0) (\<lambda>rv.
       let clear = bnd (wdmd_refcount_clear (sp_wd_fd sp)) (\<lambda>_. Ret ())
       in if rv < 0 then Usleep 500000 (bnd (wdmd_test_live (sp_wd_fd sp) 0 0) (\<lambda>rv. clear)) else clear))"

definition disconnect_watchdog :: "com_options \<Rightarrow> space \<Rightarrow> unit sio" where
  "disconnect_watchdog com sp =
    (if com_use_watchdog com = 0 then Ret () else Call ''close'' [sp_wd_fd sp] (\<lambda>_. Ret ()))"

section \<open>Waiting for an added lockspace\<close>

text \<open>
  \<open>add_lockspace_wait\<close> runs in a worker thread while the lockspace thread acquires the delta lease.  Its
  rounds are bounded by \<open>fuel\<close>.
\<close>

fun add_lockspace_poll :: "space \<Rightarrow> nat \<Rightarrow> int sio" where
  "add_lockspace_poll sp 0 = Out_of_fuel"
| "add_lockspace_poll sp (Suc fuel) =
    Get_shared (\<lambda>dm.
      let result = ls_acquire_last_result (sp_lease_status (current_space dm sp))
      in if result \<noteq> 0 then Ret result else Sleep 1 (add_lockspace_poll sp fuel))"

definition add_lockspace_wait :: "com_options \<Rightarrow> space \<Rightarrow> nat \<Rightarrow> int sio" where
  "add_lockspace_wait com sp fuel =
    (let fail_del = (\<lambda>rv. Shared (del_space sp) (\<lambda>_. Ret rv))
     in bnd (add_lockspace_poll sp fuel) (\<lambda>result.
       if result \<noteq> SANLK_OK then Call ''pthread_join'' [uint (sp_space_id sp)] (\<lambda>_. fail_del result)
       else Shared (\<lambda>dm. if removed_or_shutdown dm sp then dm else start_space sp dm) (\<lambda>dm.
         if removed_or_shutdown dm sp then
           bnd (on_space sp (\<lambda>s. ((), s\<lparr>sp_thread_stop := 1\<rparr>))) (\<lambda>_.
             bnd (deactivate_watchdog com (current_space dm sp)) (\<lambda>_.
               Call ''pthread_join'' [uint (sp_space_id sp)] (\<lambda>_. fail_del (-1))))
         else Ret 0)))"

section \<open>Inquiring and removing\<close>

definition search_lockspace :: "sanlk_lockspace \<Rightarrow> space list list \<Rightarrow> space option" where
  "search_lockspace ls heads =
    map_option fst (search_space (Some (lsp_name ls)) (Some (lsp_host_id_disk ls)) (lsp_host_id ls) heads 0)"

definition inq_lockspace :: "sanlk_lockspace \<Rightarrow> daemon \<Rightarrow> int" where
  "inq_lockspace ls dm =
    (if search_lockspace ls [dm_spaces dm] \<noteq> None then 0
     else if search_lockspace ls [dm_spaces_add dm, dm_spaces_rem dm] \<noteq> None then - EINPROGRESS
     else - ENOENT)"

text \<open>\<open>space_id\<close> is only written when the result is 0.\<close>

definition rem_lockspace_start :: "sanlk_lockspace \<Rightarrow> daemon \<Rightarrow> int \<times> u32 option \<times> daemon" where
  "rem_lockspace_start ls dm =
    (let mark = (\<lambda>sp. (0, Some (sp_space_id sp), map_space (sp_space_id sp) (\<lambda>s. s\<lparr>sp_external_remove := True\<rparr>) dm))
     in
       if search_lockspace ls [dm_spaces_rem dm] \<noteq> None then (- EINPROGRESS, None, dm)
       else case search_lockspace ls [dm_spaces_add dm] of
         Some sp \<Rightarrow> mark sp
       | None \<Rightarrow>
           (case search_lockspace ls [dm_spaces dm] of
              None \<Rightarrow> (- ENOENT, None, dm)
            | Some sp \<Rightarrow> if sp_rindex_op sp \<noteq> 0 then (- EBUSY, None, dm) else mark sp))"

fun rem_lockspace_wait :: "sanlk_lockspace \<Rightarrow> u32 \<Rightarrow> nat \<Rightarrow> int sio" where
  "rem_lockspace_wait ls space_id 0 = Out_of_fuel"
| "rem_lockspace_wait ls space_id (Suc fuel) =
    Get_shared (\<lambda>dm.
      case search_lockspace ls [dm_spaces dm, dm_spaces_rem dm, dm_spaces_add dm] of
        Some sp \<Rightarrow> if sp_space_id sp = space_id then Sleep 1 (rem_lockspace_wait ls space_id fuel) else Ret 0
      | None \<Rightarrow> Ret 0)"

section \<open>Listing lockspaces and hosts\<close>

text \<open>
  The replies are arrays of structs of 1104 and 32 bytes; \<open>maxlen\<close> is converted to the unsigned type of
  \<open>sizeof\<close>.  The result is the return value, the entries, and the count, which includes the entries that
  did not fit.
\<close>

definition sizeof_lockspace :: nat where "sizeof_lockspace = 1104"

definition sizeof_host :: nat where "sizeof_host = 32"

fun fill_reply :: "nat \<Rightarrow> nat \<Rightarrow> ('s \<Rightarrow> 'e) \<Rightarrow> 's list \<Rightarrow> int \<times> 'e list \<times> nat \<Rightarrow> int \<times> 'e list \<times> nat" where
  "fill_reply sz maxlen entry [] acc = acc"
| "fill_reply sz maxlen entry (s # ss) (rv, entries, count) =
    (if length entries * sz + sz > maxlen then fill_reply sz maxlen entry ss (- ENOSPC, entries, count + 1)
     else fill_reply sz maxlen entry ss (rv, entries @ [entry s], count + 1))"

definition lockspace_entry :: "u32 \<Rightarrow> space \<Rightarrow> sanlk_lockspace" where
  "lockspace_entry flags sp =
    \<lparr>lsp_name = sp_space_name sp, lsp_host_id = sp_host_id sp, lsp_flags = flags,
     lsp_host_id_disk = (sp_host_id_disk sp)\<lparr>sd_sector_size := 0, sd_fd := 0\<rparr>\<rparr>"

definition get_lockspaces :: "daemon \<Rightarrow> int \<Rightarrow> int \<times> sanlk_lockspace list \<times> nat" where
  "get_lockspaces dm maxlen =
    fill_reply sizeof_lockspace (size_t maxlen) (\<lambda>(flags, sp). lockspace_entry flags sp)
      (map (Pair 0) (dm_spaces dm) @ map (Pair SANLK_LSF_REM) (dm_spaces_rem dm) @
       map (Pair SANLK_LSF_ADD) (dm_spaces_add dm))
      (0, [], 0)"

text \<open>The comparisons convert the \<open>int\<close> seconds to the unsigned 64-bit type of the times.\<close>

definition get_host_flag :: "com_options \<Rightarrow> space \<Rightarrow> host_status \<Rightarrow> u64 \<Rightarrow> u32" where
  "get_host_flag com sp hs now =
    (let other_io_timeout = uint (hs_io_timeout hs);
         fail = word_of_int (calc_id_renewal_fail_seconds other_io_timeout) :: u64;
         dead = word_of_int (calc_host_dead_seconds com other_io_timeout) :: u64;
         last = (if hs_last_live hs = 0 then hs_first_check hs else hs_last_live hs)
     in
       if hs_timestamp hs = 0 then SANLK_HOST_FREE
       else if sp_host_id sp = hs_owner_id hs then SANLK_HOST_LIVE
       else if now - last \<le> fail \<and> hs_first_check hs = hs_last_live hs then SANLK_HOST_UNKNOWN
       else if now - last \<le> fail then SANLK_HOST_LIVE
       else if now - last > dead then SANLK_HOST_DEAD
       else if now - last > fail then SANLK_HOST_FAIL
       else 0)"

record sanlk_host =
  ho_host_id :: u64
  ho_generation :: u64
  ho_timestamp :: u64
  ho_io_timeout :: u32
  ho_flags :: u32

definition host_entry :: "com_options \<Rightarrow> space \<Rightarrow> (nat \<Rightarrow> u64) \<Rightarrow> nat \<Rightarrow> sanlk_host" where
  "host_entry com sp clock i =
    (let hs = sp_host_status sp ! i
     in \<lparr>ho_host_id = of_nat (i + 1), ho_generation = hs_owner_generation hs, ho_timestamp = hs_timestamp hs,
         ho_io_timeout = ucast (hs_io_timeout hs), ho_flags = get_host_flag com sp hs (clock i)\<rparr>)"

text \<open>\<open>get_host_flag\<close> reads the clock for every host: \<open>clock i\<close> is its value for the host in slot \<open>i\<close>.\<close>

definition get_hosts :: "com_options \<Rightarrow> sanlk_lockspace \<Rightarrow> (nat \<Rightarrow> u64) \<Rightarrow> daemon \<Rightarrow> int \<Rightarrow> int \<times> sanlk_host list \<times> nat" where
  "get_hosts com ls clock dm maxlen =
    (case find_started dm (lsp_name ls) of
       None \<Rightarrow> (- ENOENT, [], 0)
     | Some sp \<Rightarrow>
         if hs_last_check (sp_host_status sp ! 0) = 0 then (- EAGAIN, [], 0)
         else
           fill_reply sizeof_host (size_t maxlen) (host_entry com sp clock)
             (filter (\<lambda>i. if lsp_host_id ls \<noteq> 0 then lsp_host_id ls = of_nat (i + 1)
                          else hs_timestamp (sp_host_status sp ! i) \<noteq> 0) [0..<nat (sp_max_hosts sp)])
             (0, [], 0))"

section \<open>Configuration and the resource index flag\<close>

definition set_config_space :: "u32 \<Rightarrow> space \<Rightarrow> int \<times> space" where
  "set_config_space cmd sp =
    (if cmd = SANLK_CONFIG_USED then
       (if sp_space_dead sp \<noteq> 0 then (- ENOSPC, sp) else (0, sp\<lparr>sp_flags := sp_flags sp OR SP_EXTERNAL_USED\<rparr>))
     else if cmd = SANLK_CONFIG_UNUSED then (0, sp\<lparr>sp_flags := sp_flags sp AND NOT SP_EXTERNAL_USED\<rparr>)
     else if cmd = SANLK_CONFIG_USED_BY_ORPHANS then
       (if sp_space_dead sp \<noteq> 0 then (- ENOSPC, sp) else (0, sp\<lparr>sp_flags := sp_flags sp OR SP_USED_BY_ORPHANS\<rparr>))
     else if cmd = SANLK_CONFIG_UNUSED_BY_ORPHANS then (0, sp\<lparr>sp_flags := sp_flags sp AND NOT SP_USED_BY_ORPHANS\<rparr>)
     else (- EINVAL, sp))"

definition lockspace_set_config :: "sanlk_lockspace \<Rightarrow> u32 \<Rightarrow> int sio" where
  "lockspace_set_config ls cmd =
    Get_shared (\<lambda>dm.
      case find_started dm (lsp_name ls) of
        None \<Rightarrow> Ret (- ENOENT)
      | Some sp \<Rightarrow> on_space sp (set_config_space cmd))"

definition lockspace_begin_rindex_op :: "bytes \<Rightarrow> u32 \<Rightarrow> daemon \<Rightarrow> int \<times> space_info option \<times> daemon" where
  "lockspace_begin_rindex_op space_name rindex_op dm =
    (case find_started dm space_name of
       None \<Rightarrow> (- ENOENT, None, dm)
     | Some sp \<Rightarrow>
         if sp_space_dead sp \<noteq> 0 \<or> sp_thread_stop sp \<noteq> 0 then (- ENOSPC, None, dm)
         else if sp_rindex_op sp \<noteq> 0 then (- EBUSY, None, dm)
         else (0, Some (set_space_info sp), map_space (sp_space_id sp) (\<lambda>s. s\<lparr>sp_rindex_op := rindex_op\<rparr>) dm))"

definition lockspace_clear_rindex_op :: "bytes \<Rightarrow> daemon \<Rightarrow> int \<times> daemon" where
  "lockspace_clear_rindex_op space_name dm =
    (case find_started dm space_name of
       None \<Rightarrow> (- ENOENT, dm)
     | Some sp \<Rightarrow> (0, map_space (sp_space_id sp) (\<lambda>s. s\<lparr>sp_rindex_op := 0\<rparr>) dm))"

section \<open>Host events\<close>

abbreviation EINTR :: int where "EINTR \<equiv> 4"
abbreviation sizeof_event_cb :: int where "sizeof_event_cb \<equiv> 80"

definition set_event_fd :: "nat \<Rightarrow> int \<Rightarrow> space \<Rightarrow> space" where
  "set_event_fd i fd sp = sp\<lparr>sp_event_fds := (sp_event_fds sp)[i := fd]\<rparr>"

fun close_event_fds_loop :: "space \<Rightarrow> nat list \<Rightarrow> unit sio" where
  "close_event_fds_loop sp [] = Ret ()"
| "close_event_fds_loop sp (i # rest) =
    Get_shared (\<lambda>dm.
      let fd = sp_event_fds (current_space dm sp) ! i
      in if fd = -1 then close_event_fds_loop sp rest
         else Call ''close'' [fd] (\<lambda>_. bnd (on_space sp (\<lambda>s. ((), set_event_fd i (-1) s))) (\<lambda>_. close_event_fds_loop sp rest)))"

definition close_event_fds :: "space \<Rightarrow> unit sio" where
  "close_event_fds sp = close_event_fds_loop sp [0..<MAX_EVENT_FDS]"

text \<open>
  \<open>recv\<close> returns a size or -1, with \<open>errno\<close> and the received word as further results.  The result is the
  number of connections that were closed.
\<close>

fun clean_event_fds_loop :: "space \<Rightarrow> nat list \<Rightarrow> int \<Rightarrow> int sio" where
  "clean_event_fds_loop sp [] count = Ret count"
| "clean_event_fds_loop sp (i # rest) count =
    Get_shared (\<lambda>dm.
      let old_fd = sp_event_fds (current_space dm sp) ! i
      in if old_fd = -1 then clean_event_fds_loop sp rest count
         else Call ''recv'' [old_fd] (\<lambda>rv. Call ''errno'' [] (\<lambda>errno. Call ''recv end'' [] (\<lambda>end_value.
           if rv = -1 \<and> errno = EAGAIN then clean_event_fds_loop sp rest count
           else if rv = 4 \<and> end_value \<noteq> 1 then clean_event_fds_loop sp rest count
           else Call ''close'' [old_fd] (\<lambda>_.
             bnd (on_space sp (\<lambda>s. ((), set_event_fd i (-1) s))) (\<lambda>_. clean_event_fds_loop sp rest (count + 1)))))))"

definition clean_event_fds :: "space \<Rightarrow> int sio" where
  "clean_event_fds sp = clean_event_fds_loop sp [0..<MAX_EVENT_FDS] 0"

definition lockspace_end_event :: "sanlk_lockspace \<Rightarrow> int sio" where
  "lockspace_end_event ls =
    (if lsp_name ls ! 0 = 0 then Ret (- EINVAL)
     else Get_shared (\<lambda>dm.
       case find_started dm (lsp_name ls) of
         None \<Rightarrow> Ret (- ENOENT)
       | Some sp \<Rightarrow> bnd (clean_event_fds sp) (\<lambda>_. Ret 0)))"

text \<open>One pass over the table of connections: the descriptor that was stored, or -1.\<close>

definition reg_event_pass :: "space \<Rightarrow> int \<Rightarrow> int sio" where
  "reg_event_pass sp fd =
    Get_shared (\<lambda>dm.
      case find (\<lambda>i. sp_event_fds (current_space dm sp) ! i = -1) [0..<MAX_EVENT_FDS] of
        None \<Rightarrow> Ret (-1)
      | Some i \<Rightarrow> Call ''dup'' [fd] (\<lambda>new_fd. bnd (on_space sp (\<lambda>s. ((), set_event_fd i new_fd s))) (\<lambda>_. Ret new_fd)))"

definition lockspace_reg_event :: "sanlk_lockspace \<Rightarrow> int \<Rightarrow> int sio" where
  "lockspace_reg_event ls fd =
    (if lsp_name ls ! 0 = 0 then Ret (- EINVAL)
     else Get_shared (\<lambda>dm.
       case find_started dm (lsp_name ls) of
         None \<Rightarrow> Ret (- ENOENT)
       | Some sp \<Rightarrow>
           bnd (reg_event_pass sp fd) (\<lambda>new_fd.
             if new_fd \<ge> 0 then Ret 0
             else bnd (clean_event_fds sp) (\<lambda>cleaned.
               if cleaned = 0 then Ret (- ENOCSI)
               else bnd (reg_event_pass sp fd) (\<lambda>new_fd. if new_fd < 0 then Ret (- ENOCSI) else Ret 0)))))"

definition set_bit_time :: "u64 \<Rightarrow> nat \<Rightarrow> space \<Rightarrow> space" where
  "set_bit_time t i sp =
    sp\<lparr>sp_host_status := (sp_host_status sp)[i := (sp_host_status sp ! i)\<lparr>hs_set_bit_time := t\<rparr>]\<rparr>"

definition set_event_space :: "sanlk_host_event \<Rightarrow> u32 \<Rightarrow> u64 \<Rightarrow> space \<Rightarrow> int \<times> space" where
  "set_event_space he flags now sp =
    (if flags AND SANLK_SETEV_CLEAR_EVENT \<noteq> 0 then
       (0, sp\<lparr>sp_host_event := zero_host_event, sp_set_event_time := now\<rparr>)
     else if flags AND SANLK_SETEV_CLEAR_HOSTID \<noteq> 0 then (0, set_bit_time 0 (unat (he_host_id he - 1)) sp)
     else if flags AND SANLK_SETEV_REPLACE_EVENT = 0 \<and>
       now - sp_set_event_time sp < ucast (sp_set_bitmap_seconds sp) \<and> he_event (sp_host_event sp) \<noteq> 0 \<and>
       he_event he \<noteq> 0 \<and> he_event (sp_host_event sp) \<noteq> he_event he
     then (- EBUSY, sp)
     else
       (let sp1 = set_bit_time now (unat (he_host_id he - 1)) (sp\<lparr>sp_set_event_time := now\<rparr>);
            sp2 = sp1\<lparr>sp_host_event := he\<rparr>
        in (0, if flags AND SANLK_SETEV_ALL_HOSTS \<noteq> 0 then fold (set_bit_time now) [0..<nat (sp_max_hosts sp2)] sp2 else sp2)))"

definition lockspace_set_event :: "sanlk_lockspace \<Rightarrow> sanlk_host_event \<Rightarrow> u32 \<Rightarrow> int sio" where
  "lockspace_set_event ls he flags =
    (if lsp_name ls ! 0 = 0 \<or> he_host_id he = 0 \<or> he_host_id he > of_nat DEFAULT_MAX_HOSTS then Ret (- EINVAL)
     else Get_shared (\<lambda>dm.
       case find_started dm (lsp_name ls) of
         None \<Rightarrow> Ret (- ENOENT)
       | Some sp \<Rightarrow>
           if he_host_id he > word_of_int (sp_max_hosts sp) then Ret (- EINVAL)
           else
             (let he1 = (if he_generation he = 0 \<and> flags AND SANLK_SETEV_CUR_GENERATION \<noteq> 0
                         then he\<lparr>he_generation := hs_owner_generation (sp_host_status sp ! unat (he_host_id he - 1))\<rparr> else he)
              in Monotime (\<lambda>now. on_space sp (set_event_space he1 flags now)))))"

text \<open>
  \<open>send\<close> is repeated while it is interrupted; \<open>fuel\<close> bounds the repetitions.  The arguments are the
  descriptor and the event, the return value is that of the last \<open>send\<close>.
\<close>

fun send_event :: "int \<Rightarrow> int list \<Rightarrow> nat \<Rightarrow> int sio" where
  "send_event fd cb 0 = Out_of_fuel"
| "send_event fd cb (Suc fuel) =
    Call ''send'' (fd # cb) (\<lambda>rv. Call ''errno'' [] (\<lambda>errno.
      if rv = -1 \<and> errno = EINTR then send_event fd cb fuel else Ret rv))"

fun send_event_loop :: "space \<Rightarrow> int list \<Rightarrow> nat \<Rightarrow> nat list \<Rightarrow> int \<Rightarrow> int sio" where
  "send_event_loop sp cb fuel [] rv = Ret rv"
| "send_event_loop sp cb fuel (i # rest) rv =
    Get_shared (\<lambda>dm.
      let fd = sp_event_fds (current_space dm sp) ! i
      in if fd = -1 then send_event_loop sp cb fuel rest rv
         else bnd (send_event fd cb fuel) (\<lambda>rv.
           if rv < 0
           then Call ''close'' [fd] (\<lambda>_.
             bnd (on_space sp (\<lambda>s. ((), set_event_fd i (-1) s))) (\<lambda>_. send_event_loop sp cb fuel rest rv))
           else send_event_loop sp cb fuel rest rv))"

definition event_cb :: "u64 \<Rightarrow> u64 \<Rightarrow> sanlk_host_event \<Rightarrow> int list" where
  "event_cb from_host_id from_generation he =
    [0x04282010, 1, 1, sizeof_event_cb, uint (he_host_id he), uint (he_generation he), uint (he_event he),
     uint (he_data he), uint from_host_id, uint from_generation]"

definition send_event_callbacks :: "u32 \<Rightarrow> u64 \<Rightarrow> u64 \<Rightarrow> sanlk_host_event \<Rightarrow> nat \<Rightarrow> int sio" where
  "send_event_callbacks space_id from_host_id from_generation he fuel =
    Get_shared (\<lambda>dm.
      case find_lockspace_id dm space_id of
        None \<Rightarrow> Ret (- ENOSPC)
      | Some sp \<Rightarrow> send_event_loop sp (event_cb from_host_id from_generation he) fuel [0..<MAX_EVENT_FDS] 0)"

section \<open>Stopping and freeing\<close>

text \<open>\<open>pthread_join\<close>, or \<open>pthread_tryjoin_np\<close> when the caller does not want to wait.\<close>

definition stop_lockspace_thread :: "space \<Rightarrow> int \<Rightarrow> int sio" where
  "stop_lockspace_thread sp wait =
    bnd (on_space sp (\<lambda>s. (sp_thread_stop s, s\<lparr>sp_thread_stop := 1\<rparr>))) (\<lambda>stop.
      if stop = 0 then Ret (- EINVAL)
      else if wait \<noteq> 0 then Call ''pthread_join'' [uint (sp_space_id sp)] Ret
      else Call ''pthread_tryjoin_np'' [uint (sp_space_id sp)] Ret)"

fun free_lockspaces_loop :: "int \<Rightarrow> space list \<Rightarrow> unit sio" where
  "free_lockspaces_loop wait [] = Ret ()"
| "free_lockspaces_loop wait (sp # sps) =
    bnd (stop_lockspace_thread sp wait) (\<lambda>rv.
      if rv = 0 then Shared (del_space sp) (\<lambda>_. free_lockspaces_loop wait sps)
      else free_lockspaces_loop wait sps)"

definition free_lockspaces :: "int \<Rightarrow> unit sio" where
  "free_lockspaces wait = Get_shared (\<lambda>dm. free_lockspaces_loop wait (dm_spaces_rem dm))"

end
