(* ===== verification/Lockspace_Thread.thy ===== *)
theory Lockspace_Thread
  imports Lockspace_Ops Delta_Lease
begin

text \<open>
  The thread of a lockspace: \<open>lockspace_thread\<close> of \<open>src/lockspace.c\<close>.  It opens the disk, finds the sizes of
  the lockspace, acquires the delta lease, starts the watchdog, renews the lease until it is told to stop,
  and releases it.  \<open>sp\<close> is the thread's view of its lockspace: the fields that only this thread writes are
  kept there and in the list of the daemon, the others are read from the list.
\<close>

section \<open>Results published to the main thread\<close>

definition publish_acquire :: "int \<Rightarrow> int \<Rightarrow> u64 \<Rightarrow> u64 \<Rightarrow> space \<Rightarrow> space" where
  "publish_acquire acquire_result delta_result delta_begin last_success sp =
    (let ls = (sp_lease_status sp)\<lparr>ls_acquire_last_result := acquire_result, ls_acquire_last_attempt := delta_begin,
           ls_renewal_last_result := acquire_result, ls_renewal_last_attempt := delta_begin\<rparr>;
         ls = (if delta_result = SANLK_OK
               then ls\<lparr>ls_acquire_last_success := last_success, ls_renewal_last_success := last_success\<rparr> else ls)
     in save_renewal_history (sp\<lparr>sp_lease_status := ls\<rparr>) delta_result last_success 0 0)"

definition publish_renewal :: "int \<Rightarrow> int \<Rightarrow> u64 \<Rightarrow> u64 \<Rightarrow> task \<Rightarrow> space \<Rightarrow> space" where
  "publish_renewal delta_result read_result delta_begin last_success task sp =
    (let ls = (sp_lease_status sp)\<lparr>ls_renewal_last_result := delta_result, ls_renewal_last_attempt := delta_begin\<rparr>;
         ls = (if delta_result = SANLK_OK then ls\<lparr>ls_renewal_last_success := last_success\<rparr> else ls);
         ls = (if delta_result \<noteq> SANLK_OK \<and> ls_corrupt_result ls = 0
               then ls\<lparr>ls_corrupt_result := corrupt_result delta_result\<rparr> else ls);
         ls = (case tsk_iobuf task of
                 Some iobuf \<Rightarrow>
                   if read_result = SANLK_OK
                   then ls\<lparr>ls_renewal_read_buf := take (nat (sp_align_size sp)) iobuf,
                          ls_renewal_read_count := ls_renewal_read_count ls + 1\<rparr>
                   else ls
               | None \<Rightarrow> ls)
     in sp\<lparr>sp_lease_status := ls\<rparr>)"

section \<open>The renewals\<close>

text \<open>
  One renewal, from the bitmap to the history.  The durations of the I/O are further results of
  \<open>delta_lease_renew\<close>.  The watchdog is updated while the mutex of the lockspace is held, so with the
  \<open>thread_stop\<close> of the state that the results are published to.
\<close>

definition lockspace_renew ::
    "com_options \<Rightarrow> space \<Rightarrow> leader_record \<Rightarrow> u64 \<Rightarrow> int \<Rightarrow> task \<Rightarrow> (leader_record \<times> u64 \<times> int \<times> task) sio" where
  "lockspace_renew com sp leader last_success delta_result task =
    Monotime (\<lambda>now.
    bnd (on_space sp (\<lambda>s. case create_bitmap_and_extra s (replicate HOSTID_BITMAP_SIZE 0) now of (s', bitmap, extra) \<Rightarrow>
          ((bitmap, extra), s'))) (\<lambda>(bitmap, extra).
    Monotime (\<lambda>delta_begin.
    bnd (delta_lease_renew com sp (sp_host_id_disk sp) (sp_space_name sp) bitmap (Some extra) delta_result (Some leader)
          leader SANLK_ERROR task) (\<lambda>(delta_result, leader, read_result, task).
    Call ''rd_ms'' [] (\<lambda>rd_ms. Call ''wr_ms'' [] (\<lambda>wr_ms. Monotime (\<lambda>delta_end.
    let last_success = (if delta_result = SANLK_OK then lr_timestamp leader else last_success)
    in bnd (on_space sp (\<lambda>s. (s, publish_renewal delta_result read_result delta_begin last_success task s))) (\<lambda>s.
       bnd (if delta_result = SANLK_OK \<and> sp_thread_stop s = 0
            then update_watchdog com s last_success (calc_id_renewal_fail_seconds (uint (sp_io_timeout sp)))
            else Ret ()) (\<lambda>_.
       bnd (on_space sp (\<lambda>s. ((), save_renewal_history s delta_result last_success rd_ms wr_ms))) (\<lambda>_.
         Ret (leader, last_success, delta_result, task)))))))))))"

text \<open>The loop ends when \<open>thread_stop\<close> is set; \<open>fuel\<close> bounds its rounds.\<close>

fun lockspace_renew_loop ::
    "com_options \<Rightarrow> space \<Rightarrow> leader_record \<Rightarrow> u64 \<Rightarrow> int \<Rightarrow> task \<Rightarrow> nat \<Rightarrow> (leader_record \<times> int) sio" where
  "lockspace_renew_loop com sp leader last_success delta_result task 0 = Out_of_fuel"
| "lockspace_renew_loop com sp leader last_success delta_result task (Suc fuel) =
    Get_shared (\<lambda>dm.
      if sp_thread_stop (current_space dm sp) \<noteq> 0 then Ret (leader, delta_result)
      else Monotime (\<lambda>t.
        if t - last_success < word_of_int (calc_id_renewal_seconds (uint (sp_io_timeout sp)))
        then Sleep 1 (lockspace_renew_loop com sp leader last_success delta_result task fuel)
        else Usleep 500000
          (bnd (lockspace_renew com sp leader last_success delta_result task) (\<lambda>(leader, last_success, delta_result, task).
            lockspace_renew_loop com sp leader last_success delta_result task fuel))))"

section \<open>The thread\<close>

text \<open>The label \<open>out\<close>.\<close>

definition lockspace_thread_out :: "space \<Rightarrow> leader_record \<Rightarrow> int \<Rightarrow> bool \<Rightarrow> unit sio" where
  "lockspace_thread_out sp leader delta_result opened =
    bnd (if delta_result = SANLK_OK then delta_lease_release sp (sp_host_id_disk sp) (Some leader) leader else Ret (0, leader)) (\<lambda>_.
    bnd (if opened then Call ''close'' [sd_fd (sp_host_id_disk sp)] (\<lambda>_. Ret ()) else Ret ()) (\<lambda>_.
    Call ''purge_resource_orphans'' [] (\<lambda>_. Call ''purge_resource_free'' [] (\<lambda>_. close_event_fds sp))))"

text \<open>From the label \<open>set_status\<close> on.\<close>

definition lockspace_thread_status ::
    "com_options \<Rightarrow> space \<Rightarrow> bool \<Rightarrow> u64 \<Rightarrow> leader_record \<Rightarrow> u64 \<Rightarrow> int \<Rightarrow> int \<Rightarrow> nat \<Rightarrow> unit sio" where
  "lockspace_thread_status com sp opened delta_begin leader last_success acquire_result delta_result fuel =
    bnd (on_space sp (\<lambda>s. ((), publish_acquire acquire_result delta_result delta_begin last_success s))) (\<lambda>_.
      if acquire_result < 0 then lockspace_thread_out sp leader delta_result opened
      else
        bnd (on_space sp (\<lambda>s. ((), s\<lparr>sp_host_generation := lr_owner_generation leader\<rparr>))) (\<lambda>_.
        bnd (lockspace_renew_loop com (sp\<lparr>sp_host_generation := lr_owner_generation leader\<rparr>) leader last_success delta_result
              \<lparr>tsk_timeout_aicb = False, tsk_iobuf = None\<rparr> fuel) (\<lambda>(leader, delta_result).
        Get_shared (\<lambda>dm.
        bnd (disconnect_watchdog com (current_space dm sp)) (\<lambda>_.
          lockspace_thread_out sp leader delta_result opened)))))"

text \<open>The lease is acquired and the watchdog started; \<open>wd_con\<close> is the connection to the watchdog daemon.\<close>

definition lockspace_thread_acquire :: "com_options \<Rightarrow> bytes \<Rightarrow> space \<Rightarrow> int \<Rightarrow> nat \<Rightarrow> unit sio" where
  "lockspace_thread_acquire com our_host_name sp wd_con fuel =
    Monotime (\<lambda>delta_begin.
    bnd (delta_lease_acquire com sp (sp_host_id_disk sp) (sp_space_name sp) our_host_name (sp_host_id sp) zero_leader)
      (\<lambda>(delta_result, leader).
    Monotime (\<lambda>delta_end.
      let status = (\<lambda>last_success acquire_result.
            lockspace_thread_status com sp True delta_begin leader last_success acquire_result delta_result fuel)
      in
        if delta_result = SANLK_OK then
          bnd (activate_watchdog com sp (lr_timestamp leader) (calc_id_renewal_fail_seconds (uint (sp_io_timeout sp))) wd_con)
            (\<lambda>rv. status (lr_timestamp leader) (if rv < 0 then SANLK_WD_ERROR else delta_result))
        else if com_use_watchdog com \<noteq> 0 then Call ''close'' [wd_con] (\<lambda>_. status 0 delta_result)
        else status 0 delta_result)))"

text \<open>
  The part of the thread between the two: the sizes are checked and published, and the watchdog is opened.
  \<open>set_lockspace_max_sectors_kb\<close> only tunes the kernel.  When the watchdog cannot be opened, it is the
  unset \<open>wd_fd\<close> of the lockspace that is closed, not the connection.
\<close>

definition lockspace_thread_failed :: "com_options \<Rightarrow> space \<Rightarrow> bool \<Rightarrow> u64 \<Rightarrow> int \<Rightarrow> nat \<Rightarrow> unit sio" where
  "lockspace_thread_failed com sp opened delta_begin acquire_result fuel =
    lockspace_thread_status com sp opened delta_begin zero_leader 0 acquire_result (-1) fuel"

definition lockspace_thread_sizes ::
    "com_options \<Rightarrow> bytes \<Rightarrow> space \<Rightarrow> u64 \<Rightarrow> int \<Rightarrow> int \<Rightarrow> nat \<Rightarrow> unit sio" where
  "lockspace_thread_sizes com our_host_name sp delta_begin sector_size align_size fuel =
    (let failed = (\<lambda>sp acquire_result. lockspace_thread_failed com sp True delta_begin acquire_result fuel);
         max_hosts = size_to_max_hosts sector_size align_size
     in
       if sector_size \<noteq> 512 \<and> sector_size \<noteq> 4096 then failed sp SANLK_LEADER_SECTORSIZE
       else if max_hosts = 0 then failed sp SANLK_ADDLS_SIZES
       else if sp_host_id sp > word_of_int max_hosts then failed sp SANLK_ADDLS_INVALID_HOSTID
       else
         (let set_sizes = (\<lambda>s. s\<lparr>sp_sector_size := sector_size, sp_align_size := align_size, sp_max_hosts := max_hosts\<rparr>);
              sp = set_sizes sp
          in bnd (on_space sp (\<lambda>s. ((), set_sizes s))) (\<lambda>_.
             Call ''set_lockspace_max_sectors_kb'' [sector_size, align_size] (\<lambda>_.
             Call ''malloc'' [] (\<lambda>null.
               if null \<noteq> 0 then failed sp (- ENOMEM)
               else bnd (connect_watchdog com) (\<lambda>wd_con.
                 if wd_con < 0 then failed sp SANLK_WD_ERROR
                 else bnd (open_watchdog com wd_con (com_watchdog_fire_timeout com)) (\<lambda>rv.
                   if rv < 0 then bnd (disconnect_watchdog com sp) (\<lambda>_. failed sp SANLK_WD_ERROR)
                   else lockspace_thread_acquire com our_host_name sp wd_con fuel)))))))"

definition lockspace_thread :: "com_options \<Rightarrow> (string \<Rightarrow> disk_probe) \<Rightarrow> bytes \<Rightarrow> space \<Rightarrow> nat \<Rightarrow> unit sio" where
  "lockspace_thread com probe our_host_name sp fuel =
    Monotime (\<lambda>delta_begin.
    bnd (open_disk probe (sp_host_id_disk sp)) (\<lambda>(rv, disk).
    bnd (on_space sp (\<lambda>s. ((), s\<lparr>sp_host_id_disk := disk\<rparr>))) (\<lambda>_.
      let sp = sp\<lparr>sp_host_id_disk := disk\<rparr>
      in
        if rv < 0 then lockspace_thread_failed com sp False delta_begin (- ENODEV) fuel
        else bnd (delta_read_lockspace_sizes disk (uint (sp_io_timeout sp)) 0 0) (\<lambda>(rv, sector_size, align_size).
          if rv < 0 then lockspace_thread_failed com sp True delta_begin rv fuel
          else lockspace_thread_sizes com our_host_name sp delta_begin sector_size align_size fuel))))"

end
