(* ===== verification/Wdmd.thy ===== *)
theory Wdmd
  imports Wdmd_Client
begin

text \<open>
  The watchdog multiplexing daemon, \<open>src/wdmd/main.c\<close>.
  The daemon keeps one entry per connection with the time at which its client expires, and pets the
  hardware watchdog only while no client has expired.  The static variables are a record that the
  functions take and return; the calls to the kernel are operations of \<open>io\<close>, those on the watchdog device
  have names that start with \<open>watchdog\<close>.  \<open>pollfd[i]\<close> always holds the descriptor of \<open>client[i]\<close> and is
  not kept apart; names of clients only appear in log messages and are left out.  Allocations succeed.
\<close>

type_synonym 'a wio = "(unit, 'a) io"

section \<open>State\<close>

abbreviation DEFAULT_TEST_INTERVAL :: int where "DEFAULT_TEST_INTERVAL \<equiv> 10"
abbreviation RECOVER_TEST_INTERVAL :: int where "RECOVER_TEST_INTERVAL \<equiv> 1"
abbreviation DEFAULT_FIRE_TIMEOUT :: int where "DEFAULT_FIRE_TIMEOUT \<equiv> 60"
abbreviation CLIENT_NALLOC :: nat where "CLIENT_NALLOC \<equiv> 16"
abbreviation MAX_SCRIPTS :: nat where "MAX_SCRIPTS \<equiv> 8"

datatype workfn = No_work | Process_connection | Process_listener | Process_signals

record wd_client =
  cl_used :: int
  cl_fd :: int
  cl_pid :: int
  cl_pid_dead :: int
  cl_refcount :: int
  cl_internal :: int
  cl_renewal :: u64
  cl_expire :: u64
  cl_workfn :: workfn
  cl_deadfn :: bool

definition zero_client :: wd_client where
  "zero_client = \<lparr>cl_used = 0, cl_fd = 0, cl_pid = 0, cl_pid_dead = 0, cl_refcount = 0, cl_internal = 0,
     cl_renewal = 0, cl_expire = 0, cl_workfn = No_work, cl_deadfn = False\<rparr>"

record script_status =
  sc_start :: u64
  sc_pid :: int
  sc_last_result :: int
  sc_run_count :: u32
  sc_fail_count :: u32
  sc_good_count :: u32
  sc_kill_count :: u32
  sc_long_count :: u32
  sc_name :: string

definition zero_script :: script_status where
  "zero_script = \<lparr>sc_start = 0, sc_pid = 0, sc_last_result = 0, sc_run_count = 0, sc_fail_count = 0,
     sc_good_count = 0, sc_kill_count = 0, sc_long_count = 0, sc_name = []\<rparr>"

text \<open>The static variables, and the local variables of \<open>test_loop\<close> that live across its rounds.\<close>

record wdmd =
  wd_standard_test_interval :: int
  wd_test_interval :: int
  wd_fire_timeout :: int
  wd_daemon_quit :: int
  wd_last_keepalive :: u64
  wd_last_closeunclean :: u64
  wd_test_loop_enable :: int
  wd_dev_fd :: int
  wd_watchdog_path :: string
  wd_allow_scripts :: int
  wd_kill_script_sec :: int
  wd_scripts :: "script_status list"
  wd_client_maxi :: int
  wd_clients :: "wd_client list"
  wl_test_time :: u64
  wl_resetting :: int
  wl_poll_timeout :: int

definition set_client :: "nat \<Rightarrow> (wd_client \<Rightarrow> wd_client) \<Rightarrow> wdmd \<Rightarrow> wdmd" where
  "set_client ci f w = w\<lparr>wd_clients := (wd_clients w)[ci := f (wd_clients w ! ci)]\<rparr>"

definition set_script :: "nat \<Rightarrow> (script_status \<Rightarrow> script_status) \<Rightarrow> wdmd \<Rightarrow> wdmd" where
  "set_script i f w = w\<lparr>wd_scripts := (wd_scripts w)[i := f (wd_scripts w ! i)]\<rparr>"

section \<open>Clients\<close>

definition client_alloc :: "wdmd \<Rightarrow> wdmd" where
  "client_alloc w = w\<lparr>wd_clients := wd_clients w @ replicate CLIENT_NALLOC (zero_client\<lparr>cl_fd := -1\<rparr>)\<rparr>"

definition client_take :: "nat \<Rightarrow> int \<Rightarrow> workfn \<Rightarrow> wdmd \<Rightarrow> wdmd" where
  "client_take i fd work w =
    (let w1 = set_client i (\<lambda>c. c\<lparr>cl_used := 1, cl_workfn := work, cl_deadfn := True, cl_fd := fd\<rparr>) w
     in if int i > wd_client_maxi w1 then w1\<lparr>wd_client_maxi := int i\<rparr> else w1)"

text \<open>When there is no unused entry, the first one of the new block is taken.\<close>

definition client_add :: "wdmd \<Rightarrow> int \<Rightarrow> workfn \<Rightarrow> nat \<times> wdmd" where
  "client_add w fd work =
    (case find (\<lambda>i. cl_used (wd_clients w ! i) = 0) [0..<length (wd_clients w)] of
       Some i \<Rightarrow> (i, client_take i fd work w)
     | None \<Rightarrow> (length (wd_clients w), client_take (length (wd_clients w)) fd work (client_alloc w)))"

definition client_pid_dead :: "wdmd \<Rightarrow> nat \<Rightarrow> wdmd wio" where
  "client_pid_dead w ci =
    (let c = wd_clients w ! ci
     in Call ''close'' [cl_fd c] (\<lambda>_.
       if cl_expire c = 0 then Ret (set_client ci (\<lambda>c. zero_client\<lparr>cl_fd := -1\<rparr>) w)
       else Ret (set_client ci (\<lambda>c. c\<lparr>cl_pid_dead := 1, cl_fd := -1\<rparr>) w)))"

definition get_peer_pid :: "int \<Rightarrow> (int \<times> int) wio" where
  "get_peer_pid fd = Call ''getsockopt'' [fd] (\<lambda>rv. if rv \<noteq> 0 then Ret (-1, 0) else Call ''cred.pid'' [] (\<lambda>pid. Ret (0, pid)))"

definition test_clients :: "wdmd \<Rightarrow> int wio" where
  "test_clients w =
    Monotime (\<lambda>t. Ret (int (length (filter (\<lambda>c. cl_used c \<noteq> 0 \<and> cl_expire c \<noteq> 0 \<and>
      (t \<ge> cl_expire c \<or> t \<ge> cl_expire c - word_of_int (wd_standard_test_interval w))) (wd_clients w)))))"

definition active_clients :: "wdmd \<Rightarrow> bool" where
  "active_clients w = list_ex (\<lambda>c. cl_refcount c \<noteq> 0) (wd_clients w)"

definition count_clients :: "wdmd \<Rightarrow> nat \<times> nat" where
  "count_clients w =
    (length (filter (\<lambda>c. cl_used c \<noteq> 0 \<and> cl_refcount c \<noteq> 0) (wd_clients w)),
     length (filter (\<lambda>c. cl_used c \<noteq> 0 \<and> cl_internal c = 0) (wd_clients w)))"

section \<open>The device\<close>

definition init_test_interval :: "wdmd \<Rightarrow> wdmd" where
  "init_test_interval w =
    (let n = (if wd_fire_timeout w \<ge> 60 then 10
              else if wd_fire_timeout w \<ge> 30 \<and> wd_fire_timeout w < 60 then 5
              else if wd_fire_timeout w \<ge> 10 \<and> wd_fire_timeout w < 30 then 2
              else 1)
     in w\<lparr>wd_standard_test_interval := n, wd_test_interval := n\<rparr>)"

definition open_dev :: "wdmd \<Rightarrow> (int \<times> wdmd) wio" where
  "open_dev w =
    (if wd_dev_fd w \<noteq> -1 then Ret (-1, w)
     else Open_path (wd_watchdog_path w) (\<lambda>fd. if fd < 0 then Ret (fd, w) else Ret (0, w\<lparr>wd_dev_fd := fd\<rparr>)))"

definition close_watchdog :: "wdmd \<Rightarrow> wdmd wio" where
  "close_watchdog w =
    (if wd_dev_fd w = -1 then Ret w
     else Call ''watchdog write V'' [wd_dev_fd w] (\<lambda>rv. Call ''watchdog close'' [wd_dev_fd w] (\<lambda>_. Ret (w\<lparr>wd_dev_fd := -1\<rparr>))))"

definition close_watchdog_unclean :: "wdmd \<Rightarrow> wdmd wio" where
  "close_watchdog_unclean w =
    (if wd_dev_fd w = -1 then Ret w
     else Call ''watchdog close'' [wd_dev_fd w] (\<lambda>_. Monotime (\<lambda>t. Ret (w\<lparr>wd_dev_fd := -1, wd_last_closeunclean := t\<rparr>))))"

definition pet_watchdog :: "wdmd \<Rightarrow> wdmd wio" where
  "pet_watchdog w = Call ''watchdog keepalive'' [wd_dev_fd w] (\<lambda>rv. Monotime (\<lambda>t. Ret (w\<lparr>wd_last_keepalive := t\<rparr>)))"

text \<open>\<open>ioctl\<close> with a timeout as a further result.  The device may change the timeout it is asked to set.\<close>

definition ioctl_timeout :: "string \<Rightarrow> int list \<Rightarrow> (int \<times> int) wio" where
  "ioctl_timeout op args = Call op args (\<lambda>rv. Call ''watchdog timeout'' [] (\<lambda>timeout. Ret (rv, timeout)))"

definition open_watchdog_done :: "wdmd \<Rightarrow> int \<Rightarrow> (int \<times> wdmd) wio" where
  "open_watchdog_done w get_timeout =
    bnd (pet_watchdog (init_test_interval (w\<lparr>wd_fire_timeout := get_timeout\<rparr>))) (\<lambda>w. Ret (0, w\<lparr>wd_test_loop_enable := 1\<rparr>))"

definition open_watchdog_request :: "wdmd \<Rightarrow> u32 \<Rightarrow> (int \<times> wdmd) wio" where
  "open_watchdog_request w fire_timeout =
    (let fail = (\<lambda>w. bnd (close_watchdog w) (\<lambda>w. Ret (-1, w)))
     in
       if wd_test_loop_enable w \<noteq> 0 then Ret (0, w)
       else if fire_timeout = 0 then Ret (-1, w)
       else bnd (open_dev w) (\<lambda>(rv, w).
         if rv < 0 then Ret (-1, w)
         else bnd (ioctl_timeout ''watchdog gettimeout'' [wd_dev_fd w]) (\<lambda>(rv, get_timeout).
           if rv < 0 then fail w
           else if word_of_int get_timeout = fire_timeout then open_watchdog_done w get_timeout
           else bnd (ioctl_timeout ''watchdog settimeout'' [wd_dev_fd w, sint fire_timeout]) (\<lambda>(rv, set_timeout).
             if rv < 0 then fail w
             else bnd (ioctl_timeout ''watchdog gettimeout'' [wd_dev_fd w]) (\<lambda>(rv, get_timeout).
               if rv < 0 then fail w
               else if get_timeout = set_timeout then open_watchdog_done w get_timeout
               else fail w)))))"

section \<open>Requests\<close>

abbreviation sizeof_header :: int where "sizeof_header \<equiv> 176"

text \<open>
  \<open>recv\<close> delivers the fields of \<open>struct wdmd_header\<close> as further results.  A reply carries the test
  interval, the fire timeout and the time of the last keepalive.
\<close>

definition process_connection :: "wdmd \<Rightarrow> nat \<Rightarrow> wdmd wio" where
  "process_connection w ci =
    (let fd = cl_fd (wd_clients w ! ci);
         dead = (if cl_deadfn (wd_clients w ! ci) then client_pid_dead w ci else Ret w)
     in Call ''recv'' [fd] (\<lambda>rv.
       if rv = 0 then Ret w
       else if rv < 0 then dead
       else if rv \<noteq> sizeof_header then dead
       else Call ''h.cmd'' [] (\<lambda>cmd.
         if word_of_int cmd = CMD_REGISTER then
           bnd (get_peer_pid fd) (\<lambda>(rv, pid). if rv < 0 then dead else Ret (set_client ci (\<lambda>c. c\<lparr>cl_pid := pid\<rparr>) w))
         else if word_of_int cmd = CMD_REFCOUNT_SET then Ret (set_client ci (\<lambda>c. c\<lparr>cl_refcount := 1\<rparr>) w)
         else if word_of_int cmd = CMD_REFCOUNT_CLEAR then Ret (set_client ci (\<lambda>c. c\<lparr>cl_refcount := 0\<rparr>) w)
         else if word_of_int cmd = CMD_OPEN_WATCHDOG then
           Call ''h.fire_timeout'' [] (\<lambda>fire_timeout.
             bnd (open_watchdog_request w (word_of_int fire_timeout)) (\<lambda>(rv, w).
               Call ''send'' [fd, if rv < 0 then 0 else wd_fire_timeout w] (\<lambda>_. Ret w)))
         else if word_of_int cmd = CMD_TEST_LIVE then
           Call ''h.renewal_time'' [] (\<lambda>renewal_time. Call ''h.expire_time'' [] (\<lambda>expire_time.
             Ret (set_client ci (\<lambda>c. c\<lparr>cl_renewal := word_of_int renewal_time, cl_expire := word_of_int expire_time\<rparr>) w)))
         else if word_of_int cmd = CMD_STATUS then
           Call ''send'' [fd, wd_test_interval w, wd_fire_timeout w, uint (wd_last_keepalive w)] (\<lambda>_. Ret w)
         else if word_of_int cmd = CMD_DUMP_DEBUG then Call ''dump_debug'' [fd] (\<lambda>_. Ret w)
         else Ret w)))"

definition process_listener :: "wdmd \<Rightarrow> nat \<Rightarrow> wdmd wio" where
  "process_listener w ci =
    Call ''accept'' [cl_fd (wd_clients w ! ci)] (\<lambda>fd.
      if fd < 0 then Ret w
      else Call ''setsockopt'' [fd] (\<lambda>_. Ret (snd (client_add w fd Process_connection))))"

section \<open>Scripts\<close>

text \<open>
  Administrators may add scripts to the tests.  \<open>find_script\<close> and \<open>add_script\<close> return -1 where the code does.
  The names \<open>scandir\<close> finds are an argument; \<open>check_path\<close> and the fork of a script are calls.
\<close>

definition find_script :: "wdmd \<Rightarrow> string \<Rightarrow> int" where
  "find_script w name =
    (case find (\<lambda>i. sc_name (wd_scripts w ! i) = name) [0..<MAX_SCRIPTS] of Some i \<Rightarrow> int i | None \<Rightarrow> -1)"

definition add_script :: "wdmd \<Rightarrow> string \<Rightarrow> wdmd" where
  "add_script w name =
    (case find (\<lambda>i. sc_name (wd_scripts w ! i) = []) [0..<MAX_SCRIPTS] of
       Some i \<Rightarrow> set_script i (\<lambda>s. s\<lparr>sc_name := name\<rparr>) w
     | None \<Rightarrow> w)"

definition run_script :: "nat \<Rightarrow> int wio" where
  "run_script i =
    Call ''check_path'' [int i] (\<lambda>rv.
      if rv < 0 then Ret rv
      else Call ''fork'' [] (\<lambda>pid. if pid < 0 then neg_errno else Ret pid))"

fun setup_scripts_loop :: "wdmd \<Rightarrow> string list \<Rightarrow> wdmd wio" where
  "setup_scripts_loop w [] = Ret w"
| "setup_scripts_loop w (name # names) =
    (if name \<noteq> [] \<and> hd name = CHR ''.'' then setup_scripts_loop w names
     else Call ''check_path'' [] (\<lambda>rv.
       if rv < 0 then setup_scripts_loop w names
       else if find_script w name < 0 then setup_scripts_loop (add_script w name) names
       else setup_scripts_loop w names))"

definition setup_scripts :: "string list \<Rightarrow> wdmd \<Rightarrow> wdmd wio" where
  "setup_scripts dir w =
    (if wd_allow_scripts w = 0 then Ret w
     else Call ''scandir'' [] (\<lambda>de_count. if de_count < 0 then Ret w else setup_scripts_loop w dir))"

fun start_scripts :: "wdmd \<Rightarrow> u64 \<Rightarrow> nat list \<Rightarrow> wdmd wio" where
  "start_scripts w begin [] = Ret w"
| "start_scripts w begin (i # is) =
    (let s = wd_scripts w ! i
     in
       if sc_name s = [] \<or> sc_pid s \<noteq> 0 \<or>
          sc_last_result s = 0 \<and> begin - sc_start s < word_of_int (wd_standard_test_interval w - 1)
       then start_scripts w begin is
       else bnd (run_script i) (\<lambda>pid.
         if pid \<le> 0 then start_scripts (set_script i (\<lambda>s. zero_script) w) begin is
         else start_scripts (set_script i (\<lambda>s. s\<lparr>sc_pid := pid, sc_start := begin, sc_run_count := sc_run_count s + 1\<rparr>) w) begin is))"

text \<open>
  The end of a script as \<open>waitpid\<close> reports it: whether it still counts as running, whether it counts as a
  failure, and its new status.  The status word is decoded as \<open>WIFEXITED\<close>, \<open>WEXITSTATUS\<close> and \<open>WIFSIGNALED\<close> do.
\<close>

definition script_waited :: "script_status \<Rightarrow> int \<Rightarrow> int \<Rightarrow> bool \<times> bool \<times> script_status" where
  "script_waited s rv status =
    (if rv < 0 then (True, False, s)
     else if rv = 0 then (True, False, s)
     else if rv = sc_pid s then
       (if status AND 0x7f = 0 then
          (let result = drop_bit 8 status AND 0xff
           in if result \<noteq> 0
              then (False, True, s\<lparr>sc_fail_count := sc_fail_count s + 1, sc_last_result := result, sc_pid := 0\<rparr>)
              else (False, False, s\<lparr>sc_good_count := sc_good_count s + 1, sc_last_result := 0, sc_pid := 0\<rparr>))
        else if status AND 0x7f \<noteq> 0x7f
        then (False, True, s\<lparr>sc_kill_count := sc_kill_count s + 1, sc_last_result := 4, sc_pid := 0\<rparr>)
        else (True, False, s))
     else (True, False, s))"

definition kill_script :: "wdmd \<Rightarrow> nat \<Rightarrow> unit wio" where
  "kill_script w i =
    (let s = wd_scripts w ! i
     in
       if sc_pid s \<noteq> 0 \<and> wd_kill_script_sec w \<noteq> 0 then
         Monotime (\<lambda>t.
           if t - sc_start s \<ge> word_of_int (wd_kill_script_sec w) then Call ''kill'' [sc_pid s] (\<lambda>_. Ret ()) else Ret ())
       else Ret ())"

fun reap_scripts :: "wdmd \<Rightarrow> nat \<Rightarrow> int \<Rightarrow> nat list \<Rightarrow> (nat \<times> int \<times> wdmd) wio" where
  "reap_scripts w running fail_count [] = Ret (running, fail_count, w)"
| "reap_scripts w running fail_count (i # is) =
    (let s = wd_scripts w ! i
     in
       if sc_name s = [] \<or> sc_pid s = 0 then reap_scripts w running fail_count is
       else Call ''waitpid'' [sc_pid s] (\<lambda>rv. Call ''status'' [] (\<lambda>status.
         case script_waited s rv status of (run, failed, s') \<Rightarrow>
           (let w' = set_script i (\<lambda>s. s') w
            in bnd (kill_script w' i) (\<lambda>_.
              reap_scripts w' (if run then running + 1 else running) (if failed then fail_count + 1 else fail_count) is)))))"

fun wait_scripts :: "wdmd \<Rightarrow> u64 \<Rightarrow> int \<Rightarrow> nat \<Rightarrow> (nat \<times> int \<times> wdmd) wio" where
  "wait_scripts w begin fail_count 0 = Out_of_fuel"
| "wait_scripts w begin fail_count (Suc fuel) =
    bnd (reap_scripts w 0 fail_count [0..<MAX_SCRIPTS]) (\<lambda>(running, fail_count, w).
      if running = 0 then Ret (running, fail_count, w)
      else Monotime (\<lambda>t.
        if t - begin \<ge> word_of_int (wd_standard_test_interval w - 1) then Ret (running, fail_count, w)
        else Sleep 1 (wait_scripts w begin fail_count fuel)))"

definition count_long_scripts :: "wdmd \<Rightarrow> int \<Rightarrow> int \<times> wdmd" where
  "count_long_scripts w fail_count =
    (let long = filter (\<lambda>i. sc_name (wd_scripts w ! i) \<noteq> [] \<and> sc_pid (wd_scripts w ! i) \<noteq> 0) [0..<MAX_SCRIPTS]
     in (fail_count + int (length long), fold (\<lambda>i. set_script i (\<lambda>s. s\<lparr>sc_long_count := sc_long_count s + 1\<rparr>)) long w))"

definition test_scripts :: "wdmd \<Rightarrow> nat \<Rightarrow> (int \<times> wdmd) wio" where
  "test_scripts w fuel =
    (if wd_allow_scripts w = 0 then Ret (0, w)
     else Monotime (\<lambda>begin.
       bnd (start_scripts w begin [0..<MAX_SCRIPTS]) (\<lambda>w.
       bnd (wait_scripts w begin 0 fuel) (\<lambda>(running, fail_count, w).
         if running = 0 then Ret (fail_count, w)
         else Monotime (\<lambda>now. Ret (count_long_scripts w fail_count))))))"

section \<open>The main loop\<close>

abbreviation POLLIN :: int where "POLLIN \<equiv> 0x1"
abbreviation POLLERR_HUP_NVAL :: int where "POLLERR_HUP_NVAL \<equiv> 0x38"

text \<open>A signal: 15 and 2 are \<open>SIGTERM\<close> and \<open>SIGINT\<close>, 1 is \<open>SIGHUP\<close>.\<close>

definition process_signals :: "string list \<Rightarrow> wdmd \<Rightarrow> nat \<Rightarrow> wdmd wio" where
  "process_signals dir w ci =
    Call ''read'' [cl_fd (wd_clients w ! ci)] (\<lambda>rv.
      if rv \<noteq> 128 then Ret w
      else Call ''ssi_signo'' [] (\<lambda>signo.
        let w = (if (signo = 15 \<or> signo = 2) \<and> \<not> active_clients w then w\<lparr>wd_daemon_quit := 1\<rparr> else w)
        in if signo = 1 then setup_scripts dir w else Ret w))"

definition run_workfn :: "string list \<Rightarrow> wdmd \<Rightarrow> nat \<Rightarrow> wdmd wio" where
  "run_workfn dir w ci =
    (case cl_workfn (wd_clients w ! ci) of
       No_work \<Rightarrow> Ret w
     | Process_connection \<Rightarrow> process_connection w ci
     | Process_listener \<Rightarrow> process_listener w ci
     | Process_signals \<Rightarrow> process_signals dir w ci)"

text \<open>The events of one client.\<close>

definition dispatch_client :: "string list \<Rightarrow> wdmd \<Rightarrow> nat \<Rightarrow> wdmd wio" where
  "dispatch_client dir w i =
    (if cl_fd (wd_clients w ! i) < 0 then Ret w
     else Call ''revents'' [int i] (\<lambda>revents.
       bnd (if revents AND POLLIN \<noteq> 0 then run_workfn dir w i else Ret w) (\<lambda>w.
         if revents AND POLLERR_HUP_NVAL \<noteq> 0 \<and> cl_deadfn (wd_clients w ! i) then client_pid_dead w i else Ret w)))"

text \<open>\<open>client_maxi\<close> may grow while the clients are visited.\<close>

fun dispatch_clients :: "string list \<Rightarrow> wdmd \<Rightarrow> nat \<Rightarrow> nat \<Rightarrow> wdmd wio" where
  "dispatch_clients dir w i 0 = Out_of_fuel"
| "dispatch_clients dir w i (Suc fuel) =
    (if int i > wd_client_maxi w then Ret w
     else bnd (dispatch_client dir w i) (\<lambda>w. dispatch_clients dir w (i + 1) fuel))"

text \<open>The tests, and what follows from them for the device.  \<open>test_files\<close> is compiled to a constant 0.\<close>

definition run_tests :: "wdmd \<Rightarrow> nat \<Rightarrow> wdmd wio" where
  "run_tests w fuel =
    bnd (test_scripts w fuel) (\<lambda>(scripts_failed, w).
    bnd (test_clients w) (\<lambda>clients_failed.
      if scripts_failed + clients_failed = 0 then
        bnd (if wd_dev_fd w = -1 then bnd (open_dev w) (\<lambda>(_, w). Ret w) else Ret w) (\<lambda>w.
        bnd (pet_watchdog w) (\<lambda>w.
          Ret (w\<lparr>wd_test_interval := wd_standard_test_interval w, wl_resetting := 0\<rparr>)))
      else
        bnd (close_watchdog_unclean w) (\<lambda>w.
          Ret (w\<lparr>wd_test_interval := RECOVER_TEST_INTERVAL, wl_resetting := 1\<rparr>))))"

definition test_round :: "wdmd \<Rightarrow> nat \<Rightarrow> wdmd wio" where
  "test_round w fuel =
    Monotime (\<lambda>now.
    bnd (if now - wl_test_time w \<ge> word_of_int (wd_test_interval w)
         then Monotime (\<lambda>t. run_tests (w\<lparr>wl_test_time := t\<rparr>) fuel) else Ret w) (\<lambda>w.
    Monotime (\<lambda>now.
      let sleep_seconds = sint (ucast (wl_test_time w + word_of_int (wd_test_interval w) - now) :: u32)
      in Ret (w\<lparr>wl_poll_timeout := (if sleep_seconds > 0 then sleep_seconds * 1000 else 500)\<rparr>))))"

text \<open>One round of \<open>test_loop\<close>, with whether the loop is left: its part after the events, and all of it.\<close>

definition test_loop_tail :: "wdmd \<Rightarrow> nat \<Rightarrow> (bool \<times> wdmd) wio" where
  "test_loop_tail w fuel =
    (case count_clients w of (active_usage, external_usage) \<Rightarrow>
       if wd_daemon_quit w \<noteq> 0 \<and> active_usage = 0 then Ret (True, w)
       else if wd_test_loop_enable w = 0 then Ret (False, w)
       else if active_usage = 0 \<and> external_usage = 0 \<and> wl_resetting w = 0 then
         bnd (close_watchdog w) (\<lambda>w.
           Ret (False, w\<lparr>wd_test_loop_enable := 0, wd_test_interval := wd_standard_test_interval w,
                  wl_poll_timeout := wd_standard_test_interval w * 1000, wl_test_time := 0\<rparr>))
       else bnd (test_round w fuel) (\<lambda>w. Ret (False, w)))"

definition test_loop_body :: "string list \<Rightarrow> wdmd \<Rightarrow> nat \<Rightarrow> (bool \<times> wdmd) wio" where
  "test_loop_body dir w fuel =
    Call ''poll'' [wd_client_maxi w + 1, wl_poll_timeout w] (\<lambda>rv. Call ''errno'' [] (\<lambda>errno.
      if rv = -1 \<and> errno = 4 then Ret (False, w)
      else bnd (dispatch_clients dir w 0 fuel) (\<lambda>w. test_loop_tail w fuel)))"

fun test_loop_rounds :: "string list \<Rightarrow> wdmd \<Rightarrow> nat \<Rightarrow> wdmd wio" where
  "test_loop_rounds dir w 0 = Out_of_fuel"
| "test_loop_rounds dir w (Suc fuel) =
    bnd (test_loop_body dir w fuel) (\<lambda>(quit, w). if quit then Ret w else test_loop_rounds dir w fuel)"

definition test_loop :: "string list \<Rightarrow> wdmd \<Rightarrow> nat \<Rightarrow> wdmd wio" where
  "test_loop dir w fuel =
    test_loop_rounds dir (w\<lparr>wl_test_time := 0, wl_resetting := 0, wl_poll_timeout := wd_test_interval w * 1000\<rparr>) fuel"

section \<open>Finding the device\<close>

abbreviation WDPATH_SIZE :: nat where "WDPATH_SIZE \<equiv> 64"

definition try_watchdog_path :: "wdmd \<Rightarrow> string \<Rightarrow> (int \<times> wdmd) wio" where
  "try_watchdog_path w path =
    (let w = w\<lparr>wd_watchdog_path := take (WDPATH_SIZE - 1) path\<rparr>
     in Call ''stat'' [] (\<lambda>rv.
       if rv < 0 then Ret (-1, w)
       else bnd (open_dev w) (\<lambda>(rv, w).
         if rv < 0 then Ret (-1, w)
         else bnd (ioctl_timeout ''watchdog gettimeout'' [wd_dev_fd w]) (\<lambda>(rv, timeout).
           bnd (close_watchdog w) (\<lambda>w. Ret (if rv < 0 then -1 else 0, w))))))"

text \<open>The order of preference, without trying a path twice.\<close>

definition watchdog_paths :: "string \<Rightarrow> string \<Rightarrow> string list" where
  "watchdog_paths saved_path option_path =
    (if saved_path = [] then [] else [saved_path]) @
    (if option_path = [] \<or> saved_path = option_path then [] else [option_path]) @
    filter (\<lambda>p. p \<noteq> saved_path \<and> p \<noteq> option_path) [''/dev/watchdog0'', ''/dev/watchdog1'', ''/dev/watchdog'']"

fun try_watchdog_paths :: "wdmd \<Rightarrow> string list \<Rightarrow> (int \<times> wdmd) wio" where
  "try_watchdog_paths w [] = Ret (-1, w)"
| "try_watchdog_paths w (p # ps) =
    bnd (try_watchdog_path w p) (\<lambda>(rv, w). if rv = 0 then Ret (0, w) else try_watchdog_paths w ps)"

definition setup_watchdog :: "string \<Rightarrow> string \<Rightarrow> wdmd \<Rightarrow> (int \<times> wdmd) wio" where
  "setup_watchdog saved_path option_path w = try_watchdog_paths w (watchdog_paths saved_path option_path)"

section \<open>Start and end\<close>

definition setup_clients :: "wdmd \<Rightarrow> (int \<times> wdmd) wio" where
  "setup_clients w =
    Call ''setup_listener_socket'' [] (\<lambda>rv.
      if rv < 0 then Ret (rv, w)
      else Call ''listener fd'' [] (\<lambda>fd.
        case client_add w fd Process_listener of (ci, w) \<Rightarrow> Ret (0, set_client ci (\<lambda>c. c\<lparr>cl_internal := 1\<rparr>) w)))"

definition setup_signals :: "wdmd \<Rightarrow> (int \<times> wdmd) wio" where
  "setup_signals w =
    Call ''sigprocmask'' [] (\<lambda>rv.
      if rv < 0 then Ret (rv, w)
      else Call ''signalfd'' [] (\<lambda>fd.
        if fd < 0 then bnd neg_errno (\<lambda>rv. Ret (rv, w))
        else case client_add w fd Process_signals of (ci, w) \<Rightarrow> Ret (0, set_client ci (\<lambda>c. c\<lparr>cl_internal := 1\<rparr>) w)))"

text \<open>
  \<open>main\<close> after the options are parsed and the process has become a daemon.  A shared memory object exists
  from \<open>setup_shm\<close> to \<open>close_shm\<close>: it stays behind, and keeps the next daemon from opening the device, when the
  daemon does not end here.
\<close>

definition wdmd_main :: "string list \<Rightarrow> string \<Rightarrow> string \<Rightarrow> wdmd \<Rightarrow> nat \<Rightarrow> int wio" where
  "wdmd_main dir saved_path option_path w fuel =
    (let out_lockfile = (\<lambda>rv. Call ''unlink lockfile'' [] (\<lambda>_. Ret rv));
         out_shm = (\<lambda>rv. Call ''close_shm'' [] (\<lambda>_. out_lockfile rv))
     in Call ''lockfile'' [] (\<lambda>rv.
       if rv < 0 then Ret rv
       else Call ''setup_shm'' [] (\<lambda>rv.
         if rv < 0 then out_lockfile rv
         else bnd (setup_signals w) (\<lambda>(rv, w).
           if rv < 0 then out_shm rv
           else bnd (setup_scripts dir w) (\<lambda>w.
             bnd (setup_clients w) (\<lambda>(rv, w).
               if rv < 0 then out_shm rv
               else bnd (setup_watchdog saved_path option_path w) (\<lambda>(rv, w).
                 if rv < 0 then out_shm rv
                 else bnd (test_loop dir w fuel) (\<lambda>w.
                   bnd (close_watchdog w) (\<lambda>w. out_shm 0)))))))))"

end
