(* ===== verification/Wdmd_Theorems.thy ===== *)
theory Wdmd_Theorems
  imports Wdmd
begin

text \<open>
  What the watchdog daemon guarantees: a host with a client that has expired is reset by the hardware at
  most the fire timeout after the expiry.  The daemon is put into a host with a clock and a watchdog
  device, as a transition system whose steps are the runs of the functions of \<open>wdmd/main.c\<close>.
\<close>

section \<open>Outcomes of a program\<close>

text \<open>\<open>can m evs x\<close>: \<open>m\<close> can make the calls \<open>evs\<close>, with their results, and return \<open>x\<close>.\<close>

primrec can :: "('st, 'a) io \<Rightarrow> 'st event list \<Rightarrow> 'a \<Rightarrow> bool" where
  "can (Ret y) = (\<lambda>evs x. evs = [] \<and> x = y)"
| "can Out_of_fuel = (\<lambda>evs x. False)"
| "can (Posix_memalign n k) =
    (\<lambda>evs x. \<exists>rv b evs'. evs = E_memalign n rv b # evs' \<and> 0 \<le> rv \<and> length b = n \<and> can (k rv b) evs' x)"
| "can (Uninit n k) = (\<lambda>evs x. \<exists>b evs'. evs = E_uninit b # evs' \<and> length b = n \<and> can (k b) evs' x)"
| "can (Write_iobuf d off b t k) = (\<lambda>evs x. \<exists>rv evs'. evs = E_write d off b rv # evs' \<and> rv \<le> 0 \<and> can (k rv) evs' x)"
| "can (Read_iobuf d off n t k) =
    (\<lambda>evs x. \<exists>rv b evs'. evs = E_read d off n rv b # evs' \<and> rv \<le> 0 \<and> length b = n \<and> can (k rv b) evs' x)"
| "can (Open_path p k) = (\<lambda>evs x. \<exists>rv evs'. evs = E_open p rv # evs' \<and> can (k rv) evs' x)"
| "can (Monotime k) = (\<lambda>evs x. \<exists>t evs'. evs = E_time t # evs' \<and> can (k t) evs' x)"
| "can (Sleep n k) = (\<lambda>evs x. \<exists>evs'. evs = E_sleep n # evs' \<and> can k evs' x)"
| "can (Usleep n k) = (\<lambda>evs x. \<exists>evs'. evs = E_usleep n # evs' \<and> can k evs' x)"
| "can (Get_rand a b k) = (\<lambda>evs x. \<exists>r evs'. evs = E_rand r # evs' \<and> (r < 0 \<or> a \<le> r \<and> r \<le> b) \<and> can (k r) evs' x)"
| "can (Call c args k) = (\<lambda>evs x. \<exists>rv evs'. evs = E_call c args rv # evs' \<and> can (k rv) evs' x)"
| "can (Shared g k) = (\<lambda>evs x. \<exists>s evs'. evs = E_shared s # evs' \<and> can (k s) evs' x)"

lemma can_wp: "can m evs x \<Longrightarrow> wp Q m h \<Longrightarrow> Q x (h @ evs)"
proof (induction m arbitrary: evs h)
  case (Posix_memalign n k)
  then obtain rv b evs' where "evs = E_memalign n rv b # evs'" "0 \<le> rv" "length b = n" "can (k rv b) evs' x" by auto
  then show ?case using Posix_memalign.IH [of rv b evs' "h @ [E_memalign n rv b]"] Posix_memalign.prems(2) by simp
next
  case (Read_iobuf d off n t k)
  then obtain rv b evs' where "evs = E_read d off n rv b # evs'" "rv \<le> 0" "length b = n" "can (k rv b) evs' x" by auto
  then show ?case using Read_iobuf.IH [of rv b evs' "h @ [E_read d off n rv b]"] Read_iobuf.prems(2) by simp
qed fastforce+

lemma wp_grows: "wp (\<lambda>_ h'. \<exists>evs. h' = h @ evs) m (h @ h1)"
proof (induction m arbitrary: h1)
qed (simp_all flip: append_assoc, (simp add: append_assoc)+)

lemma can_bnd: "can (bnd m f) evs x \<longleftrightarrow> (\<exists>y evs1 evs2. evs = evs1 @ evs2 \<and> can m evs1 y \<and> can (f y) evs2 x)"
proof (induction m arbitrary: evs)
  case (Ret y)
  then show ?case by auto
next
  case (Posix_memalign n k)
  show ?case by (simp add: Posix_memalign.IH) (metis append_Cons)
next
  case (Uninit n k)
  show ?case by (simp add: Uninit.IH) (metis append_Cons)
next
  case (Read_iobuf d off n t k)
  show ?case by (simp add: Read_iobuf.IH) (metis append_Cons)
next
  case (Write_iobuf d off b t k)
  show ?case by (simp add: Write_iobuf.IH) (metis append_Cons)
next
  case (Get_rand a b k)
  show ?case by (simp add: Get_rand.IH) (metis append_Cons)
qed (simp_all, (metis append_Cons)+)

section \<open>The host\<close>

text \<open>
  The device: whether it is armed, whether the character that allows to disarm it was written, and when
  it was last pinged.  Opening, a keepalive, and a close that does not disarm it restart its timer.
\<close>

record watchdog_dev =
  wv_armed :: bool
  wv_magic :: bool
  wv_ping :: nat

fun device :: "nat \<Rightarrow> unit event \<Rightarrow> watchdog_dev \<Rightarrow> watchdog_dev" where
  "device now (E_open p rv) v = (if rv \<ge> 0 then v\<lparr>wv_armed := True, wv_magic := False, wv_ping := now\<rparr> else v)"
| "device now (E_call c args rv) v =
    (if c = ''watchdog keepalive'' then (if rv \<ge> 0 then v\<lparr>wv_ping := now\<rparr> else v)
     else if c = ''watchdog write V'' then (if rv \<ge> 0 then v\<lparr>wv_magic := True\<rparr> else v)
     else if c = ''watchdog close'' then (if wv_magic v then v\<lparr>wv_armed := False, wv_magic := False\<rparr> else v\<lparr>wv_ping := now\<rparr>)
     else v)"
| "device now ev v = v"

text \<open>The clock shows \<open>now\<close> during all of a step.\<close>

definition at_time :: "nat \<Rightarrow> unit event list \<Rightarrow> bool" where
  "at_time now evs \<longleftrightarrow> (\<forall>t. E_time t \<in> set evs \<longrightarrow> unat t = now)"

text \<open>
  What the daemon expects of its clients: an expiry is only set on a connection with a reference count
  and an open watchdog; it is at first more than a test interval away, and later only extended; the
  reference count is kept as long as there is an expiry.
\<close>

definition client_contract :: "nat \<Rightarrow> wdmd \<Rightarrow> nat \<Rightarrow> wdmd \<Rightarrow> bool" where
  "client_contract now w i w' \<longleftrightarrow>
    (let c = wd_clients w ! i; c' = wd_clients w' ! i
     in if cl_expire c' = 0 then True
        else cl_refcount c' \<noteq> 0 \<and>
          (if cl_expire c = 0
           then wd_test_loop_enable w \<noteq> 0 \<and> int now + wd_standard_test_interval w < uint (cl_expire c')
           else cl_expire c \<le> cl_expire c'))"

text \<open>
  The steps of a host that has not been reset: the daemon handles the events of a client, or runs the
  rest of its loop, or a second passes.  A second passes only while the armed device has not fired, and
  while the tests are not overdue by more than a second.
\<close>

inductive host_step :: "string list \<Rightarrow> wdmd \<times> watchdog_dev \<times> nat \<Rightarrow> wdmd \<times> watchdog_dev \<times> nat \<Rightarrow> bool" for dir where
  events: "int i \<le> wd_client_maxi w \<Longrightarrow> can (dispatch_client dir w i) evs w' \<Longrightarrow> at_time now evs \<Longrightarrow> client_contract now w i w' \<Longrightarrow>
    host_step dir (w, v, now) (w', fold (device now) evs v, now)"
| tests: "can (test_loop_tail w fuel) evs (False, w') \<Longrightarrow> at_time now evs \<Longrightarrow>
    host_step dir (w, v, now) (w', fold (device now) evs v, now)"
| second: "(wv_armed v \<longrightarrow> now < wv_ping v + nat (wd_fire_timeout w)) \<Longrightarrow>
    (wd_test_loop_enable w \<noteq> 0 \<longrightarrow> int now \<le> uint (wl_test_time w) + wd_standard_test_interval w) \<Longrightarrow>
    host_step dir (w, v, now) (w, v, now + 1)"

text \<open>The daemon after its setup: the device is closed, and no client is monitored.\<close>

definition wdmd_started :: "wdmd \<Rightarrow> bool" where
  "wdmd_started w \<longleftrightarrow> wd_allow_scripts w = 0 \<and> wd_dev_fd w = -1 \<and> wd_test_loop_enable w = 0 \<and>
    wd_client_maxi w < int (length (wd_clients w)) \<and> wl_test_time w = 0 \<and> wd_standard_test_interval w \<in> {1, 2, 5, 10} \<and>
    list_all (\<lambda>c. cl_expire c = 0 \<and> (cl_internal c \<noteq> 0 \<longrightarrow> cl_workfn c \<noteq> Process_connection) \<and>
      (cl_used c = 0 \<longrightarrow> cl_internal c = 0 \<and> cl_fd c = -1)) (wd_clients w)"


section \<open>The events of a client\<close>

text \<open>An entry without an expiry that may be monitored later; an unused entry is one of these and has no descriptor.\<close>

definition fresh :: "wd_client \<Rightarrow> bool" where
  "fresh c \<longleftrightarrow> cl_expire c = 0 \<and> cl_internal c = 0"

definition entry_ok :: "wd_client \<Rightarrow> bool" where
  "entry_ok c \<longleftrightarrow> (if cl_used c = 0 then fresh c \<and> cl_fd c = -1 else True)"

text \<open>
  What the events of client \<open>i\<close> do to the table: another entry is at most taken by a new connection, and
  only a connection can get an expiry.
\<close>

definition slot_step :: "wd_client \<Rightarrow> wd_client \<Rightarrow> bool" where
  "slot_step c c' \<longleftrightarrow> entry_ok c' \<and> (cl_internal c' \<noteq> 0 \<longrightarrow> cl_internal c \<noteq> 0 \<and> cl_workfn c' = cl_workfn c) \<and>
    (cl_workfn c \<noteq> Process_connection \<longrightarrow> cl_expire c' = 0 \<or> cl_expire c' = cl_expire c)"

definition clients_step :: "wdmd \<Rightarrow> nat \<Rightarrow> wdmd \<Rightarrow> bool" where
  "clients_step w i w' \<longleftrightarrow> length (wd_clients w) \<le> length (wd_clients w') \<and> wd_client_maxi w' < int (length (wd_clients w')) \<and>
    (\<forall>j < length (wd_clients w'). j \<noteq> i \<longrightarrow>
      fresh (wd_clients w' ! j) \<and> entry_ok (wd_clients w' ! j) \<or> j < length (wd_clients w) \<and> wd_clients w' ! j = wd_clients w ! j) \<and>
    slot_step (wd_clients w ! i) (wd_clients w' ! i)"

text \<open>What they do to the device: nothing, or a request to open it succeeds or fails.\<close>

definition same_settings :: "wdmd \<Rightarrow> wdmd \<Rightarrow> bool" where
  "same_settings w w' \<longleftrightarrow> wd_allow_scripts w' = wd_allow_scripts w \<and> wl_test_time w' = wl_test_time w"

definition device_step :: "nat \<Rightarrow> wdmd \<Rightarrow> watchdog_dev \<Rightarrow> wdmd \<Rightarrow> watchdog_dev \<Rightarrow> bool" where
  "device_step now w v w' v' \<longleftrightarrow>
    v' = v \<and> wd_dev_fd w' = wd_dev_fd w \<and> wd_test_loop_enable w' = wd_test_loop_enable w \<and>
      wd_standard_test_interval w' = wd_standard_test_interval w \<and> wd_fire_timeout w' = wd_fire_timeout w \<or>
    wd_test_loop_enable w = 0 \<and> \<not> wv_magic v' \<and> wd_standard_test_interval w' \<in> {wd_standard_test_interval w, 1, 2, 5, 10} \<and>
      (if wd_test_loop_enable w' = 0 then wd_dev_fd w' = -1 else wv_armed v' \<and> wv_ping v' = now)"

lemma init_test_interval_sel [simp]:
  "wd_clients (init_test_interval w) = wd_clients w" "wd_client_maxi (init_test_interval w) = wd_client_maxi w"
  "wd_allow_scripts (init_test_interval w) = wd_allow_scripts w" "wl_test_time (init_test_interval w) = wl_test_time w"
  "wd_dev_fd (init_test_interval w) = wd_dev_fd w" "wd_test_loop_enable (init_test_interval w) = wd_test_loop_enable w"
  by (simp_all add: init_test_interval_def Let_def)

lemma init_test_interval_values: "wd_standard_test_interval (init_test_interval w) \<in> {1, 2, 5, 10}"
  by (auto simp: init_test_interval_def)

text \<open>A request to open the device.\<close>

definition opened_dev :: "nat \<Rightarrow> wdmd \<Rightarrow> watchdog_dev \<Rightarrow> wdmd \<Rightarrow> watchdog_dev \<Rightarrow> bool" where
  "opened_dev now w v w' v' \<longleftrightarrow> device_step now w v w' v' \<and> same_settings w w' \<and>
    wd_clients w' = wd_clients w \<and> wd_client_maxi w' = wd_client_maxi w"

lemma wp_open_watchdog_request:
  assumes "wd_test_loop_enable w = 0 \<longrightarrow> wd_dev_fd w = -1" and "\<not> wv_magic v"
  shows "wp (\<lambda>(rv, w') h'. \<exists>evs. h' = h @ evs \<and> opened_dev now w v w' (fold (device now) evs v)) (open_watchdog_request w ft) h"
proof (cases "wd_test_loop_enable w = 0")
  case True
  show ?thesis using True assms init_test_interval_values
    by (simp add: open_watchdog_request_def open_dev_def ioctl_timeout_def open_watchdog_done_def pet_watchdog_def close_watchdog_def
        io_simps Let_def opened_dev_def device_step_def same_settings_def)
qed (simp add: open_watchdog_request_def opened_dev_def device_step_def same_settings_def)


definition dispatched :: "nat \<Rightarrow> wdmd \<Rightarrow> watchdog_dev \<Rightarrow> nat \<Rightarrow> wdmd \<Rightarrow> watchdog_dev \<Rightarrow> bool" where
  "dispatched now w v i w' v' \<longleftrightarrow> clients_step w i w' \<and> device_step now w v w' v' \<and> same_settings w w'"

definition table_ok :: "wdmd \<Rightarrow> bool" where
  "table_ok w \<longleftrightarrow> wd_client_maxi w < int (length (wd_clients w)) \<and> list_all entry_ok (wd_clients w)"

lemma table_okD: "table_ok w \<Longrightarrow> i < length (wd_clients w) \<Longrightarrow> entry_ok (wd_clients w ! i)"
  by (simp add: table_ok_def list_all_length)

lemma dispatched_refl: "table_ok w \<Longrightarrow> i < length (wd_clients w) \<Longrightarrow> dispatched now w v i w v"
  by (simp add: dispatched_def device_step_def same_settings_def clients_step_def slot_step_def table_okD) (simp add: table_ok_def)

lemma set_client_sel [simp]:
  "device_step now w v (set_client i f w1) v' = device_step now w v w1 v'" "same_settings w (set_client i f w1) = same_settings w w1"
  by (simp_all add: device_step_def same_settings_def set_client_def)

text \<open>An update of the entry itself, after what the other events of the client did.\<close>

lemma dispatched_set:
  assumes d: "dispatched now w v i w1 v'" and i: "i < length (wd_clients w)" and c: "slot_step (wd_clients w ! i) (f (wd_clients w1 ! i))"
  shows "dispatched now w v i (set_client i f w1) v'"
proof -
  have "clients_step w i (set_client i f w1)" using d i c by (simp add: dispatched_def clients_step_def set_client_def)
  then show ?thesis using d by (simp add: dispatched_def)
qed

text \<open>The close of a connection.\<close>

lemma wp_client_pid_dead:
  assumes d: "dispatched now w v i w1 (fold (device now) evs v)" and i: "i < length (wd_clients w)"
  shows "wp (\<lambda>w' h'. \<exists>evs. h' = h @ evs \<and> dispatched now w v i w' (fold (device now) evs v)) (client_pid_dead w1 i) (h @ evs)"
proof -
  have c: "slot_step (wd_clients w ! i) (wd_clients w1 ! i)" using d by (simp add: dispatched_def clients_step_def)
  have "dispatched now w v i (set_client i (\<lambda>c. zero_client\<lparr>cl_fd := -1\<rparr>) w1) (fold (device now) evs v)"
    by (rule dispatched_set [OF d i]) (simp add: slot_step_def entry_ok_def fresh_def zero_client_def)
  moreover have "dispatched now w v i (set_client i (\<lambda>c. c\<lparr>cl_pid_dead := 1, cl_fd := -1\<rparr>) w1) (fold (device now) evs v)"
    by (rule dispatched_set [OF d i]) (use c in \<open>simp add: slot_step_def entry_ok_def fresh_def split: if_splits\<close>)
  ultimately show ?thesis by (simp add: client_pid_dead_def Let_def)
qed

lemma wp_process_connection:
  assumes t: "table_ok w" "i < length (wd_clients w)" "cl_used (wd_clients w ! i) \<noteq> 0" and work: "cl_workfn (wd_clients w ! i) = Process_connection"
    and v: "wd_test_loop_enable w = 0 \<longrightarrow> wd_dev_fd w = -1" "\<not> wv_magic v"
  shows "wp (\<lambda>w' h'. \<exists>evs. h' = h @ evs \<and> dispatched now w v i w' (fold (device now) evs v)) (process_connection w i) h"
proof -
  let ?Q = "\<lambda>w' h'. \<exists>evs. h' = h @ evs \<and> dispatched now w v i w' (fold (device now) evs v)"
  note refl = dispatched_refl [OF t(1,2)]
  have dead: "wp ?Q (client_pid_dead w i) (h @ evs)" if "fold (device now) evs v = v" for evs
    by (rule wp_client_pid_dead) (use that refl t(2) in auto)
  have upd: "dispatched now w v i (set_client i f w) v"
    if "cl_internal (f (wd_clients w ! i)) = cl_internal (wd_clients w ! i)" "cl_workfn (f (wd_clients w ! i)) = cl_workfn (wd_clients w ! i)"
      "cl_used (f (wd_clients w ! i)) = cl_used (wd_clients w ! i)" for f
    by (rule dispatched_set [OF refl t(2)]) (use that t(3) work in \<open>simp add: slot_step_def entry_ok_def\<close>)
  have opened: "dispatched now w v i w' v'" if "opened_dev now w v w' v'" for w' v'
    using that t table_okD [OF t(1,2)] by (simp add: dispatched_def opened_dev_def clients_step_def slot_step_def table_ok_def)
  have open_req: "wp (\<lambda>x h'. \<forall>rv. \<exists>evs. h' @ [E_call ''send'' (args x) rv] = h @ evs \<and> dispatched now w v i (snd x) (fold (device now) evs v))
      (open_watchdog_request w ft) (h @ evs)" if "fold (device now) evs v = v" for ft evs args
    by (rule wp_mono [OF wp_open_watchdog_request [OF v, of "h @ evs" now ft]]) (use that opened in auto)
  show ?thesis
    unfolding process_connection_def Let_def
    by (simp add: wp_bnd get_peer_pid_def case_prod_unfold refl upd dead open_req)
qed


text \<open>A new connection takes an unused entry, or the first one of a new block.\<close>

lemma dispatched_alloc:
  assumes t: "table_ok w" "i < length (wd_clients w)"
  shows "dispatched now w v i (client_alloc w) v" and "table_ok (client_alloc w)"
proof -
  let ?new = "replicate CLIENT_NALLOC (zero_client\<lparr>cl_fd := -1\<rparr>)"
  have new: "fresh c \<and> entry_ok c" if "c \<in> set ?new" for c using that by (simp add: fresh_def entry_ok_def zero_client_def)
  have "fresh ((wd_clients w @ ?new) ! j) \<and> entry_ok ((wd_clients w @ ?new) ! j)"
    if "\<not> j < length (wd_clients w)" "j < length (wd_clients w @ ?new)" for j
    using that new nth_mem [of "j - length (wd_clients w)" ?new] by (simp add: nth_append)
  then have "clients_step w i (client_alloc w)"
    using t table_okD [OF t] unfolding clients_step_def client_alloc_def slot_step_def
    by (auto simp: nth_append table_ok_def)
  then show "dispatched now w v i (client_alloc w) v"
    by (simp add: dispatched_def device_step_def same_settings_def client_alloc_def)
  show "table_ok (client_alloc w)" using t(1) new by (simp add: table_ok_def client_alloc_def list_all_iff)
qed

lemma client_take_sel [simp]:
  "device_step now w v (client_take j fd work w1) v' = device_step now w v w1 v'"
  "same_settings w (client_take j fd work w1) = same_settings w w1"
  by (simp_all add: device_step_def same_settings_def client_take_def set_client_def Let_def)

lemma dispatched_take:
  assumes d: "dispatched now w v i w1 v" "table_ok w1" and j: "j < length (wd_clients w1)" "cl_used (wd_clients w1 ! j) = 0" "i \<noteq> j"
  shows "dispatched now w v i (client_take j fd work w1) v"
proof -
  have "fresh (wd_clients w1 ! j)" using table_okD [OF d(2) j(1)] j(2) by (simp add: entry_ok_def)
  then have "clients_step w i (client_take j fd work w1)"
    using d(1) j by (auto simp: dispatched_def clients_step_def client_take_def set_client_def nth_list_update fresh_def entry_ok_def Let_def)
  then show ?thesis using d(1) by (simp add: dispatched_def)
qed

lemma dispatched_add:
  assumes t: "table_ok w" "i < length (wd_clients w)" "cl_used (wd_clients w ! i) \<noteq> 0"
  shows "dispatched now w v i (snd (client_add w fd work)) v"
proof (cases "find (\<lambda>i. cl_used (wd_clients w ! i) = 0) [0..<length (wd_clients w)]")
  case None
  have "cl_used (wd_clients (client_alloc w) ! length (wd_clients w)) = 0" "length (wd_clients w) < length (wd_clients (client_alloc w))"
    by (simp_all add: client_alloc_def nth_append zero_client_def)
  then show ?thesis using None dispatched_take [OF dispatched_alloc [OF t(1,2)]] t(2) by (simp add: client_add_def)
next
  case (Some j)
  then have j: "j < length (wd_clients w)" "cl_used (wd_clients w ! j) = 0" by (auto simp: find_Some_iff)
  with t(3) have "i \<noteq> j" by auto
  then show ?thesis using Some dispatched_take [OF dispatched_refl [OF t(1,2)] t(1) j] by (simp add: client_add_def)
qed

lemma wp_dispatch_client:
  assumes t: "table_ok w" "i < length (wd_clients w)" and scripts: "wd_allow_scripts w = 0"
    and v: "wd_test_loop_enable w = 0 \<longrightarrow> wd_dev_fd w = -1" "\<not> wv_magic v"
  shows "wp (\<lambda>w' evs. dispatched now w v i w' (fold (device now) evs v)) (dispatch_client dir w i) []"
proof (cases "cl_fd (wd_clients w ! i) < 0")
  case False
  then have used: "cl_used (wd_clients w ! i) \<noteq> 0" using table_okD [OF t] by (auto simp: entry_ok_def)
  let ?Q = "\<lambda>w' h'. \<exists>evs. h' = [] @ evs \<and> dispatched now w v i w' (fold (device now) evs v)"
  note refl = dispatched_refl [OF t]
  have work: "wp ?Q (run_workfn dir w i) [E_call ''revents'' args rv]" for args rv
  proof (cases "cl_workfn (wd_clients w ! i)")
    case Process_connection
    from wp_process_connection [OF t used this v, where h = "[E_call ''revents'' args rv]" and now = now]
    have "wp ?Q (process_connection w i) [E_call ''revents'' args rv]" by (rule wp_mono) auto
    then show ?thesis using Process_connection by (simp add: run_workfn_def)
  next
    case Process_signals
    have "dispatched now w v i (w\<lparr>wd_daemon_quit := 1\<rparr>) v"
      using refl by (simp add: dispatched_def clients_step_def device_step_def same_settings_def)
    then show ?thesis using Process_signals scripts refl by (simp add: run_workfn_def process_signals_def setup_scripts_def Let_def)
  qed (simp_all add: run_workfn_def process_listener_def refl dispatched_add [OF t used])
  have dead: "wp (\<lambda>w' evs. dispatched now w v i w' (fold (device now) evs v)) (if b then client_pid_dead w1 i else Ret w1) h"
    if "?Q w1 h" for w1 h b
  proof (cases b)
    case True
    from wp_client_pid_dead [OF _ t(2), where h = "[]"] that
    have "wp ?Q (client_pid_dead w1 i) h" by auto
    then show ?thesis using True by simp
  qed (use that in simp)
  have "wp (\<lambda>w1. wp (\<lambda>w' evs. dispatched now w v i w' (fold (device now) evs v)) (if b w1 then client_pid_dead w1 i else Ret w1))
      (if p then run_workfn dir w i else Ret w) [E_call ''revents'' args rv]" for p b args rv
    by (rule wp_mono [where Q = ?Q]) (use work refl dead in auto)
  then show ?thesis using False by (simp add: dispatch_client_def wp_bnd)
qed (simp add: dispatch_client_def dispatched_refl [OF t])


section \<open>The invariant of a running host\<close>

text \<open>
  The watchdog was last pinged before a client expires; while the device is open, the next test comes
  before that time, too.
\<close>

definition guarded_client :: "wdmd \<Rightarrow> watchdog_dev \<Rightarrow> nat \<Rightarrow> wd_client \<Rightarrow> bool" where
  "guarded_client w v now c \<longleftrightarrow> (if cl_expire c = 0 then True
    else wd_test_loop_enable w \<noteq> 0 \<and> cl_refcount c \<noteq> 0 \<and> cl_internal c = 0 \<and>
      int (wv_ping v) \<le> uint (cl_expire c) \<and> wd_standard_test_interval w \<le> uint (cl_expire c) \<and>
      (wd_dev_fd w \<noteq> -1 \<longrightarrow> int now \<le> uint (cl_expire c) \<and> uint (wl_test_time w) + wd_standard_test_interval w < uint (cl_expire c)))"

definition internal_ok :: "wd_client \<Rightarrow> bool" where
  "internal_ok c \<longleftrightarrow> (if cl_internal c = 0 then True else cl_workfn c \<noteq> Process_connection)"

definition enabled_ok :: "wdmd \<Rightarrow> watchdog_dev \<Rightarrow> nat \<Rightarrow> bool" where
  "enabled_ok w v now \<longleftrightarrow>
    (if wd_test_loop_enable w = 0 then wd_dev_fd w = -1
     else wv_armed v \<and> wv_ping v \<le> now \<and> now \<le> wv_ping v + nat (wd_fire_timeout w))"

definition host_inv :: "wdmd \<times> watchdog_dev \<times> nat \<Rightarrow> bool" where
  "host_inv = (\<lambda>(w, v, now). table_ok w \<and> wd_allow_scripts w = 0 \<and> \<not> wv_magic v \<and> enabled_ok w v now \<and>
     unat (wl_test_time w) \<le> now \<and> wd_standard_test_interval w \<in> {1, 2, 5, 10} \<and>
     list_all (\<lambda>c. guarded_client w v now c \<and> internal_ok c) (wd_clients w))"

lemma host_invD:
  assumes "host_inv (w, v, now)" and "i < length (wd_clients w)"
  shows "guarded_client w v now (wd_clients w ! i)" and "internal_ok (wd_clients w ! i)"
  using assms by (auto simp: host_inv_def list_all_length)

lemma host_inv_second:
  assumes "host_inv (w, v, now)" and "wv_armed v \<longrightarrow> now < wv_ping v + nat (wd_fire_timeout w)"
    and "wd_test_loop_enable w \<noteq> 0 \<longrightarrow> int now \<le> uint (wl_test_time w) + wd_standard_test_interval w"
  shows "host_inv (w, v, now + 1)"
proof -
  have "guarded_client w v (now + 1) c" if "guarded_client w v now c" for c
    using that assms(3) by (auto simp: guarded_client_def)
  then have "list_all (\<lambda>c. guarded_client w v (now + 1) c \<and> internal_ok c) (wd_clients w)"
    using assms(1) by (auto simp: host_inv_def list_all_iff)
  moreover have "enabled_ok w v (now + 1)" using assms(1,2) by (auto simp: host_inv_def enabled_ok_def)
  ultimately show ?thesis using assms(1) by (simp add: host_inv_def)
qed

text \<open>The events of a client.\<close>

lemma guarded_step:
  assumes "device_step now w v w' v'" and "same_settings w w'" and "guarded_client w v now c"
  shows "guarded_client w' v' now c"
  using assms unfolding device_step_def guarded_client_def same_settings_def by auto

lemma guarded_new:
  assumes inv: "host_inv (w, v, now)" and d: "device_step now w v w' v'" "same_settings w w'"
    and c: "guarded_client w v now c" "internal_ok c" "slot_step c c'"
    and contract: "cl_expire c' \<noteq> 0 \<Longrightarrow> cl_refcount c' \<noteq> 0 \<and> (if cl_expire c = 0
      then wd_test_loop_enable w \<noteq> 0 \<and> int now + wd_standard_test_interval w < uint (cl_expire c') else cl_expire c \<le> cl_expire c')"
  shows "guarded_client w' v' now c'" and "internal_ok c'"
proof -
  show "internal_ok c'" using c by (auto simp: internal_ok_def slot_step_def split: if_splits)
  show "guarded_client w' v' now c'"
  proof (cases "cl_expire c' = 0")
    case False
    note con = contract [OF False]
    have conn: "cl_internal c' = 0"
    proof (rule ccontr)
      assume "cl_internal c' \<noteq> 0"
      then have "cl_internal c \<noteq> 0" "cl_workfn c \<noteq> Process_connection" using c by (auto simp: slot_step_def internal_ok_def split: if_splits)
      moreover from this have "cl_expire c' = cl_expire c" using c False by (auto simp: slot_step_def)
      ultimately show False using c(1) False by (simp add: guarded_client_def)
    qed
    have en: "wd_test_loop_enable w \<noteq> 0" using con c(1) by (cases "cl_expire c = 0") (simp_all add: guarded_client_def)
    then have same: "v' = v" "wd_dev_fd w' = wd_dev_fd w" "wd_test_loop_enable w' = wd_test_loop_enable w"
      "wd_standard_test_interval w' = wd_standard_test_interval w" "wl_test_time w' = wl_test_time w"
      using d by (auto simp: device_step_def same_settings_def)
    have w: "wv_ping v \<le> now" "unat (wl_test_time w) \<le> now" "0 < wd_standard_test_interval w"
      using inv en by (auto simp: host_inv_def enabled_ok_def)
    have "int (unat (wl_test_time w)) \<le> int now" using w(2) by (simp only: of_nat_le_iff)
    then have tt: "uint (wl_test_time w) \<le> int now" by simp
    show ?thesis
    proof (cases "cl_expire c = 0")
      case True
      then show ?thesis using con conn en same w tt False by (simp add: guarded_client_def)
    next
      case e: False
      then have "cl_expire c \<le> cl_expire c'" using con by simp
      then have "uint (cl_expire c) \<le> uint (cl_expire c')" by (simp only: word_le_def)
      moreover have "cl_refcount c' \<noteq> 0" using con by simp
      moreover have "int (wv_ping v) \<le> uint (cl_expire c)" "wd_standard_test_interval w \<le> uint (cl_expire c)"
        "wd_dev_fd w \<noteq> -1 \<longrightarrow> int now \<le> uint (cl_expire c) \<and> uint (wl_test_time w) + wd_standard_test_interval w < uint (cl_expire c)"
        using e c(1) by (simp_all add: guarded_client_def)
      ultimately show ?thesis unfolding guarded_client_def using conn en same False by auto
    qed
  qed (simp add: guarded_client_def)
qed


lemma host_inv_events:
  assumes inv: "host_inv (w, v, now)" and i: "int i \<le> wd_client_maxi w"
    and run: "can (dispatch_client dir w i) evs w'" and contract: "client_contract now w i w'"
  shows "host_inv (w', fold (device now) evs v, now)"
proof -
  let ?v = "fold (device now) evs v"
  have t: "table_ok w" "i < length (wd_clients w)" "wd_allow_scripts w = 0" "wd_test_loop_enable w = 0 \<longrightarrow> wd_dev_fd w = -1" "\<not> wv_magic v"
    using inv i by (auto simp: host_inv_def table_ok_def enabled_ok_def)
  have d: "dispatched now w v i w' ?v" using can_wp [OF run wp_dispatch_client [OF t, where dir = dir and now = now]] by simp
  then have cs: "clients_step w i w'" and ds: "device_step now w v w' ?v" and ss: "same_settings w w'" by (auto simp: dispatched_def)
  have new: "guarded_client w' ?v now (wd_clients w' ! i)" "internal_ok (wd_clients w' ! i)" "entry_ok (wd_clients w' ! i)"
  proof -
    have slot: "slot_step (wd_clients w ! i) (wd_clients w' ! i)" using cs by (simp add: clients_step_def)
    then show "entry_ok (wd_clients w' ! i)" by (simp add: slot_step_def)
    show "guarded_client w' ?v now (wd_clients w' ! i)" "internal_ok (wd_clients w' ! i)"
      using guarded_new [OF inv ds ss host_invD [OF inv t(2)] slot] contract by (auto simp: client_contract_def Let_def)
  qed
  have other: "guarded_client w' ?v now (wd_clients w' ! j) \<and> internal_ok (wd_clients w' ! j) \<and> entry_ok (wd_clients w' ! j)"
    if "j < length (wd_clients w')" "j \<noteq> i" for j
  proof (cases "fresh (wd_clients w' ! j) \<and> entry_ok (wd_clients w' ! j)")
    case True
    then show ?thesis by (simp add: fresh_def guarded_client_def internal_ok_def)
  next
    case False
    then have j: "j < length (wd_clients w)" "wd_clients w' ! j = wd_clients w ! j" using that cs by (auto simp: clients_step_def)
    then show ?thesis using host_invD [OF inv j(1)] guarded_step [OF ds ss] table_okD [OF t(1) j(1)] by simp
  qed
  have "guarded_client w' ?v now (wd_clients w' ! j) \<and> internal_ok (wd_clients w' ! j) \<and> entry_ok (wd_clients w' ! j)"
    if "j < length (wd_clients w')" for j using new other [OF that] by (cases "j = i") auto
  then have all: "list_all entry_ok (wd_clients w')" "list_all (\<lambda>c. guarded_client w' ?v now c \<and> internal_ok c) (wd_clients w')"
    by (simp_all add: list_all_length)
  have "\<not> wv_magic ?v \<and> enabled_ok w' ?v now \<and> wd_standard_test_interval w' \<in> {1, 2, 5, 10}"
    using ds inv t(5) by (auto simp: device_step_def host_inv_def enabled_ok_def split: if_splits)
  then show ?thesis using all cs ss inv by (simp add: host_inv_def table_ok_def clients_step_def same_settings_def)
qed

section \<open>The tests\<close>

lemma at_time_simps [simp]: "at_time now []" "at_time now (evs @ evs') \<longleftrightarrow> at_time now evs \<and> at_time now evs'"
  by (auto simp: at_time_def)

lemma at_time_Cons [simp]: "at_time now (ev # evs) \<longleftrightarrow> (case ev of E_time t \<Rightarrow> unat t = now | _ \<Rightarrow> True) \<and> at_time now evs"
  by (cases ev) (simp_all add: at_time_def, blast)

text \<open>Whether a test at time \<open>t\<close> fails for a client.\<close>

definition expired :: "wdmd \<Rightarrow> u64 \<Rightarrow> wd_client \<Rightarrow> bool" where
  "expired w t c \<longleftrightarrow> cl_used c \<noteq> 0 \<and> cl_expire c \<noteq> 0 \<and>
    (t \<ge> cl_expire c \<or> t \<ge> cl_expire c - word_of_int (wd_standard_test_interval w))"

lemma guarded_tested:
  assumes inv: "host_inv (w, v, now)" and t: "unat t = now" and c: "guarded_client w v now c" "entry_ok c" "\<not> expired w t c"
    and w': "wd_test_loop_enable w' = wd_test_loop_enable w" "wd_standard_test_interval w' = wd_standard_test_interval w" "wl_test_time w' = t"
    and v': "wv_ping v' \<le> now"
  shows "guarded_client w' v' now c"
proof (cases "cl_expire c = 0")
  case False
  let ?n = "wd_standard_test_interval w"
  have used: "cl_used c \<noteq> 0" using False c(2) by (auto simp: entry_ok_def fresh_def)
  have n: "0 < ?n" "?n \<le> 10" "?n \<le> uint (cl_expire c)" using inv c(1) False by (auto simp: host_inv_def guarded_client_def)
  have "uint (word_of_int ?n :: u64) = ?n" using n by (simp add: uint_word_of_int)
  then have "uint (cl_expire c - word_of_int ?n) = uint (cl_expire c) - ?n"
    using n by (simp add: uint_sub_if' word_le_def)
  then have "uint t < uint (cl_expire c) - ?n" using c(3) False used by (simp add: expired_def word_le_def not_le)
  moreover have "uint t = int now" using t [symmetric] by simp
  ultimately show ?thesis using False n c(1) w' v' by (simp add: guarded_client_def)
qed (simp add: guarded_client_def)

lemma guarded_failed:
  assumes c: "guarded_client w v now c" and w': "wd_test_loop_enable w' = wd_test_loop_enable w" "wd_standard_test_interval w' = wd_standard_test_interval w"
    "wd_dev_fd w' = -1" and v': "wv_ping v' = (if wd_dev_fd w = -1 then wv_ping v else now)"
  shows "guarded_client w' v' now c"
  using assms by (cases "cl_expire c = 0"; cases "wd_dev_fd w = -1") (simp_all add: guarded_client_def)


text \<open>A test changes neither the clients nor the settings.\<close>

definition after_test :: "wdmd \<Rightarrow> wdmd \<Rightarrow> bool" where
  "after_test w w' \<longleftrightarrow> wd_clients w' = wd_clients w \<and> wd_client_maxi w' = wd_client_maxi w \<and>
    wd_allow_scripts w' = wd_allow_scripts w \<and> wd_test_loop_enable w' = wd_test_loop_enable w \<and>
    wd_fire_timeout w' = wd_fire_timeout w \<and> wd_standard_test_interval w' = wd_standard_test_interval w"

lemma host_inv_tested:
  assumes inv: "host_inv (w, v, now)" and w: "wd_test_loop_enable w \<noteq> 0" "after_test w w'" "unat (wl_test_time w') \<le> now"
    and v': "wv_armed v'" "\<not> wv_magic v'" "wv_ping v' = wv_ping v \<or> wv_ping v' = now"
    and c: "\<And>c. guarded_client w v now c \<Longrightarrow> entry_ok c \<Longrightarrow> c \<in> set (wd_clients w) \<Longrightarrow> guarded_client w' v' now c"
  shows "host_inv (w', v', now)"
proof -
  have old: "table_ok w" "enabled_ok w v now" "wd_standard_test_interval w \<in> {1, 2, 5, 10}" "wd_allow_scripts w = 0"
    "list_all (\<lambda>c. guarded_client w v now c \<and> internal_ok c) (wd_clients w)"
    using inv by (simp_all add: host_inv_def)
  have "list_all (\<lambda>c. guarded_client w' v' now c \<and> internal_ok c) (wd_clients w)"
    using old(1,5) c by (simp add: list_all_iff table_ok_def)
  moreover have "enabled_ok w' v' now" using old(2) w v' by (auto simp: enabled_ok_def after_test_def)
  ultimately show ?thesis using old w v' by (simp add: host_inv_def after_test_def table_ok_def)
qed

lemma host_inv_passed:
  assumes inv: "host_inv (w, v, now)" and w: "wd_test_loop_enable w \<noteq> 0" "after_test w w'" "wl_test_time w' = t0" "unat t0 = now"
    and v': "wv_armed v'" "\<not> wv_magic v'" "wv_ping v' = wv_ping v \<or> wv_ping v' = now"
    and t: "unat t = now" "\<forall>c \<in> set (wd_clients w). \<not> expired w t c"
  shows "host_inv (w', v', now)"
proof (rule host_inv_tested [OF inv w(1,2) _ v'])
  have "t0 = t" using w(4) t(1) by (simp add: word_unat_eq_iff)
  moreover have "wv_ping v' \<le> now" using inv w(1) v'(3) by (auto simp: host_inv_def enabled_ok_def)
  ultimately show "guarded_client w' v' now c" if "guarded_client w v now c" "entry_ok c" "c \<in> set (wd_clients w)" for c
    using guarded_tested [OF inv t(1) that(1,2)] t(2) that(3) w by (simp add: after_test_def)
qed (use w in simp)

lemma host_inv_failed:
  assumes inv: "host_inv (w, v, now)" and w: "wd_test_loop_enable w \<noteq> 0" "after_test w w'" "unat (wl_test_time w') = now" "wd_dev_fd w' = -1"
  shows "host_inv (w', if wd_dev_fd w = -1 then v else v\<lparr>wv_ping := now\<rparr>, now)"
proof (rule host_inv_tested [OF inv w(1,2)])
  show "guarded_client w' (if wd_dev_fd w = -1 then v else v\<lparr>wv_ping := now\<rparr>) now c" if "guarded_client w v now c" for c
    by (rule guarded_failed [OF that]) (use w in \<open>simp_all add: after_test_def\<close>)
qed (use w inv in \<open>auto simp: host_inv_def enabled_ok_def\<close>)

lemma wp_run_tests:
  assumes inv: "host_inv (w, v, now)" and w: "wd_test_loop_enable w \<noteq> 0" "unat t0 = now"
  shows "wp (\<lambda>w' h'. \<exists>evs. h' = h @ evs \<and> (at_time now evs \<longrightarrow> host_inv (w', fold (device now) evs v, now)))
    (run_tests (w\<lparr>wl_test_time := t0\<rparr>) fuel) h"
proof -
  have v: "wv_armed v" "\<not> wv_magic v" "wd_allow_scripts w = 0" using inv w(1) by (simp_all add: host_inv_def enabled_ok_def)
  have pass: "host_inv (w', v', unat t)"
    if "filter (\<lambda>c. cl_used c \<noteq> 0 \<and> cl_expire c \<noteq> 0 \<and>
        (cl_expire c \<le> t \<or> cl_expire c - word_of_int (wd_standard_test_interval w) \<le> t)) (wd_clients w) = []"
      "now = unat t" "after_test w w'" "wl_test_time w' = t0" "wv_armed v'" "\<not> wv_magic v'" "wv_ping v' = wv_ping v \<or> wv_ping v' = unat t" for t w' v'
    using that w(2) host_inv_passed [OF inv w(1) that(3,4) w(2) that(5,6)] by (simp add: filter_empty_conv expired_def)
  have fail: "host_inv (w', v', n)"
    if "now = n" "after_test w w'" "wl_test_time w' = t0" "wd_dev_fd w' = -1" "v' = (if wd_dev_fd w = -1 then v else v\<lparr>wv_ping := n\<rparr>)" for w' v' n
    using host_inv_failed [OF inv w(1) that(2)] that w(2) by (simp split: if_splits)
  show ?thesis
    using v by (auto simp: run_tests_def test_scripts_def test_clients_def open_dev_def pet_watchdog_def close_watchdog_unclean_def io_simps
        after_test_def) (fastforce intro: pass fail simp: after_test_def)+
qed


lemma wp_test_round:
  assumes inv: "host_inv (w, v, now)" and w: "wd_test_loop_enable w \<noteq> 0"
  shows "wp (\<lambda>w' h'. at_time now h' \<longrightarrow> host_inv (w', fold (device now) h' v, now)) (test_round w fuel) []"
proof -
  let ?Q = "\<lambda>w' h'. at_time now h' \<longrightarrow> host_inv (w', fold (device now) h' v, now)"
  have poll: "host_inv (w'\<lparr>wl_poll_timeout := n\<rparr>, v', now) = host_inv (w', v', now)" for w' v' n
    by (simp add: host_inv_def table_ok_def enabled_ok_def guarded_client_def)
  have tests: "wp ?Q (run_tests (w\<lparr>wl_test_time := t\<rparr>) fuel) [E_time t1, E_time t]" for t1 t
  proof (cases "unat t = now")
    case True
    show ?thesis by (rule wp_mono [OF wp_run_tests [OF inv w True]]) auto
  next
    case False
    have "wp (\<lambda>_ h'. \<exists>evs. h' = [E_time t1, E_time t] @ evs) (run_tests w' fuel) [E_time t1, E_time t]" for w'
      using wp_grows [of "[E_time t1, E_time t]" "run_tests w' fuel" "[]"] by simp
    then show ?thesis by (rule wp_mono) (use False in auto)
  qed
  have "wp (\<lambda>w'. wp ?Q (Monotime (\<lambda>now. Ret (w'\<lparr>wl_poll_timeout := f w' now\<rparr>))))
      (if b t1 then Monotime (\<lambda>t. run_tests (w\<lparr>wl_test_time := t\<rparr>) fuel) else Ret w) [E_time t1]" for b f t1
  proof (cases "b t1")
    case True
    have "wp (\<lambda>w'. wp ?Q (Monotime (\<lambda>now. Ret (w'\<lparr>wl_poll_timeout := f w' now\<rparr>)))) (run_tests (w\<lparr>wl_test_time := t\<rparr>) fuel) [E_time t1, E_time t]" for t
      by (rule wp_mono [OF tests]) (use poll in auto)
    then show ?thesis using True by simp
  qed (use inv poll in simp)
  then have body: "wp ?Q (bnd (if b t1 then Monotime (\<lambda>t. run_tests (w\<lparr>wl_test_time := t\<rparr>) fuel) else Ret w)
      (\<lambda>w'. Monotime (\<lambda>now. Ret (w'\<lparr>wl_poll_timeout := f w' now\<rparr>)))) [E_time t1]" for b f t1 by (simp only: wp_bnd)
  then show ?thesis unfolding test_round_def Let_def by (simp only: wp.simps append_Nil) (intro allI body)
qed

lemma host_inv_unused:
  assumes inv: "host_inv (w, v, now)" and ext: "snd (count_clients w) = 0"
  shows "list_all (\<lambda>c. cl_expire c = 0) (wd_clients w)"
proof -
  have "cl_expire c = 0" if "c \<in> set (wd_clients w)" for c
  proof (rule ccontr)
    assume e: "cl_expire c \<noteq> 0"
    have c: "guarded_client w v now c" "entry_ok c" using that inv by (auto simp: host_inv_def table_ok_def list_all_iff)
    then have "cl_internal c = 0" "cl_used c \<noteq> 0" using e by (auto simp: guarded_client_def entry_ok_def fresh_def)
    with that ext show False by (auto simp: count_clients_def filter_empty_conv)
  qed
  then show ?thesis by (simp add: list_all_iff)
qed

lemma wp_test_loop_tail:
  assumes inv: "host_inv (w, v, now)"
  shows "wp (\<lambda>(quit, w') h'. at_time now h' \<longrightarrow>
    (if quit then list_all (\<lambda>c. cl_expire c = 0) (wd_clients w') else host_inv (w', fold (device now) h' v, now))) (test_loop_tail w fuel) []"
proof -
  obtain act ext where count: "count_clients w = (act, ext)" by fastforce
  have quit: "list_all (\<lambda>c. cl_expire c = 0) (wd_clients w)" if "act = 0"
  proof -
    have "cl_expire c = 0" if "c \<in> set (wd_clients w)" for c
      using that inv count \<open>act = 0\<close>
      by (auto simp: count_clients_def filter_empty_conv host_inv_def list_all_iff guarded_client_def table_ok_def entry_ok_def fresh_def split: if_splits)
    then show ?thesis by (simp add: list_all_iff)
  qed
  have closed: "host_inv (w\<lparr>wd_dev_fd := -1, wd_test_loop_enable := 0, wd_test_interval := a, wl_poll_timeout := b, wl_test_time := 0\<rparr>, v', now)"
    "wd_dev_fd w = -1 \<Longrightarrow> host_inv (w\<lparr>wd_test_loop_enable := 0, wd_test_interval := a, wl_poll_timeout := b, wl_test_time := 0\<rparr>, v', now)"
    if "ext = 0" "\<not> wv_magic v'" for a b v'
    using inv that host_inv_unused [OF inv] count
    by (auto simp: host_inv_def table_ok_def enabled_ok_def list_all_iff guarded_client_def)
  have round: "wp (\<lambda>w'. wp (\<lambda>(quit, w') h'. at_time now h' \<longrightarrow> (if quit then list_all (\<lambda>c. cl_expire c = 0) (wd_clients w')
      else host_inv (w', fold (device now) h' v, now))) (Ret (False, w'))) (test_round w fuel) []" if "wd_test_loop_enable w \<noteq> 0"
    by (rule wp_mono [OF wp_test_round [OF inv that]]) simp
  have magic: "\<not> wv_magic v" using inv by (simp add: host_inv_def)
  show ?thesis
    using quit closed round inv magic count
    by (auto simp: test_loop_tail_def close_watchdog_def wp_bnd)
qed


section \<open>A host with an expired client is reset\<close>

lemma host_inv_started: "wdmd_started w \<Longrightarrow> \<not> wv_magic v \<Longrightarrow> host_inv (w, v, now)"
  by (auto simp: wdmd_started_def host_inv_def table_ok_def enabled_ok_def list_all_iff guarded_client_def internal_ok_def entry_ok_def fresh_def)

lemma host_inv_step:
  assumes "host_step dir s s'" and "host_inv s"
  shows "host_inv s'"
  using assms
proof cases
  case (events i w evs w' now v)
  then show ?thesis using host_inv_events assms(2) by blast
next
  case (tests w fuel evs w' now v)
  then show ?thesis using can_wp [OF tests(3) wp_test_loop_tail] assms(2) by simp
next
  case (second v now w)
  then show ?thesis using host_inv_second assms(2) by blast
qed

lemma host_inv_reachable: "(host_step dir)\<^sup>*\<^sup>* s s' \<Longrightarrow> host_inv s \<Longrightarrow> host_inv s'"
  by (induction rule: rtranclp_induct) (auto intro: host_inv_step)

lemma running_bound:
  assumes "wdmd_started w0" and "\<not> wv_magic v0" and "(host_step dir)\<^sup>*\<^sup>* (w0, v0, start) (w, v, now)"
    and "c \<in> set (wd_clients w)" and "cl_expire c \<noteq> 0"
  shows "int now \<le> uint (cl_expire c) + int (nat (wd_fire_timeout w))" and "host_inv (w, v, now)"
proof -
  show inv: "host_inv (w, v, now)" using host_inv_reachable [OF assms(3) host_inv_started [OF assms(1,2)]] .
  then have c: "guarded_client w v now c" "enabled_ok w v now" using assms(4) by (auto simp: host_inv_def list_all_iff)
  then show "int now \<le> uint (cl_expire c) + int (nat (wd_fire_timeout w))"
    using assms(5) by (auto simp: guarded_client_def enabled_ok_def split: if_splits)
qed


text \<open>A daemon with one connection, whose client opens the watchdog, and then is monitored until time 180.\<close>

definition sample_client :: wd_client where
  "sample_client = zero_client\<lparr>cl_used := 1, cl_fd := 5, cl_workfn := Process_connection, cl_deadfn := True\<rparr>"

definition sample_wdmd :: wdmd where
  "sample_wdmd = \<lparr>wd_standard_test_interval = 10, wd_test_interval = 10, wd_fire_timeout = 60, wd_daemon_quit = 0,
     wd_last_keepalive = 0, wd_last_closeunclean = 0, wd_test_loop_enable = 0, wd_dev_fd = -1,
     wd_watchdog_path = ''/dev/watchdog0'', wd_allow_scripts = 0, wd_kill_script_sec = 0,
     wd_scripts = replicate MAX_SCRIPTS zero_script, wd_client_maxi = 0, wd_clients = [sample_client],
     wl_test_time = 0, wl_resetting = 0, wl_poll_timeout = 10000\<rparr>"

definition sample_dev :: watchdog_dev where
  "sample_dev = \<lparr>wv_armed = False, wv_magic = False, wv_ping = 0\<rparr>"

definition sample_opened :: wdmd where
  "sample_opened = sample_wdmd\<lparr>wd_dev_fd := 3, wd_last_keepalive := 100, wd_test_loop_enable := 1\<rparr>"

definition sample_monitored :: wdmd where
  "sample_monitored = sample_opened\<lparr>wd_clients := [sample_client\<lparr>cl_refcount := 1, cl_renewal := 100, cl_expire := 180\<rparr>]\<rparr>"

definition sample_tested :: wdmd where
  "sample_tested = sample_monitored\<lparr>wl_test_time := 100, wl_poll_timeout := 10000\<rparr>"

lemmas sample_defs = sample_client_def sample_wdmd_def sample_dev_def sample_opened_def sample_monitored_def sample_tested_def zero_client_def

lemma sample_started: "wdmd_started sample_wdmd" "\<not> wv_magic sample_dev"
  by (simp_all add: wdmd_started_def sample_defs)

lemma sample_open: "host_step [] (sample_wdmd, sample_dev, 100) (sample_opened, \<lparr>wv_armed = True, wv_magic = False, wv_ping = 100\<rparr>, 100)"
proof -
  let ?evs = "[E_call ''revents'' [0] 1, E_call ''recv'' [5] 176, E_call ''h.cmd'' [] 7, E_call ''h.fire_timeout'' [] 60,
    E_open ''/dev/watchdog0'' 3, E_call ''watchdog gettimeout'' [3] 0, E_call ''watchdog timeout'' [] 60,
    E_call ''watchdog keepalive'' [3] 0, E_time 100, E_call ''send'' [5, 60] 176]"
  have "host_step [] (sample_wdmd, sample_dev, 100) (sample_opened, fold (device 100) ?evs sample_dev, 100)"
    by (rule host_step.events [where i = 0])
      (simp_all add: sample_defs dispatch_client_def run_workfn_def process_connection_def open_watchdog_request_def open_dev_def
        ioctl_timeout_def open_watchdog_done_def pet_watchdog_def init_test_interval_def client_contract_def Let_def)
  then show ?thesis by (simp add: sample_defs)
qed

lemma sample_refcount: "host_step [] (sample_opened, v, 100) (sample_opened\<lparr>wd_clients := [sample_client\<lparr>cl_refcount := 1\<rparr>]\<rparr>, v, 100)"
proof -
  let ?evs = "[E_call ''revents'' [0] 1, E_call ''recv'' [5] 176, E_call ''h.cmd'' [] 2]"
  have "host_step [] (sample_opened, v, 100) (sample_opened\<lparr>wd_clients := [sample_client\<lparr>cl_refcount := 1\<rparr>]\<rparr>, fold (device 100) ?evs v, 100)"
    by (rule host_step.events [where i = 0])
      (simp_all add: sample_defs dispatch_client_def run_workfn_def process_connection_def set_client_def client_contract_def Let_def)
  then show ?thesis by simp
qed

lemma sample_live: "host_step [] (sample_opened\<lparr>wd_clients := [sample_client\<lparr>cl_refcount := 1\<rparr>]\<rparr>, v, 100) (sample_monitored, v, 100)"
proof -
  let ?evs = "[E_call ''revents'' [0] 1, E_call ''recv'' [5] 176, E_call ''h.cmd'' [] 4, E_call ''h.renewal_time'' [] 100, E_call ''h.expire_time'' [] 180]"
  have "host_step [] (sample_opened\<lparr>wd_clients := [sample_client\<lparr>cl_refcount := 1\<rparr>]\<rparr>, v, 100) (sample_monitored, fold (device 100) ?evs v, 100)"
    by (rule host_step.events [where i = 0])
      (simp_all add: sample_defs dispatch_client_def run_workfn_def process_connection_def set_client_def client_contract_def Let_def)
  then show ?thesis by simp
qed

lemma sample_test: "host_step [] (sample_monitored, v, 100) (sample_tested, v\<lparr>wv_ping := 100\<rparr>, 100)"
proof -
  let ?evs = "[E_time 100, E_time 100, E_time 100, E_call ''watchdog keepalive'' [3] 0, E_time 100, E_time 100]"
  have "host_step [] (sample_monitored, v, 100) (sample_tested, fold (device 100) ?evs v, 100)"
    by (rule host_step.tests [where fuel = 1])
      (simp_all add: sample_defs test_loop_tail_def count_clients_def test_round_def run_tests_def test_scripts_def test_clients_def pet_watchdog_def Let_def)
  then show ?thesis by simp
qed

lemma sample_run: "(host_step [])\<^sup>*\<^sup>* (sample_wdmd, sample_dev, 100) (sample_tested, \<lparr>wv_armed = True, wv_magic = False, wv_ping = 100\<rparr>, 101)"
proof -
  let ?v = "\<lparr>wv_armed = True, wv_magic = False, wv_ping = 100\<rparr>"
  have "host_step [] (sample_tested, ?v, 100) (sample_tested, ?v, 100 + 1)"
    by (rule host_step.second) (simp_all add: sample_defs)
  then show ?thesis
    using sample_open sample_refcount [of ?v] sample_live [of ?v] sample_test [of ?v]
    by (simp add: converse_rtranclp_into_rtranclp)
qed

lemma sample_expire:
  "hd (wd_clients sample_tested) \<in> set (wd_clients sample_tested)" "cl_expire (hd (wd_clients sample_tested)) = 180" "wd_fire_timeout sample_tested = 60"
  by (simp_all add: sample_defs)


end
