(* ===== verification/Watchdog_Theorems.thy ===== *)
theory Watchdog_Theorems
  imports Lockspace_Thread Acquire_Calls Delta_Theorems Wdmd_Theorems
begin

text \<open>
  The watchdog and the leases.  The lockspace thread extends the watchdog only with renewals of its delta
  lease that reached the disk; with the guarantee of the watchdog daemon, a host whose lease is not renewed
  is reset before any other host takes its leases.
\<close>

section \<open>Programs without calls to other processes\<close>

primrec plain :: "('st, 'a) io \<Rightarrow> bool" where
  "plain (Ret x) \<longleftrightarrow> True"
| "plain Out_of_fuel \<longleftrightarrow> False"
| "plain (Posix_memalign n k) \<longleftrightarrow> (\<forall>rv b. plain (k rv b))"
| "plain (Uninit n k) \<longleftrightarrow> (\<forall>b. plain (k b))"
| "plain (Write_iobuf d off b t k) \<longleftrightarrow> (\<forall>rv. plain (k rv))"
| "plain (Read_iobuf d off n t k) \<longleftrightarrow> (\<forall>rv b. plain (k rv b))"
| "plain (Open_path p k) \<longleftrightarrow> (\<forall>rv. plain (k rv))"
| "plain (Monotime k) \<longleftrightarrow> (\<forall>t. plain (k t))"
| "plain (Sleep n k) \<longleftrightarrow> plain k"
| "plain (Usleep n k) \<longleftrightarrow> plain k"
| "plain (Get_rand a b k) \<longleftrightarrow> (\<forall>r. plain (k r))"
| "plain (Call c args k) \<longleftrightarrow> False"
| "plain (Shared g k) \<longleftrightarrow> (\<forall>s. plain (k s))"

lemma plain_bnd: "plain m \<Longrightarrow> (\<And>x. plain (f x)) \<Longrightarrow> plain (bnd m f)"
  by (induction m) auto

definition is_call :: "'st event \<Rightarrow> bool" where
  "is_call ev = (case ev of E_call c args rv \<Rightarrow> True | _ \<Rightarrow> False)"

lemma is_call_simps [simp]:
  "is_call (E_call c args rv)" "\<not> is_call (E_write d off b rv)" "\<not> is_call (E_memalign n rv b)" "\<not> is_call (E_uninit b)"
  "\<not> is_call (E_read d off n rv b)" "\<not> is_call (E_open p rv)" "\<not> is_call (E_time t)" "\<not> is_call (E_sleep n)" "\<not> is_call (E_usleep i)"
  "\<not> is_call (E_rand i)" "\<not> is_call (E_shared s)"
  by (simp_all add: is_call_def)

lemma plain_runs:
  assumes "plain m" and "wp Q m evs0" and "list_all (\<lambda>ev. \<not> is_call ev) evs0"
  shows "runs (\<lambda>x hist'. \<exists>evs. hist' = hist @ evs \<and> list_all (\<lambda>ev. \<not> is_call ev) evs \<and> Q x evs) (\<lambda>_. False) m (hist @ evs0)"
  using assms
proof (induction m arbitrary: evs0)
qed (simp_all del: append_assoc add: append_assoc [symmetric], simp_all)

lemma adds_plain: "plain m \<Longrightarrow> wp Q m [] \<Longrightarrow> adds (\<lambda>ev. \<not> is_call ev) Q m"
  using plain_runs [of m Q "[]"] by (simp add: adds_def)

lemma wp_any: "wp (\<lambda>_ _. True) m h"
  by (induction m arbitrary: h) simp_all

section \<open>The delta lease functions are such programs\<close>

lemma plain_write_sector: "plain (write_sector disk ss nr data io)"
  by (simp add: write_sector_def do_write_sectors_def Let_def)

lemma plain_read_sectors: "plain (read_sectors disk ss nr n data io)"
  by (simp add: read_sectors_def Let_def)

lemma plain_leader_read: "plain (delta_lease_leader_read ss io disk name h ret)"
  by (auto simp: delta_lease_leader_read_def Let_def intro!: plain_bnd plain_read_sectors)

lemma plain_delta_wait: "plain (delta_wait sp n)"
  by (induction n) simp_all

lemma plain_delta_lease_acquire: "plain (delta_lease_acquire com sp disk name host host_id ret)"
  by (auto simp: delta_lease_acquire_def delta_write_new_def delta_confirm_def Let_def
      intro!: plain_bnd plain_leader_read plain_delta_wait plain_write_sector split: prod.splits)

lemma plain_delta_lease_renew: "plain (delta_lease_renew com sp disk name bitmap extra prev_result prev ret rr tsk)"
  by (auto simp: delta_lease_renew_def delta_renew_write_def Let_def split: option.splits prod.splits)

lemma plain_delta_lease_release: "plain (delta_lease_release sp disk prev ret)"
  by (auto simp: delta_lease_release_def Let_def intro!: plain_bnd plain_write_sector split: option.splits prod.splits)

lemma plain_read_sizes: "plain (delta_read_lockspace_sizes disk io ss al)"
  by (auto simp: delta_read_lockspace_sizes_def Let_def intro!: plain_bnd plain_read_sectors)


section \<open>What the thread tells the watchdog\<close>

text \<open>The last write of the history succeeded, and is a record of our host id with timestamp \<open>ts\<close>.\<close>

definition lease_written :: "u64 \<Rightarrow> u64 \<Rightarrow> daemon event list \<Rightarrow> bool" where
  "lease_written host_id ts hist \<longleftrightarrow>
    (\<exists>past d off b evs. hist = past @ E_write d off b 0 # evs \<and> quiet evs \<and>
      lr_owner_id (leader_record_in b) = host_id \<and> lr_timestamp (leader_record_in b) = ts)"

text \<open>A message that extends the expiry of the client.\<close>

definition test_live_args :: "daemon event \<Rightarrow> int list option" where
  "test_live_args ev =
    (case ev of E_call c args rv \<Rightarrow> if c = ''send'' \<and> args ! 1 = uint CMD_TEST_LIVE then Some args else None | _ \<Rightarrow> None)"

definition live_message :: "u64 \<Rightarrow> int \<Rightarrow> daemon event list \<Rightarrow> daemon event \<Rightarrow> bool" where
  "live_message host_id fail_seconds past ev =
    (case test_live_args ev of
       None \<Rightarrow> True
     | Some args \<Rightarrow>
         (\<exists>ts. lease_written host_id ts past \<and>
           args = [args ! 0, uint CMD_TEST_LIVE, 0, uint ts, uint (ts + word_of_int fail_seconds)]))"

definition live_ok :: "u64 \<Rightarrow> int \<Rightarrow> daemon event list \<Rightarrow> bool" where
  "live_ok host_id fail_seconds hist \<longleftrightarrow> each_event (live_message host_id fail_seconds) hist"

abbreviation no_live :: "daemon event \<Rightarrow> bool" where "no_live ev \<equiv> test_live_args ev = None"

lemma no_live_simps [simp]: "\<not> is_call ev \<Longrightarrow> no_live ev" "c \<noteq> ''send'' \<Longrightarrow> no_live (E_call c args rv)"
  "no_live (E_call c (x # y # zs) rv) \<longleftrightarrow> c \<noteq> ''send'' \<or> y \<noteq> 4" 
  by (auto simp: test_live_args_def is_call_def split: event.splits)

lemma lease_written_quiet: "lease_written h ts hist \<Longrightarrow> quiet evs \<Longrightarrow> lease_written h ts (hist @ evs)"
  unfolding lease_written_def by (metis append.assoc append_Cons quiet_simps(3))

lemma live_ok_silent: "list_all no_live evs \<Longrightarrow> live_ok h f (hist @ evs) \<longleftrightarrow> live_ok h f hist"
proof (induction evs rule: rev_induct)
  case (snoc ev evs)
  then show ?case by (simp add: live_ok_def live_message_def flip: append_assoc)
qed simp

lemma runs_silent:
  assumes "adds no_live Q m" and "live_ok h f hist" and "\<And>x evs. Q x evs \<Longrightarrow> live_ok h f (hist @ evs) \<Longrightarrow> R x (hist @ evs)"
  shows "runs R F m hist"
  by (rule adds_runs [OF assms(1)]) (use assms live_ok_silent in blast)

text \<open>Calls that neither write nor extend the expiry.\<close>

abbreviation silent :: "daemon event \<Rightarrow> bool" where "silent ev \<equiv> no_live ev \<and> \<not> is_write ev"

definition calm :: "'a sio \<Rightarrow> bool" where
  "calm m \<longleftrightarrow> adds silent (\<lambda>_ _. True) m"

lemma calm_bnd: "calm m \<Longrightarrow> (\<And>x. calm (f x)) \<Longrightarrow> calm (bnd m f)"
  unfolding calm_def by (rule adds_bnd)

lemma calm_intros [intro!]:
  "calm (Ret x)" "(\<And>rv. no_live (E_call c args rv)) \<Longrightarrow> (\<And>rv. calm (kc rv)) \<Longrightarrow> calm (Call c args kc)"
  "(\<And>s. calm (ks s)) \<Longrightarrow> calm (Shared g ks)" "calm m \<Longrightarrow> calm (Usleep n m)" "(\<And>t. calm (kt t)) \<Longrightarrow> calm (Monotime kt)"
  "(\<And>rv. calm (ko rv)) \<Longrightarrow> calm (Open_path p ko)"
  unfolding calm_def by (auto intro: adds_calls)

lemma runs_calm:
  assumes "calm m" and "live_ok h f hist" and "\<And>x evs. quiet evs \<Longrightarrow> live_ok h f (hist @ evs) \<Longrightarrow> R x (hist @ evs)"
  shows "runs R F m hist"
  by (rule adds_runs [OF assms(1) [unfolded calm_def]]) (use assms live_ok_silent in \<open>auto simp: list_all_iff quiet_def\<close>)


lemma calm_on_space: "calm (on_space sp f)"
  unfolding on_space_def by auto

lemma calm_send: "wh_cmd hdr \<noteq> CMD_TEST_LIVE \<Longrightarrow> calm (send_wdmd_header con hdr)"
  unfolding send_wdmd_header_def neg_errno_def by (auto simp: word_uint_eq_iff)

lemma calm_wdmd:
  "calm (wdmd_register con name)" "calm (wdmd_refcount_set con)" "calm (wdmd_refcount_clear con)" "calm (wdmd_status con)"
  "calm (wdmd_open_watchdog con t)" "calm wdmd_connect"
  unfolding wdmd_register_def wdmd_refcount_set_def wdmd_refcount_clear_def wdmd_status_def wdmd_open_watchdog_def wdmd_connect_def send_header_def neg_errno_def
  by (auto intro!: calm_bnd calm_send)

text \<open>The message itself.\<close>

lemma runs_test_live:
  assumes "live_ok h f hist" and "lease_written h ts hist" and "\<And>rv evs. quiet evs \<Longrightarrow> live_ok h f (hist @ evs) \<Longrightarrow> R rv (hist @ evs)"
  shows "runs R F (wdmd_test_live con ts (ts + word_of_int f)) hist"
proof -
  let ?args = "[con, uint CMD_TEST_LIVE, 0, uint ts, uint (ts + word_of_int f)]"
  have "live_message h f hist (E_call ''send'' ?args rv)" for rv
    using assms(2) by (auto simp: live_message_def test_live_args_def)
  then have "live_ok h f (hist @ [E_call ''send'' ?args rv])" for rv using assms(1) by (simp add: live_ok_def)
  moreover from this have "live_ok h f (hist @ [E_call ''send'' ?args rv, E_call ''errno'' [] e])" for rv e
    using live_ok_silent [of "[E_call ''errno'' [] e]" h f "hist @ [E_call ''send'' ?args rv]"] by simp
  ultimately show ?thesis using assms(3) by (simp add: wdmd_test_live_def send_wdmd_header_def zero_header_def neg_errno_def)
qed

lemma runs_calm_bnd:
  assumes "calm m" and "live_ok h f (hist @ evs)" and "quiet evs"
    and "\<And>x evs'. quiet evs' \<Longrightarrow> live_ok h f (hist @ evs') \<Longrightarrow> runs R F (g x) (hist @ evs')"
  shows "runs R F (bnd m g) (hist @ evs)"
  unfolding runs_bnd
  by (rule runs_calm [OF assms(1,2)]) (use assms(3) assms(4) [of "evs @ evs'" for evs'] in auto)

lemma runs_activate_watchdog:
  assumes "live_ok h f hist" and "lease_written h ts hist" and "\<And>rv evs. live_ok h f (hist @ evs) \<Longrightarrow> quiet evs \<Longrightarrow> R rv (hist @ evs)"
  shows "runs R F (activate_watchdog com sp ts f con) hist"
proof -
  have close: "calm (Call ''close'' [con] (\<lambda>_. Ret (-1 :: int)))" by auto
  then have clear: "calm (bnd (wdmd_refcount_clear con) (\<lambda>_. Call ''close'' [con] (\<lambda>_. Ret (-1 :: int))))" by (auto intro: calm_bnd calm_wdmd)
  have go: "runs R F m (hist @ evs)" if "calm m" "quiet evs" "live_ok h f (hist @ evs)" for m evs
    by (rule runs_calm [OF that(1,3)]) (use assms(3) that(2) in auto)
  have live: "runs R F (bnd (wdmd_test_live con ts (ts + word_of_int f)) g) (hist @ evs)"
    if "quiet evs" "live_ok h f (hist @ evs)" "\<And>rv. calm (g rv)" for evs g
    unfolding runs_bnd
    by (rule runs_test_live [OF that(2) lease_written_quiet [OF assms(2) that(1)]]) (use go that in auto)
  note ends = go [OF close] go [OF clear] go [OF calm_on_space]
  have start: "live_ok h f (hist @ [])" "R rv (hist @ [])" for rv using assms(1) assms(3) [of "[]"] by simp_all
  have "runs R F (activate_watchdog com sp ts f con) (hist @ [])"
    unfolding activate_watchdog_def Let_def
    by (auto intro!: runs_calm_bnd [OF calm_wdmd(1)] runs_calm_bnd [OF calm_wdmd(2)] runs_calm_bnd [OF calm_wdmd(4)] ends live
        close clear calm_on_space start simp del: append_Nil2 runs.simps(12))
  then show ?thesis by simp
qed


section \<open>The lockspace thread\<close>

lemma adds_no_live: "adds (\<lambda>ev. \<not> is_call ev) Q m \<Longrightarrow> adds no_live Q m"
  by (erule adds_mono) simp_all

text \<open>The result of an acquire is \<open>SANLK_OK\<close> or negative.\<close>

lemma wp_leader_read_sign: "wp (\<lambda>(rv, _) _. rv = SANLK_OK \<or> rv < 0) (delta_lease_leader_read ss io disk name h ret) hist"
  by (rule wp_mono [OF wp_delta_lease_leader_read]) (auto simp: leader_was_read_def)

lemma wp_leader_read_then:
  assumes "\<And>rv l h. rv = SANLK_OK \<or> rv < 0 \<Longrightarrow> wp Q (f rv l) h"
  shows "wp Q (bnd (delta_lease_leader_read ss io disk name hid ret) (\<lambda>(rv, l). f rv l)) hist"
  unfolding wp_bnd by (rule wp_mono [OF wp_leader_read_sign]) (use assms in auto)

lemma wp_delta_write_new_sign: "wp (\<lambda>(rv, _) _. rv = SANLK_OK \<or> rv < 0) (delta_write_new sp disk name host hid t l ret) hist"
proof -
  have confirm: "wp (\<lambda>(rv, _) _. rv = SANLK_OK \<or> rv < 0) (delta_confirm sp disk name hid t l1 ret) h" for l1 h
    unfolding delta_confirm_def wp_bnd [of _ "delta_wait _ _"]
    by (rule wp_mono [OF wp_any]) (auto intro!: wp_leader_read_then)
  have "wp (\<lambda>(rv, _) _. rv = SANLK_OK \<or> rv < 0) (bnd m (\<lambda>rv. if rv < 0 then Ret (rv, ret) else delta_confirm sp disk name hid t l1 ret)) h"
    for m l1 h unfolding wp_bnd by (rule wp_mono [OF wp_any]) (use confirm in auto)
  then show ?thesis unfolding delta_write_new_def Let_def by (auto split: prod.splits)
qed

lemma wp_delta_lease_acquire_sign:
  "wp (\<lambda>(rv, _) _. rv = SANLK_OK \<or> rv < 0) (delta_lease_acquire com sp disk name host hid ret) hist"
proof -
  have wait: "wp (\<lambda>(rv, _) _. rv = SANLK_OK \<or> rv < 0) (bnd (delta_wait sp n) (\<lambda>waited. if \<not> waited then Ret (SANLK_ERROR, ret) else g)) h"
    if "\<And>h. wp (\<lambda>(rv, _) _. rv = SANLK_OK \<or> rv < 0) g h" for n g h
    unfolding wp_bnd by (rule wp_mono [OF wp_any]) (use that in auto)
  show ?thesis unfolding delta_lease_acquire_def Let_def
    by (intro wp_leader_read_then) (auto intro!: wait wp_leader_read_then wp_delta_write_new_sign)
qed

lemma no_live_acquire:
  "adds no_live (\<lambda>(rv, l) evs. acquire_result com sp host hid ret (rv, l) evs \<and> (rv = SANLK_OK \<or> rv < 0))
    (delta_lease_acquire com sp disk name host hid ret)"
proof -
  have "wp (\<lambda>(rv, l) evs. acquire_result com sp host hid ret (rv, l) evs \<and> (rv = SANLK_OK \<or> rv < 0))
      (delta_lease_acquire com sp disk name host hid ret) []"
    using wp_delta_lease_acquire wp_delta_lease_acquire_sign by (simp add: wp_conj case_prod_unfold)
  then show ?thesis by (rule adds_no_live [OF adds_plain [OF plain_delta_lease_acquire]])
qed

lemma no_live_plain: "plain m \<Longrightarrow> adds no_live (\<lambda>_ _. True) m"
  by (rule adds_no_live [OF adds_plain [OF _ wp_any]])

text \<open>An acquire that succeeds has written our record.\<close>

lemma acquired_written:
  assumes "acquire_result com sp name host_id ret (SANLK_OK, l) evs"
  shows "lease_written host_id (lr_timestamp l) (hist @ evs)" and "lr_owner_id l = host_id"
proof -
  obtain past d off b evs' where "evs = past @ E_write d off b 0 # evs'" "leader_record_in b = l" "quiet evs'" "lr_owner_id l = host_id"
    using assms by (auto simp: acquire_result_def delta_acquired_def)
  then show "lease_written host_id (lr_timestamp l) (hist @ evs)" "lr_owner_id l = host_id"
    unfolding lease_written_def by (metis append.assoc, blast)
qed

text \<open>So has a renewal.\<close>

lemma renewed_written:
  assumes "renew_result name sp disk prev prev (rv, l, rd, tsk) evs" and "lr_owner_id prev = host_id"
  shows "rv = SANLK_OK \<Longrightarrow> lease_written host_id (lr_timestamp l) (hist @ evs)" and "lr_owner_id l = host_id"
proof -
  have "lease_written host_id (lr_timestamp l) (hist @ evs) \<and> lr_owner_id l = host_id" if ok: "rv = SANLK_OK"
  proof -
    obtain evs' d off b t where evs: "evs = evs' @ [E_write d off b 0, E_time t]" "leader_record_in b = l"
      "renewal_write name sp disk prev (E_write d off b 0)"
      using assms(1) ok by (auto simp: renew_result_def)
    then have own: "lr_owner_id l = host_id" using assms(2) by (simp add: renewal_write_def same_owner_def)
    have "hist @ evs = (hist @ evs') @ E_write d off b 0 # [E_time t]" "quiet ([E_time t] :: daemon event list)" using evs by simp_all
    then show ?thesis unfolding lease_written_def using own evs(2) by blast
  qed
  moreover have "lr_owner_id l = host_id" if "rv \<noteq> SANLK_OK" using assms that by (simp add: renew_result_def)
  ultimately show "rv = SANLK_OK \<Longrightarrow> lease_written host_id (lr_timestamp l) (hist @ evs)" "lr_owner_id l = host_id" by auto
qed

lemma calm_event_fds: "calm (close_event_fds_loop sp is)"
  by (induction "is") (auto intro!: calm_bnd calm_on_space simp: Let_def)

lemma runs_thread_out:
  assumes "live_ok h f hist"
  shows "runs (\<lambda>_. live_ok h f) F (lockspace_thread_out sp leader dr opened) hist"
proof -
  have a: "adds no_live (\<lambda>_ _. True) (if dr = SANLK_OK then delta_lease_release sp (sp_host_id_disk sp) (Some leader) leader else Ret (0, leader))"
    using no_live_plain [OF plain_delta_lease_release] by simp
  have b: "calm (bnd (if opened then Call ''close'' [sd_fd (sp_host_id_disk sp)] (\<lambda>_. Ret ()) else Ret ()) (\<lambda>_.
      Call ''purge_resource_orphans'' [] (\<lambda>_. Call ''purge_resource_free'' [] (\<lambda>_. close_event_fds sp))))"
    by (auto intro!: calm_bnd calm_event_fds simp: close_event_fds_def)
  show ?thesis unfolding lockspace_thread_out_def runs_bnd [of _ _ "if dr = SANLK_OK then _ else _"]
    by (rule runs_silent [OF a assms], rule runs_calm [OF b], assumption)
qed


text \<open>From the end of a renewal on: the watchdog is told of it.\<close>

lemma runs_update_watchdog:
  assumes "live_ok h f hist" and "lease_written h ts hist" and "\<And>evs. live_ok h f (hist @ evs) \<Longrightarrow> R () (hist @ evs)"
  shows "runs R F (update_watchdog com sp ts f) hist"
  unfolding update_watchdog_def using assms(1) assms(3) [of "[]"]
  by (auto simp: runs_bnd intro!: runs_test_live [OF assms(1,2)] assms(3))

lemma runs_renewed:
  assumes ok: "live_ok h f hist" and w: "dr = SANLK_OK \<Longrightarrow> lease_written h ts hist"
    and R: "\<And>evs. live_ok h f (hist @ evs) \<Longrightarrow> R x (hist @ evs)"
  shows "runs R F (bnd (on_space sp (\<lambda>s. (s, p s))) (\<lambda>s.
      bnd (if dr = SANLK_OK \<and> sp_thread_stop s = 0 then update_watchdog com s ts f else Ret ()) (\<lambda>_.
      bnd (on_space sp q) (\<lambda>_. Ret x)))) hist"
proof -
  have last: "runs R F (bnd (on_space sp q) (\<lambda>_. Ret x)) (hist @ evs)" if "live_ok h f (hist @ evs)" for evs
    unfolding runs_bnd by (rule runs_calm [OF calm_on_space that]) (use R in simp)
  have mid: "runs R F (bnd (if dr = SANLK_OK \<and> sp_thread_stop s = 0 then update_watchdog com s ts f else Ret ())
      (\<lambda>_. bnd (on_space sp q) (\<lambda>_. Ret x))) (hist @ evs)" if "live_ok h f (hist @ evs)" "quiet evs" for s evs
  proof (cases "dr = SANLK_OK \<and> sp_thread_stop s = 0")
    case True
    have "runs (\<lambda>_. runs R F (bnd (on_space sp q) (\<lambda>_. Ret x))) F (update_watchdog com s ts f) (hist @ evs)"
      by (rule runs_update_watchdog [OF that(1) lease_written_quiet [OF w that(2)]]) (use True last in auto)
    then show ?thesis using True by (simp only: runs_bnd if_True simp_thms)
  next
    case False
    then show ?thesis using last [OF that(1)] by (simp only: if_False bnd.simps)
  qed
  show ?thesis unfolding runs_bnd [of _ _ "on_space sp (\<lambda>s. (s, p s))"]
    by (rule runs_calm [OF calm_on_space ok]) (use mid in blast)
qed

text \<open>The view of a thread whose lease is acquired.\<close>

definition thread_space :: "space \<Rightarrow> u64 \<Rightarrow> int \<Rightarrow> bool" where
  "thread_space sp h f \<longleftrightarrow> space_ok sp \<and> 0 < h \<and> h \<le> word_of_int (sp_max_hosts sp) \<and>
    f = calc_id_renewal_fail_seconds (uint (sp_io_timeout sp))"

lemma runs_lockspace_renew:
  assumes sp: "thread_space sp h f" and l: "lr_owner_id leader = h" and ok: "live_ok h f hist"
  shows "runs (\<lambda>(l, _) hist'. live_ok h f hist' \<and> lr_owner_id l = h) F (lockspace_renew com sp leader ls dr task) hist"
proof -
  let ?R = "\<lambda>(l, _) hist'. live_ok h f hist' \<and> lr_owner_id l = h"
  have sp': "space_ok sp" "0 < lr_owner_id leader" "lr_owner_id leader \<le> word_of_int (sp_max_hosts sp)"
    "calc_id_renewal_fail_seconds (uint (sp_io_timeout sp)) = f" using sp l by (simp_all add: thread_space_def)
  note renew = adds_no_live [OF adds_plain [OF plain_delta_lease_renew wp_delta_lease_renew [OF sp'(1-3)]]]
  have after: "runs ?R F (case r of (dr, l, rr, tsk) \<Rightarrow> Call ''rd_ms'' [] (\<lambda>rd. Call ''wr_ms'' [] (\<lambda>wr. Monotime (\<lambda>e.
      bnd (on_space sp (\<lambda>s. (s, p dr l rr tsk s))) (\<lambda>s.
      bnd (if dr = SANLK_OK \<and> sp_thread_stop s = 0
           then update_watchdog com s (if dr = SANLK_OK then lr_timestamp l else ls) (calc_id_renewal_fail_seconds (uint (sp_io_timeout sp)))
           else Ret ()) (\<lambda>_.
      bnd (on_space sp (\<lambda>s. ((), q dr l rd wr s))) (\<lambda>_. Ret (l, if dr = SANLK_OK then lr_timestamp l else ls, dr, tsk)))))))) (hist1 @ evs)"
    if r: "renew_result name sp disk leader leader r evs" and ok1: "live_ok h f (hist1 @ evs)" for p q r evs hist1 name disk
  proof -
    obtain dr l rr tsk where [simp]: "r = (dr, l, rr, tsk)" by (cases r)
    have written: "dr = SANLK_OK \<Longrightarrow> lease_written h (lr_timestamp l) (hist1 @ evs)" and own: "lr_owner_id l = h"
      using renewed_written [OF r [simplified] l] by auto
    have "runs ?R F (bnd (on_space sp (\<lambda>s. (s, p dr l rr tsk s))) (\<lambda>s.
        bnd (if dr = SANLK_OK \<and> sp_thread_stop s = 0
             then update_watchdog com s (if dr = SANLK_OK then lr_timestamp l else ls) f else Ret ()) (\<lambda>_.
        bnd (on_space sp (\<lambda>s. ((), q dr l rd wr s))) (\<lambda>_. Ret (l, if dr = SANLK_OK then lr_timestamp l else ls, dr, tsk)))))
        ((hist1 @ evs) @ [E_call ''rd_ms'' [] rd, E_call ''wr_ms'' [] wr, E_time e])" for rd wr e
      by (rule runs_renewed [where f = f and h = h])
        (use live_ok_silent [of "[E_call ''rd_ms'' [] rd, E_call ''wr_ms'' [] wr, E_time e]" h f "hist1 @ evs"] ok1 own lease_written_quiet [OF written] in auto)
    then show ?thesis unfolding sp'(4) by simp
  qed
  have read: "runs ?R F (bnd (delta_lease_renew com sp disk name bm ex dr0 (Some leader) leader SANLK_ERROR task) g) hist1"
    if "live_ok h f hist1" "\<And>r evs. renew_result name sp disk leader leader r evs \<Longrightarrow> live_ok h f (hist1 @ evs) \<Longrightarrow> runs ?R F (g r) (hist1 @ evs)"
    for g hist1 bm ex dr0 disk name
    unfolding runs_bnd by (rule runs_silent [OF renew that(1)]) (rule that(2))
  have time: "live_ok h f (hist1 @ [E_time t])" if "live_ok h f hist1" for t hist1 using that live_ok_silent [of "[E_time t]"] by simp
  show ?thesis
    unfolding lockspace_renew_def Let_def runs.simps
  proof (intro allI, rule runs_calm_bnd [OF calm_on_space time [OF ok]])
    fix now x evs assume "live_ok h f (hist @ evs)"
    then have "live_ok h f ((hist @ evs) @ [E_time t])" for t by (rule time)
    then show "runs ?R F (case x of (bitmap, extra) \<Rightarrow> Monotime (\<lambda>delta_begin.
        bnd (delta_lease_renew com sp (sp_host_id_disk sp) (sp_space_name sp) bitmap (Some extra) dr (Some leader) leader SANLK_ERROR task)
         (\<lambda>(dr, l, rr, tsk). Call ''rd_ms'' [] (\<lambda>rd. Call ''wr_ms'' [] (\<lambda>wr. Monotime (\<lambda>e.
          bnd (on_space sp (\<lambda>s. (s, publish_renewal dr rr delta_begin (if dr = SANLK_OK then lr_timestamp l else ls) tsk s))) (\<lambda>s.
          bnd (if dr = SANLK_OK \<and> sp_thread_stop s = 0
               then update_watchdog com s (if dr = SANLK_OK then lr_timestamp l else ls) (calc_id_renewal_fail_seconds (uint (sp_io_timeout sp)))
               else Ret ()) (\<lambda>_.
          bnd (on_space sp (\<lambda>s. ((), save_renewal_history s dr (if dr = SANLK_OK then lr_timestamp l else ls) rd wr))) (\<lambda>_.
            Ret (l, if dr = SANLK_OK then lr_timestamp l else ls, dr, tsk)))))))))) (hist @ evs)"
      by (cases x) (simp only: prod.case runs.simps, intro allI, rule read, blast, rule after)
  qed simp
qed


lemma runs_renew_loop:
  assumes "thread_space sp h f" and "lr_owner_id leader = h" and "live_ok h f hist"
  shows "runs (\<lambda>_. live_ok h f) (live_ok h f) (lockspace_renew_loop com sp leader ls dr task fuel) hist"
  using assms(2,3)
proof (induction fuel arbitrary: leader ls dr task hist)
  case (Suc fuel)
  have silent: "live_ok h f (hist @ evs)" if "list_all no_live evs" for evs using Suc.prems(2) that by (simp add: live_ok_silent)
  have wait: "runs (\<lambda>_. live_ok h f) (live_ok h f) (lockspace_renew_loop com sp leader ls dr task fuel) (hist @ [E_shared dm, E_time t, E_sleep 1])" for dm t
    by (rule Suc.IH [OF Suc.prems(1) silent]) simp
  have renew: "runs (\<lambda>_. live_ok h f) (live_ok h f) (bnd (lockspace_renew com sp leader ls dr task) (\<lambda>(leader, ls, dr, task).
      lockspace_renew_loop com sp leader ls dr task fuel)) (hist @ [E_shared dm, E_time t, E_usleep 500000])" for dm t
    unfolding runs_bnd
    by (rule runs_mono [OF runs_lockspace_renew [OF assms(1) Suc.prems(1) silent, where F = "live_ok h f"]]) (use Suc.IH in auto)
  show ?case using wait renew silent [of "[E_shared dm]" for dm] by simp
qed simp

lemma runs_thread_status:
  assumes "res < 0 \<or> thread_space sp h f \<and> lr_owner_id leader = h" and "live_ok h f hist"
  shows "runs (\<lambda>_. live_ok h f) (live_ok h f) (lockspace_thread_status com sp opened db leader ls res dr fuel) hist"
proof -
  have loop: "runs (\<lambda>_. live_ok h f) (live_ok h f)
      (bnd (lockspace_renew_loop com (sp\<lparr>sp_host_generation := g\<rparr>) leader ls dr task fuel) (\<lambda>(leader, dr).
        Get_shared (\<lambda>dm. bnd (disconnect_watchdog com (current_space dm sp)) (\<lambda>_. lockspace_thread_out sp leader dr opened)))) hist1"
    if "live_ok h f hist1" "thread_space sp h f" "lr_owner_id leader = h" for hist1 g task
  proof -
    have sp: "thread_space (sp\<lparr>sp_host_generation := g\<rparr>) h f" using that(2) by (simp add: thread_space_def space_ok_def)
    have disc: "calm (disconnect_watchdog com s)" for s by (auto simp: disconnect_watchdog_def)
    have "runs (\<lambda>_. live_ok h f) (live_ok h f)
        (bnd (disconnect_watchdog com s) (\<lambda>_. lockspace_thread_out sp l d opened)) (hist2 @ [E_shared dm])"
      if "live_ok h f hist2" for hist2 s l d dm
      unfolding runs_bnd
      by (rule runs_calm [OF disc]) (use that live_ok_silent [of "[E_shared dm]"] in \<open>auto intro: runs_thread_out\<close>)
    then show ?thesis unfolding runs_bnd [of _ _ "lockspace_renew_loop _ _ _ _ _ _ _"]
      by (intro runs_mono [OF runs_renew_loop [OF sp that(3,1)]]) auto
  qed
  have gen: "runs (\<lambda>_. live_ok h f) (live_ok h f) (bnd (on_space sp (\<lambda>s. ((), g s))) (\<lambda>_.
      bnd (lockspace_renew_loop com (sp\<lparr>sp_host_generation := lr_owner_generation leader\<rparr>) leader ls dr task fuel) (\<lambda>(leader, dr).
        Get_shared (\<lambda>dm. bnd (disconnect_watchdog com (current_space dm sp)) (\<lambda>_. lockspace_thread_out sp leader dr opened))))) hist1"
    if "live_ok h f hist1" "thread_space sp h f" "lr_owner_id leader = h" for hist1 g task
    unfolding runs_bnd [of _ _ "on_space sp _"]
    by (rule runs_calm [OF calm_on_space that(1)]) (use loop that in auto)
  show ?thesis unfolding lockspace_thread_status_def runs_bnd [of _ _ "on_space sp (\<lambda>s. ((), publish_acquire _ _ _ _ s))"]
    by (rule runs_calm [OF calm_on_space assms(2)]) (use assms(1) gen in \<open>auto intro: runs_thread_out\<close>)
qed

lemma runs_thread_acquire:
  assumes "thread_space sp h f" and "h = sp_host_id sp" and "live_ok h f hist"
  shows "runs (\<lambda>_. live_ok h f) (live_ok h f) (lockspace_thread_acquire com name sp con fuel) hist"
proof -
  let ?R = "runs (\<lambda>_. live_ok h f) (live_ok h f)"
  have silent: "live_ok h f (hist1 @ evs)" if "live_ok h f hist1" "list_all no_live evs" for hist1 evs using that by (simp add: live_ok_silent)
  have status: "?R (lockspace_thread_status com sp True db l ls res dr fuel) hist1"
    if "live_ok h f hist1" "res < 0 \<or> lr_owner_id l = h" for db l ls res dr hist1
    using runs_thread_status [of res sp h f l] that assms(1) by blast
  have f: "calc_id_renewal_fail_seconds (uint (sp_io_timeout sp)) = f" using assms(1) by (simp add: thread_space_def)
  have acquired: "?R (bnd (activate_watchdog com sp (lr_timestamp l) f con) (\<lambda>rv.
      lockspace_thread_status com sp True db l (lr_timestamp l) (if rv < 0 then SANLK_WD_ERROR else dr) dr fuel)) hist1"
    if "live_ok h f hist1" "lease_written h (lr_timestamp l) hist1" "lr_owner_id l = h" for db l dr hist1
    unfolding runs_bnd by (rule runs_activate_watchdog [OF that(1,2)]) (use status that in auto)
  have failed: "?R (if com_use_watchdog com \<noteq> 0 then Call ''close'' [con] (\<lambda>_. lockspace_thread_status com sp True db l 0 dr dr fuel)
      else lockspace_thread_status com sp True db l 0 dr dr fuel) hist1" if "live_ok h f hist1" "dr < 0" for db l dr hist1
    using status [of hist1 dr] status [of "hist1 @ [E_call ''close'' [con] rv]" dr for rv] that silent [OF that(1), of "[E_call ''close'' [con] rv]" for rv] by simp
  have body: "?R (case r of (dr, l) \<Rightarrow> Monotime (\<lambda>e. if dr = SANLK_OK
        then bnd (activate_watchdog com sp (lr_timestamp l) (calc_id_renewal_fail_seconds (uint (sp_io_timeout sp))) con) (\<lambda>rv.
          lockspace_thread_status com sp True db l (lr_timestamp l) (if rv < 0 then SANLK_WD_ERROR else dr) dr fuel)
        else if com_use_watchdog com \<noteq> 0 then Call ''close'' [con] (\<lambda>_. lockspace_thread_status com sp True db l 0 dr dr fuel)
        else lockspace_thread_status com sp True db l 0 dr dr fuel)) (hist1 @ evs)"
    if "(\<lambda>(rv, l) evs. acquire_result com sp name h zero_leader (rv, l) evs \<and> (rv = SANLK_OK \<or> rv < 0)) r evs" "live_ok h f (hist1 @ evs)" for r evs db hist1
  proof (cases r)
    case (Pair dr l)
    have t: "live_ok h f ((hist1 @ evs) @ [E_time e])" for e by (rule silent [OF that(2)]) simp
    show ?thesis
    proof (cases "dr = SANLK_OK")
      case True
      have "lease_written h (lr_timestamp l) ((hist1 @ evs) @ [E_time e])" "lr_owner_id l = h" for e
        using acquired_written(1) [where hist = hist1] acquired_written(2) that(1) True Pair by (auto intro: lease_written_quiet simp del: append_assoc)
      then show ?thesis using True Pair acquired [OF t] unfolding f by simp
    next
      case False
      then show ?thesis using that(1) Pair failed [OF t] by simp
    qed
  qed
  have time: "live_ok h f (hist @ [E_time t])" for t by (rule silent [OF assms(3)]) simp
  show ?thesis unfolding lockspace_thread_acquire_def Let_def runs.simps
    unfolding runs_bnd [of _ _ "delta_lease_acquire _ _ _ _ _ _ _"] assms(2) [symmetric]
    by (intro allI, rule runs_silent [OF no_live_acquire time], rule body)
qed


lemma thread_space_sizes:
  assumes "size_to_max_hosts ss al \<noteq> 0" and "length (sp_host_status sp) = DEFAULT_MAX_HOSTS" and "0 < h" and "h \<le> word_of_int (size_to_max_hosts ss al)"
  shows "thread_space (sp\<lparr>sp_sector_size := ss, sp_align_size := al, sp_max_hosts := size_to_max_hosts ss al\<rparr>) h
    (calc_id_renewal_fail_seconds (uint (sp_io_timeout sp)))"
  using assms by (auto simp: thread_space_def space_ok_def size_to_max_hosts_def align_sizes_def split: if_splits)

lemma calm_open_disk: "calm (open_disk probe disk)"
  unfolding open_disk_def by (auto split: disk_probe.splits)

lemma calm_watchdog: "calm (connect_watchdog com)" "calm (open_watchdog com con t)" "calm (disconnect_watchdog com sp)"
  by (auto simp: connect_watchdog_def open_watchdog_def disconnect_watchdog_def intro!: calm_bnd calm_wdmd)

lemma runs_thread_failed:
  "res < 0 \<Longrightarrow> live_ok h f hist \<Longrightarrow> runs (\<lambda>_. live_ok h f) (live_ok h f) (lockspace_thread_failed com sp opened db res fuel) hist"
  unfolding lockspace_thread_failed_def using runs_thread_status by blast

lemma runs_then_calm:
  assumes "calm m" and "live_ok h f hist" and "\<And>x hist. live_ok h f hist \<Longrightarrow> runs (\<lambda>_. live_ok h f) (live_ok h f) (k x) hist"
  shows "runs (\<lambda>_. live_ok h f) (live_ok h f) (bnd m k) hist"
  unfolding runs_bnd by (rule runs_calm [OF assms(1,2)]) (use assms(3) in auto)

lemma runs_then_call:
  assumes "c \<noteq> ''send''" and "live_ok h f hist" and "\<And>x hist. live_ok h f hist \<Longrightarrow> runs (\<lambda>_. live_ok h f) (live_ok h f) (k x) hist"
  shows "runs (\<lambda>_. live_ok h f) (live_ok h f) (Call c xs k) hist"
  using assms live_ok_silent [of "[E_call c xs rv]" h f hist for rv] by simp

lemma runs_thread_sizes:
  assumes sp: "length (sp_host_status sp) = DEFAULT_MAX_HOSTS" "0 < sp_host_id sp" "f = calc_id_renewal_fail_seconds (uint (sp_io_timeout sp))"
    and ok: "live_ok (sp_host_id sp) f hist"
  shows "runs (\<lambda>_. live_ok (sp_host_id sp) f) (live_ok (sp_host_id sp) f) (lockspace_thread_sizes com name sp db ss al fuel) hist"
proof (cases "size_to_max_hosts ss al \<noteq> 0 \<and> sp_host_id sp \<le> word_of_int (size_to_max_hosts ss al)")
  case True
  define sp' where "sp' = sp\<lparr>sp_sector_size := ss, sp_align_size := al, sp_max_hosts := size_to_max_hosts ss al\<rparr>"
  have t: "thread_space sp' (sp_host_id sp) f" "sp_host_id sp = sp_host_id sp'"
    using thread_space_sizes [of ss al sp "sp_host_id sp"] True sp by (simp_all add: sp'_def)
  show ?thesis unfolding lockspace_thread_sizes_def Let_def sp'_def [symmetric]
    by (auto intro!: runs_then_calm [OF calm_on_space] runs_then_calm [OF calm_watchdog(1)] runs_then_calm [OF calm_watchdog(2)]
        runs_then_calm [OF calm_watchdog(3)] runs_then_call runs_thread_failed ok runs_thread_acquire [OF t] simp del: runs.simps)
next
  case False
  then show ?thesis by (auto simp: lockspace_thread_sizes_def Let_def not_le intro!: runs_thread_failed ok)
qed

lemma runs_lockspace_thread:
  assumes sp: "length (sp_host_status sp) = DEFAULT_MAX_HOSTS" "0 < sp_host_id sp" "f = calc_id_renewal_fail_seconds (uint (sp_io_timeout sp))"
  shows "runs (\<lambda>_. live_ok (sp_host_id sp) f) (live_ok (sp_host_id sp) f) (lockspace_thread com probe name sp fuel) []"
proof -
  let ?h = "sp_host_id sp"
  let ?R = "runs (\<lambda>_. live_ok ?h f) (live_ok ?h f)"
  have sizes: "?R (lockspace_thread_sizes com name (sp\<lparr>sp_host_id_disk := d\<rparr>) db ss al fuel) hist" if "live_ok ?h f hist" for d db ss al hist
    using runs_thread_sizes [of "sp\<lparr>sp_host_id_disk := d\<rparr>" f hist] sp that by simp
  have read: "?R (bnd (delta_read_lockspace_sizes disk io 0 0) (\<lambda>(rv, ss, al).
      if rv < 0 then lockspace_thread_failed com (sp\<lparr>sp_host_id_disk := d\<rparr>) True db rv fuel
      else lockspace_thread_sizes com name (sp\<lparr>sp_host_id_disk := d\<rparr>) db ss al fuel)) hist" if "live_ok ?h f hist" for disk io d db hist
    unfolding runs_bnd by (rule runs_silent [OF no_live_plain [OF plain_read_sizes] that]) (auto intro!: runs_thread_failed sizes)
  have "live_ok ?h f [E_time t]" for t using live_ok_silent [of "[E_time t]" ?h f "[]"] by (simp add: live_ok_def)
  then show ?thesis unfolding lockspace_thread_def Let_def runs.simps append_Nil
    by (auto intro!: runs_then_calm [OF calm_open_disk] runs_then_calm [OF calm_on_space] runs_thread_failed read simp del: runs.simps)
qed

section \<open>Properties\<close>

text \<open>
  C3: The watchdog follows the lease.  In every run of the lockspace thread, also one that never ends, each
  message that sets the expiry of the lockspace at the watchdog daemon carries the timestamp of the last
  record that was written to the disk, a record of our own host id whose write succeeded, and the expiry is
  that timestamp plus the seconds after which a host without renewal counts as failed.
\<close>

theorem watchdog_follows_lease:
  assumes "lsp_host_id ls \<noteq> 0" and "fail_seconds = calc_id_renewal_fail_seconds (uint io_timeout)"
  shows "runs (\<lambda>_. each_event (live_message (lsp_host_id ls) fail_seconds)) (each_event (live_message (lsp_host_id ls) fail_seconds))
    (lockspace_thread com probe our_host_name (new_space com ls io_timeout history) fuel) []"
proof -
  have "length (sp_host_status (new_space com ls io_timeout history)) = DEFAULT_MAX_HOSTS" "0 < sp_host_id (new_space com ls io_timeout history)"
    "fail_seconds = calc_id_renewal_fail_seconds (uint (sp_io_timeout (new_space com ls io_timeout history)))"
    using assms by (simp_all add: new_space_def word_neq_0_conv)
  from runs_lockspace_thread [OF this] show ?thesis by (simp add: live_ok_def [abs_def] new_space_def)
qed


definition sample_lockspace :: sanlk_lockspace where
  "sample_lockspace = \<lparr>lsp_name = ascii ''LS'', lsp_host_id = 1, lsp_flags = 0,
     lsp_host_id_disk = \<lparr>sd_path = ''/dev/vg/ls'', sd_offset = 0, sd_sector_size = 0, sd_fd = -1\<rparr>\<rparr>"

theorem watchdog_follows_lease_witness:
  "runs (\<lambda>_. each_event (live_message 1 80)) (each_event (live_message 1 80))
    (lockspace_thread default_com (\<lambda>_. Regular_file) [] (new_space default_com sample_lockspace 10 False) 5) []"
proof -
  have "lsp_host_id sample_lockspace = 1" by (simp add: sample_lockspace_def)
  then show ?thesis
    using watchdog_follows_lease [of sample_lockspace 80 10 default_com "\<lambda>_. Regular_file" "[]" False 5]
    by (simp add: calc_id_renewal_fail_seconds_def)
qed



end
