(* ===== verification/Rindex.thy ===== *)
theory Rindex
  imports Paxos_Acquire Lockspace_Ops
begin

text \<open>
  The resource index: \<open>src/rindex.c\<close>.  An index is an area of the disk with a header sector and one entry per
  resource lease of the following areas; it is protected by a resource lease of its own in the second area.

  A read outside of the buffer of the index returns unknown memory.  A run that divides by zero, follows a
  null pointer or writes outside of a buffer ends there (\<open>trap\<close>), as the header on the disk is not checked
  for the sizes in it.  The product of an entry number and the area size is an \<open>int\<close>, which wraps.
\<close>

abbreviation SANLK_RINDEX_MAGIC :: int where "SANLK_RINDEX_MAGIC \<equiv> -274"
abbreviation SANLK_RINDEX_VERSION :: int where "SANLK_RINDEX_VERSION \<equiv> -275"
abbreviation SANLK_RINDEX_LOCKSPACE :: int where "SANLK_RINDEX_LOCKSPACE \<equiv> -276"
abbreviation SANLK_RINDEX_OFFSET :: int where "SANLK_RINDEX_OFFSET \<equiv> -277"
abbreviation SANLK_RINDEX_DIFF :: int where "SANLK_RINDEX_DIFF \<equiv> -278"

abbreviation RX_OP_CREATE :: u32 where "RX_OP_CREATE \<equiv> 2"
abbreviation RX_OP_DELETE :: u32 where "RX_OP_DELETE \<equiv> 3"
abbreviation RX_OP_LOOKUP :: u32 where "RX_OP_LOOKUP \<equiv> 4"
abbreviation RX_OP_UPDATE :: u32 where "RX_OP_UPDATE \<equiv> 5"
abbreviation RX_OP_REBUILD :: u32 where "RX_OP_REBUILD \<equiv> 6"

abbreviation RINDEX_DISK_MAGIC :: u32 where "RINDEX_DISK_MAGIC \<equiv> 0x01042018"
abbreviation RINDEX_DISK_VERSION_MAJOR :: u32 where "RINDEX_DISK_VERSION_MAJOR \<equiv> 0x00010000"
abbreviation RINDEX_DISK_VERSION_MINOR :: u32 where "RINDEX_DISK_VERSION_MINOR \<equiv> 0x00000002"

abbreviation PAXOS_ACQUIRE_QUIET_FAIL :: u32 where "PAXOS_ACQUIRE_QUIET_FAIL \<equiv> 0x00000002"

abbreviation SANLK_RX_NO_LOCKSPACE :: u32 where "SANLK_RX_NO_LOCKSPACE \<equiv> 0x1"
abbreviation SANLK_RXUP_ADD :: u32 where "SANLK_RXUP_ADD \<equiv> 0x00010000"
abbreviation SANLK_RXUP_REM :: u32 where "SANLK_RXUP_REM \<equiv> 0x00020000"

section \<open>Data\<close>

record sanlk_rindex =
  ri_flags :: u32
  ri_max_resources :: u32
  ri_lockspace_name :: bytes
  ri_disk :: sync_disk

record sanlk_rentry =
  rn_name :: bytes
  rn_offset :: u64

record rindex_info =
  rx_ri :: sanlk_rindex
  rx_header :: rindex_header

abbreviation rx_disk :: "rindex_info \<Rightarrow> sync_disk" where "rx_disk rx \<equiv> ri_disk (rx_ri rx)"

definition rx_sector_size :: "rindex_info \<Rightarrow> int" where
  "rx_sector_size rx = sint (rh_sector_size (rx_header rx))"

definition rx_align_size :: "rindex_info \<Rightarrow> int" where
  "rx_align_size rx = rindex_header_align_size_from_flag (rh_flags (rx_header rx))"

definition zero_rheader :: rindex_header where
  "zero_rheader = \<lparr>rh_magic = 0, rh_version = 0, rh_flags = 0, rh_sector_size = 0, rh_max_resources = 0, rh_unused = 0,
     rh_rx_offset = 0, rh_lockspace_name = replicate NAME_ID_SIZE 0\<rparr>"

definition zero_space_info :: space_info where
  "zero_space_info = \<lparr>spi_space_id = 0, spi_io_timeout = 0, spi_host_id = 0, spi_host_generation = 0,
     spi_sector_size = 0, spi_align_size = 0, spi_killing_pids = 0\<rparr>"

definition trap :: "'a sio" where
  "trap = Out_of_fuel"

text \<open>The \<open>n\<close> bytes at \<open>off\<close> of a buffer, \<open>None\<close> for a null pointer.\<close>

definition mem_at :: "bytes option \<Rightarrow> nat \<Rightarrow> nat \<Rightarrow> bytes sio" where
  "mem_at buf off n =
    (case buf of None \<Rightarrow> trap
     | Some b \<Rightarrow> if off + n \<le> length b then Ret (slice off n b) else Uninit n Ret)"

section \<open>Tokens\<close>

definition rindex_lease_name :: bytes where
  "rindex_lease_name = strncpy NAME_ID_SIZE (ascii ''rindex_lease'')"

definition setup_token :: "rindex_info \<Rightarrow> bytes \<Rightarrow> u64 \<Rightarrow> int \<Rightarrow> int \<Rightarrow> u32 \<Rightarrow> u64 \<Rightarrow> u64 \<Rightarrow> token" where
  "setup_token rx name offset sector_size align_size io_timeout host_id host_generation =
    \<lparr>tk_host_id = host_id, tk_host_generation = host_generation, tk_io_timeout = io_timeout, tk_flags = 0,
     tk_sector_size = sector_size, tk_align_size = align_size, tk_shared_count = 0,
     tk_shared_bitmap = replicate HOSTID_BITMAP_SIZE 0,
     tk_disks = [\<lparr>sd_path = sd_path (rx_disk rx), sd_offset = offset, sd_sector_size = 0, sd_fd = sd_fd (rx_disk rx)\<rparr>],
     tk_r = \<lparr>r_lockspace_name = ri_lockspace_name (rx_ri rx), r_name = name, r_lver = 0, r_data64 = 0, r_data32 = 0,
       r_flags = sanlk_res_sector_size_to_flag sector_size OR sanlk_res_align_size_to_flag align_size\<rparr>\<rparr>"

definition setup_rindex_token :: "com_options \<Rightarrow> rindex_info \<Rightarrow> int \<Rightarrow> int \<Rightarrow> space_info option \<Rightarrow> token option sio" where
  "setup_rindex_token com rx sector_size align_size spi =
    Call ''malloc'' [] (\<lambda>null.
      let offset = sd_offset (rx_disk rx) + word_of_int align_size
      in if null \<noteq> 0 then Ret None
         else case spi of
           None \<Rightarrow> Ret (Some (setup_token rx rindex_lease_name offset sector_size align_size (word_of_int (com_io_timeout com)) 0 0))
         | Some s \<Rightarrow> Ret (Some (setup_token rx rindex_lease_name offset sector_size align_size (spi_io_timeout s)
                                (spi_host_id s) (spi_host_generation s))))"

definition setup_resource_token :: "rindex_info \<Rightarrow> bytes \<Rightarrow> int \<Rightarrow> int \<Rightarrow> space_info \<Rightarrow> token option sio" where
  "setup_resource_token rx res_name sector_size align_size spi =
    Call ''malloc'' [] (\<lambda>null.
      if null \<noteq> 0 then Ret None
      else Ret (Some (setup_token rx res_name 0 sector_size align_size (spi_io_timeout spi) 0 0)))"

definition set_token_offset :: "u64 \<Rightarrow> token \<Rightarrow> token" where
  "set_token_offset offset tk = tk\<lparr>tk_disks := map (\<lambda>d. d\<lparr>sd_offset := offset\<rparr>) (tk_disks tk)\<rparr>"

section \<open>Entries\<close>

definition size_to_max_resources :: "int \<Rightarrow> int \<Rightarrow> u32" where
  "size_to_max_resources sector_size align_size =
    (if sector_size = 512 \<and> align_size = ALIGN_SIZE_1M then 16000
     else if sector_size = 4096 \<and> align_size = ALIGN_SIZE_1M then 16000
     else if sector_size = 4096 \<and> align_size = ALIGN_SIZE_2M then 32000
     else if sector_size = 4096 \<and> align_size = ALIGN_SIZE_4M then 64000
     else if sector_size = 4096 \<and> align_size = ALIGN_SIZE_8M then 128000
     else 16000)"

definition rx_max_resources :: "rindex_info \<Rightarrow> u32" where
  "rx_max_resources rx =
    (if rh_max_resources (rx_header rx) = 0 then size_to_max_resources (rx_sector_size rx) (rx_align_size rx)
     else rh_max_resources (rx_header rx))"

text \<open>The place of entry \<open>i\<close> in the index, the place of its resource lease, and the entry of a resource lease.\<close>

definition entry_offset :: "rindex_info \<Rightarrow> int \<Rightarrow> u64" where
  "entry_offset rx i = word_of_int (rx_sector_size rx) + word_of_int i * of_nat rentry_size"

definition entry_res_offset :: "rindex_info \<Rightarrow> nat \<Rightarrow> u64" where
  "entry_res_offset rx i =
    sd_offset (rx_disk rx) + word_of_int (2 * rx_align_size rx) +
      word_of_int (sint (word_of_int (int i * rx_align_size rx) :: u32))"

definition entry_num :: "rindex_info \<Rightarrow> u64 \<Rightarrow> int" where
  "entry_num rx res_offset =
    sint (ucast ((res_offset - sd_offset (rx_disk rx) - word_of_int (2 * rx_align_size rx)) div word_of_int (rx_align_size rx)) :: u32)"

text \<open>Whether the search stops at an entry: at a free one, or at one with the name.\<close>

definition entry_matches :: "bytes option \<Rightarrow> rindex_entry \<Rightarrow> bool" where
  "entry_matches find_name re =
    (case find_name of
       None \<Rightarrow> re_res_offset re = 0 \<and> re_name re ! 0 = 0
     | Some name \<Rightarrow> re_name re ! 0 \<noteq> 0 \<and> strneq NAME_ID_SIZE (re_name re) name)"

fun search_entries_loop :: "rindex_info \<Rightarrow> bytes option \<Rightarrow> bytes option \<Rightarrow> nat \<Rightarrow> nat \<Rightarrow> (int \<times> u64 \<times> u64) sio" where
  "search_entries_loop rx rindex_iobuf find_name i 0 = Ret (- ENOENT, 0, 0)"
| "search_entries_loop rx rindex_iobuf find_name i (Suc n) =
    bnd (mem_at rindex_iobuf (unat (entry_offset rx (int i))) rentry_size) (\<lambda>re_end.
      if entry_matches find_name (rindex_entry_in re_end)
      then Ret (0, entry_offset rx (int i), entry_res_offset rx i)
      else search_entries_loop rx rindex_iobuf find_name (i + 1) n)"

text \<open>
  The callers either look for a free entry (\<open>find_name = None\<close>) or for a name.  The two offsets are only
  used when the search succeeds.
\<close>

definition search_entries :: "rindex_info \<Rightarrow> bytes option \<Rightarrow> bytes option \<Rightarrow> (int \<times> u64 \<times> u64) sio" where
  "search_entries rx rindex_iobuf find_name =
    search_entries_loop rx rindex_iobuf find_name 0 (unat (rx_max_resources rx))"

definition updated_entry :: "sanlk_rentry \<Rightarrow> u64 \<Rightarrow> bool \<Rightarrow> rindex_entry" where
  "updated_entry re res_offset op_delete =
    (if op_delete then \<lparr>re_res_offset = 0, re_flags = 0, re_unused = 0, re_name = replicate NAME_ID_SIZE 0\<rparr>
     else \<lparr>re_res_offset = res_offset, re_flags = 0, re_unused = 0, re_name = rn_name re\<rparr>)"

definition update_rindex ::
    "space_info \<Rightarrow> rindex_info \<Rightarrow> bytes option \<Rightarrow> sanlk_rentry \<Rightarrow> u64 \<Rightarrow> u64 \<Rightarrow> bool \<Rightarrow> int sio" where
  "update_rindex spi rx rindex_iobuf re ent_offset res_offset op_delete =
    (let sector_size = word_of_int (rx_sector_size rx) :: u64
     in
       if sector_size = 0 then trap
       else
         (let sector_offset = ucast ((ent_offset div sector_size) * sector_size) :: u32;
              entry_offset_in_sector = ucast (ent_offset mod sector_size) :: u32
          in Posix_memalign (unat sector_size) (\<lambda>rv mem.
            if rv \<noteq> 0 then Ret rv
            else bnd (mem_at rindex_iobuf (unat sector_offset) (unat sector_size)) (\<lambda>sector.
              let re_end = rindex_entry_out (updated_entry re res_offset op_delete) (replicate rentry_size 0)
              in if unat entry_offset_in_sector + rentry_size > unat sector_size then trap
                 else Write_iobuf (rx_disk rx) (sd_offset (rx_disk rx) + ucast sector_offset)
                   (splice_at (unat entry_offset_in_sector) re_end sector) (uint (spi_io_timeout spi)) Ret))))"

section \<open>Reading the index\<close>

definition read_rindex :: "space_info \<Rightarrow> rindex_info \<Rightarrow> (int \<times> bytes option) sio" where
  "read_rindex spi rx =
    Posix_memalign (size_t (rx_align_size rx)) (\<lambda>rv mem.
      if rv \<noteq> 0 then Ret (rv, None)
      else Read_iobuf (rx_disk rx) (sd_offset (rx_disk rx)) (size_t (rx_align_size rx)) (uint (spi_io_timeout spi)) (\<lambda>rv iobuf.
        if rv < 0 then Ret (rv, None) else Ret (rv, Some iobuf)))"

definition check_rindex_header :: "rindex_info \<Rightarrow> int \<Rightarrow> int" where
  "check_rindex_header rx rv =
    (if rh_magic (rx_header rx) \<noteq> RINDEX_DISK_MAGIC then SANLK_RINDEX_MAGIC
     else if rh_version (rx_header rx) AND 0xFFFF0000 \<noteq> RINDEX_DISK_VERSION_MAJOR then SANLK_RINDEX_VERSION
     else if cstr (rh_lockspace_name (rx_header rx)) \<noteq> cstr (ri_lockspace_name (rx_ri rx)) then SANLK_RINDEX_LOCKSPACE
     else if rh_rx_offset (rx_header rx) \<noteq> sd_offset (rx_disk rx) then SANLK_RINDEX_OFFSET
     else rv)"

definition read_rindex_header :: "com_options \<Rightarrow> space_info \<Rightarrow> rindex_info \<Rightarrow> (int \<times> space_info \<times> rindex_info) sio" where
  "read_rindex_header com spi rx =
    (let sector_size = (if spi_sector_size spi = 0 then 4096 else spi_sector_size spi);
         spi = (if spi_io_timeout spi = 0 then spi\<lparr>spi_io_timeout := word_of_int (com_io_timeout com)\<rparr> else spi)
     in Posix_memalign (size_t sector_size) (\<lambda>rv mem.
       if rv \<noteq> 0 then Ret (- ENOMEM, spi, rx)
       else Read_iobuf (rx_disk rx) (sd_offset (rx_disk rx)) (size_t sector_size) (uint (spi_io_timeout spi)) (\<lambda>rv iobuf.
         if rv < 0 then Ret (rv, spi, rx)
         else (let rx = rx\<lparr>rx_header := rindex_header_in iobuf\<rparr> in Ret (check_rindex_header rx rv, spi, rx)))))"

section \<open>Formatting\<close>

definition new_rindex_header :: "sanlk_rindex \<Rightarrow> int \<Rightarrow> int \<Rightarrow> u32 \<Rightarrow> rindex_header" where
  "new_rindex_header ri sector_size align_size max_resources =
    \<lparr>rh_magic = RINDEX_DISK_MAGIC, rh_version = RINDEX_DISK_VERSION_MAJOR OR RINDEX_DISK_VERSION_MINOR,
     rh_flags = rindex_header_align_flag_from_size align_size, rh_sector_size = word_of_int sector_size,
     rh_max_resources = max_resources, rh_unused = 0, rh_rx_offset = sd_offset (ri_disk ri),
     rh_lockspace_name = strncpy NAME_ID_SIZE (ri_lockspace_name ri)\<rparr>"

definition format_max_resources :: "u32 \<Rightarrow> int \<Rightarrow> int \<Rightarrow> u32" where
  "format_max_resources max_resources sector_size align_size =
    min (if max_resources = 0 then 4096 else max_resources) (size_to_max_resources sector_size align_size)"

definition rindex_format :: "com_options \<Rightarrow> (string \<Rightarrow> disk_probe) \<Rightarrow> sanlk_rindex \<Rightarrow> int sio" where
  "rindex_format com probe ri =
    bnd (open_disk probe (ri_disk ri)) (\<lambda>(rv, disk).
      if rv < 0 then Ret rv
      else case sizes_from_flags (ri_flags ri) ''RIF'' of (rv, sector_size, align_size, max_hosts) \<Rightarrow>
        if rv \<noteq> 0 then Ret rv
        else
          (let ri = ri\<lparr>ri_disk := disk\<rparr>;
               (sector_size, align_size) =
                 (if sector_size = 0
                  then (let ss = sint (sd_sector_size disk) in (ss, sector_size_to_align_size_old ss)) else (sector_size, align_size));
               rh = new_rindex_header ri sector_size align_size (format_max_resources (ri_max_resources ri) sector_size align_size);
               iobuf_len = size_t align_size;
               out_close = (\<lambda>rv. Call ''close'' [sd_fd disk] (\<lambda>_. Ret rv))
           in Posix_memalign iobuf_len (\<lambda>rv mem.
             if rv \<noteq> 0 then out_close rv
             else if rheader_size > iobuf_len then trap
             else Write_iobuf disk (sd_offset disk)
                 (splice_at 0 (rindex_header_out rh (replicate rheader_size 0)) (replicate iobuf_len 0))
                 (if com_write_init_io_timeout com \<noteq> 0 then com_write_init_io_timeout com else com_io_timeout com) (\<lambda>rv.
               if rv < 0 then out_close rv
               else bnd (setup_rindex_token com \<lparr>rx_ri = ri, rx_header = zero_rheader\<rparr> sector_size align_size None) (\<lambda>token.
                 case token of None \<Rightarrow> out_close (- ENOMEM)
                 | Some tk \<Rightarrow> bnd (paxos_lease_init tk 0 False (com_write_init_io_timeout com)) (\<lambda>(rv, _).
                     out_close (if rv < 0 then rv else 0)))))))"

section \<open>The frame of the operations\<close>

text \<open>
  The first and the last steps of every operation: the disk is opened, the lockspace is marked as busy with
  the operation unless \<open>nolock\<close> is set, and the header is read and checked; at the end the mark is cleared and
  the disk is closed.  \<open>r\<close> is what the caller's output holds when the operation fails.
\<close>

definition begin_rindex_op :: "bytes \<Rightarrow> u32 \<Rightarrow> (int \<times> space_info) sio" where
  "begin_rindex_op name op =
    Shared (\<lambda>dm. snd (snd (lockspace_begin_rindex_op name op dm))) (\<lambda>dm.
      case lockspace_begin_rindex_op name op dm of (rv, spi, _) \<Rightarrow> Ret (rv, case spi of None \<Rightarrow> zero_space_info | Some s \<Rightarrow> s))"

definition clear_rindex_op :: "bytes \<Rightarrow> unit sio" where
  "clear_rindex_op name = Shared (\<lambda>dm. snd (lockspace_clear_rindex_op name dm)) (\<lambda>_. Ret ())"

definition rindex_op ::
    "com_options \<Rightarrow> (string \<Rightarrow> disk_probe) \<Rightarrow> sanlk_rindex \<Rightarrow> u32 \<Rightarrow> bool \<Rightarrow> 'r \<Rightarrow>
     (space_info \<Rightarrow> rindex_info \<Rightarrow> (int \<times> 'r) sio) \<Rightarrow> (int \<times> 'r) sio" where
  "rindex_op com probe ri op nolock r m =
    bnd (open_disk probe (ri_disk ri)) (\<lambda>(rv, disk).
      if rv < 0 then Ret (rv, r)
      else bnd
        (bnd (if nolock then Ret (0, zero_space_info) else begin_rindex_op (ri_lockspace_name ri) op) (\<lambda>(rv, spi).
          if rv < 0 then Ret (rv, r)
          else bnd
            (bnd (read_rindex_header com spi \<lparr>rx_ri = ri\<lparr>ri_disk := disk\<rparr>, rx_header = zero_rheader\<rparr>) (\<lambda>(rv, spi, rx).
              if rv < 0 then Ret (rv, r) else m spi rx))
            (\<lambda>r. bnd (if nolock then Ret () else clear_rindex_op (ri_lockspace_name ri)) (\<lambda>_. Ret r))))
        (\<lambda>r. Call ''close'' [sd_fd disk] (\<lambda>_. Ret r)))"

text \<open>The part of an operation that holds the lease of the index.\<close>

definition rindex_locked ::
    "com_options \<Rightarrow> nat \<Rightarrow> token \<Rightarrow> 'r \<Rightarrow> (int \<times> 'r) sio \<Rightarrow> (int \<times> 'r) sio" where
  "rindex_locked com fuel rx_token r m =
    Uninit (leader_size + dblock_size) (\<lambda>junk.
    bnd (paxos_lease_acquire com fuel rx_token (PAXOS_ACQUIRE_OWNER_NOWAIT OR PAXOS_ACQUIRE_QUIET_FAIL)
          (leader_record_in junk) (paxos_dblock_in (drop leader_size junk)) 0 0) (\<lambda>(rv, tk, leader, _).
      if rv < 0 then Ret (rv, r)
      else bnd m (\<lambda>r. bnd (paxos_lease_release tk None (Some leader) leader) (\<lambda>_. Ret r))))"

definition rindex_tokens ::
    "com_options \<Rightarrow> space_info \<Rightarrow> rindex_info \<Rightarrow> bytes \<Rightarrow> 'r \<Rightarrow> (token \<Rightarrow> token \<Rightarrow> (int \<times> 'r) sio) \<Rightarrow> (int \<times> 'r) sio" where
  "rindex_tokens com spi rx res_name r m =
    bnd (setup_rindex_token com rx (rx_sector_size rx) (rx_align_size rx) (Some spi)) (\<lambda>rx_token.
      case rx_token of None \<Rightarrow> Ret (- ENOMEM, r)
      | Some rx_token \<Rightarrow>
          bnd (setup_resource_token rx res_name (rx_sector_size rx) (rx_align_size rx) spi) (\<lambda>res_token.
            case res_token of None \<Rightarrow> Ret (- ENOMEM, r)
            | Some res_token \<Rightarrow> m rx_token res_token))"

section \<open>Operations\<close>

definition rindex_create ::
    "com_options \<Rightarrow> (string \<Rightarrow> disk_probe) \<Rightarrow> nat \<Rightarrow> sanlk_rindex \<Rightarrow> sanlk_rentry \<Rightarrow> sanlk_rentry \<Rightarrow> u32 \<Rightarrow> (int \<times> sanlk_rentry) sio" where
  "rindex_create com probe fuel ri re re_ret num_hosts =
    rindex_op com probe ri RX_OP_CREATE False re_ret (\<lambda>spi rx.
    rindex_tokens com spi rx (rn_name re) re_ret (\<lambda>rx_token res_token.
    rindex_locked com fuel rx_token re_ret (
      bnd (read_rindex spi rx) (\<lambda>(rv, rindex_iobuf).
        if rv < 0 then Ret (rv, re_ret)
        else bnd (search_entries rx rindex_iobuf None) (\<lambda>(rv, ent_offset, res_offset).
          if rv < 0 then Ret (rv, re_ret)
          else bnd (paxos_lease_init (set_token_offset res_offset res_token) (sint num_hosts) False (com_write_init_io_timeout com)) (\<lambda>(rv, _).
            if rv < 0 then Ret (rv, re_ret)
            else bnd (update_rindex spi rx rindex_iobuf re ent_offset res_offset False) (\<lambda>rv.
              if rv < 0 then Ret (rv, re_ret) else Ret (0, re_ret\<lparr>rn_offset := res_offset\<rparr>))))))))"

definition rindex_delete ::
    "com_options \<Rightarrow> (string \<Rightarrow> disk_probe) \<Rightarrow> nat \<Rightarrow> sanlk_rindex \<Rightarrow> sanlk_rentry \<Rightarrow> sanlk_rentry \<Rightarrow> (int \<times> sanlk_rentry) sio" where
  "rindex_delete com probe fuel ri re re_ret =
    rindex_op com probe ri RX_OP_DELETE False re_ret (\<lambda>spi rx.
      if rn_offset re \<noteq> 0 \<and> rx_align_size rx = 0 then trap
      else if rn_offset re \<noteq> 0 \<and> rn_offset re mod word_of_int (rx_align_size rx) \<noteq> 0 then Ret (SANLK_RINDEX_OFFSET, re_ret)
      else
    rindex_tokens com spi rx (rn_name re) re_ret (\<lambda>rx_token res_token.
    rindex_locked com fuel rx_token re_ret (
      bnd (read_rindex spi rx) (\<lambda>(rv, rindex_iobuf).
        if rv < 0 then Ret (rv, re_ret)
        else bnd (search_entries rx rindex_iobuf (Some (rn_name re))) (\<lambda>(rv, ent_offset, res_offset).
          if rv < 0 then Ret (rv, re_ret)
          else bnd (update_rindex spi rx rindex_iobuf re ent_offset res_offset True) (\<lambda>rv.
            if rv < 0 then Ret (rv, re_ret)
            else bnd (paxos_lease_init (set_token_offset res_offset res_token) 0 True (com_write_init_io_timeout com)) (\<lambda>(rv, _).
              if rv < 0 then Ret (rv, re_ret) else Ret (0, re_ret\<lparr>rn_offset := 0\<rparr>))))))))"

definition rindex_lookup ::
    "com_options \<Rightarrow> (string \<Rightarrow> disk_probe) \<Rightarrow> sanlk_rindex \<Rightarrow> sanlk_rentry \<Rightarrow> sanlk_rentry \<Rightarrow> u32 \<Rightarrow> (int \<times> sanlk_rentry) sio" where
  "rindex_lookup com probe ri re re_ret cmd_flags =
    rindex_op com probe ri RX_OP_LOOKUP (cmd_flags AND SANLK_RX_NO_LOCKSPACE \<noteq> 0) re_ret (\<lambda>spi rx.
      bnd (read_rindex spi rx) (\<lambda>(rv, rindex_iobuf).
        let named = (rn_name re ! 0 \<noteq> 0); res_offset = rn_offset re;
            recorded = (\<lambda>k. bnd (mem_at rindex_iobuf (unat (entry_offset rx (entry_num rx res_offset))) rentry_size)
                              (\<lambda>re_end. k (rindex_entry_in re_end)))
        in
          if rv < 0 then Ret (rv, re_ret)
          else if res_offset \<noteq> 0 \<and> rx_align_size rx = 0 then trap
          else if res_offset \<noteq> 0 \<and> res_offset mod word_of_int (rx_align_size rx) \<noteq> 0 then Ret (SANLK_RINDEX_OFFSET, re_ret)
          else if \<not> named \<and> res_offset = 0 then
            bnd (search_entries rx rindex_iobuf None) (\<lambda>(rv, _, res_offset).
              if rv < 0 then Ret (rv, re_ret) else Ret (0, \<lparr>rn_name = replicate NAME_ID_SIZE 0, rn_offset = res_offset\<rparr>))
          else if \<not> named then recorded (\<lambda>re_in. Ret (0, \<lparr>rn_name = re_name re_in, rn_offset = res_offset\<rparr>))
          else if res_offset = 0 then
            bnd (search_entries rx rindex_iobuf (Some (rn_name re))) (\<lambda>(rv, _, res_offset).
              if rv < 0 then Ret (rv, re_ret) else Ret (0, \<lparr>rn_name = rn_name re, rn_offset = res_offset\<rparr>))
          else recorded (\<lambda>re_in.
            Ret (if strneq NAME_ID_SIZE (rn_name re) (re_name re_in) then 0 else SANLK_RINDEX_DIFF,
                 \<lparr>rn_name = re_name re_in, rn_offset = res_offset\<rparr>))))"

definition rindex_update ::
    "com_options \<Rightarrow> (string \<Rightarrow> disk_probe) \<Rightarrow> sanlk_rindex \<Rightarrow> sanlk_rentry \<Rightarrow> sanlk_rentry \<Rightarrow> u32 \<Rightarrow> (int \<times> sanlk_rentry) sio" where
  "rindex_update com probe ri re re_ret cmd_flags =
    rindex_op com probe ri RX_OP_UPDATE (cmd_flags AND SANLK_RX_NO_LOCKSPACE \<noteq> 0) re_ret (\<lambda>spi rx.
      bnd (read_rindex spi rx) (\<lambda>(rv, rindex_iobuf).
        let res_offset = rn_offset re;
            ent_offset = entry_offset rx (entry_num rx res_offset);
            op_remove = (cmd_flags AND SANLK_RXUP_REM \<noteq> 0 \<and> res_offset \<noteq> 0);
            op_add = (cmd_flags AND SANLK_RXUP_ADD \<noteq> 0 \<and> rn_name re ! 0 \<noteq> 0 \<and> res_offset \<noteq> 0)
        in
          if rv < 0 then Ret (rv, re_ret)
          else if rx_align_size rx = 0 then trap
          else if res_offset \<noteq> 0 \<and> res_offset mod word_of_int (rx_align_size rx) \<noteq> 0 then Ret (SANLK_RINDEX_OFFSET, re_ret)
          else if \<not> op_remove \<and> \<not> op_add then Ret (- EINVAL, re_ret)
          else bnd (update_rindex spi rx rindex_iobuf re ent_offset res_offset op_remove) (\<lambda>rv.
            if rv < 0 then Ret (rv, re_ret)
            else if op_remove then Ret (0, \<lparr>rn_name = replicate NAME_ID_SIZE 0, rn_offset = 0\<rparr>)
            else Ret (0, \<lparr>rn_name = rn_name re, rn_offset = res_offset\<rparr>))))"

section \<open>Rebuilding\<close>

definition zero_resource :: sanlk_resource where
  "zero_resource = \<lparr>r_lockspace_name = replicate NAME_ID_SIZE 0, r_name = replicate NAME_ID_SIZE 0, r_lver = 0, r_data64 = 0,
     r_data32 = 0, r_flags = 0\<rparr>"

text \<open>
  The areas from the \<open>i\<close>th on: \<open>n\<close> of them are left.  \<open>paxos_read_resource\<close> changes the token it is given, and
  only its name and offset are set again in each round.
\<close>

fun rebuild_entries :: "rindex_info \<Rightarrow> token \<Rightarrow> u64 \<Rightarrow> nat \<Rightarrow> nat \<Rightarrow> bytes \<Rightarrow> bytes sio" where
  "rebuild_entries rx tk res_offset i 0 rindex_iobuf = Ret rindex_iobuf"
| "rebuild_entries rx tk res_offset i (Suc n) rindex_iobuf =
    (let tk = set_token_offset res_offset (tk\<lparr>tk_r := (tk_r tk)\<lparr>r_name := replicate NAME_ID_SIZE 0\<rparr>\<rparr>)
     in bnd (paxos_read_resource tk zero_resource) (\<lambda>(rv, tk, res).
       let ent_offset = unat (entry_offset rx (int i));
           re_end = rindex_entry_out \<lparr>re_res_offset = res_offset, re_flags = 0, re_unused = 0, re_name = r_name res\<rparr> (replicate rentry_size 0);
           next_area = rebuild_entries rx tk (res_offset + word_of_int (rx_align_size rx)) (i + 1) n
       in
         if rv = - EMSGSIZE then Ret rindex_iobuf
         else if rv = SANLK_OK then
           (if ent_offset + rentry_size \<le> length rindex_iobuf then next_area (splice_at ent_offset re_end rindex_iobuf) else trap)
         else next_area rindex_iobuf))"

definition rebuild_write :: "space_info \<Rightarrow> rindex_info \<Rightarrow> token \<Rightarrow> (int \<times> unit) sio" where
  "rebuild_write spi rx res_token =
    bnd (read_rindex spi rx) (\<lambda>(rv, rindex_iobuf).
      if rv < 0 then Ret (rv, ())
      else case rindex_iobuf of None \<Rightarrow> trap
      | Some iobuf \<Rightarrow>
          (let sector_size = rx_sector_size rx; align_size = rx_align_size rx
           in if sector_size < 0 \<or> sector_size > align_size then trap
              else bnd (rebuild_entries rx (res_token\<lparr>tk_flags := tk_flags res_token OR T_CHECK_EXISTS\<rparr>)
                     (sd_offset (rx_disk rx) + word_of_int (2 * align_size)) 0 (unat (rx_max_resources rx))
                     (take (nat sector_size) iobuf @ replicate (nat (align_size - sector_size)) 0)) (\<lambda>iobuf.
                Write_iobuf (rx_disk rx) (sd_offset (rx_disk rx)) iobuf (uint (spi_io_timeout spi)) (\<lambda>rv.
                  Ret (if rv < 0 then rv else 0, ())))))"

definition rindex_rebuild :: "com_options \<Rightarrow> (string \<Rightarrow> disk_probe) \<Rightarrow> nat \<Rightarrow> sanlk_rindex \<Rightarrow> u32 \<Rightarrow> int sio" where
  "rindex_rebuild com probe fuel ri cmd_flags =
    (let nolock = (cmd_flags AND SANLK_RX_NO_LOCKSPACE \<noteq> 0)
     in bnd (rindex_op com probe ri RX_OP_REBUILD nolock () (\<lambda>spi rx.
          rindex_tokens com spi rx (replicate NAME_ID_SIZE 0) () (\<lambda>rx_token res_token.
            if nolock then rebuild_write spi rx res_token
            else rindex_locked com fuel rx_token () (rebuild_write spi rx res_token))))
        (\<lambda>(rv, _). Ret rv))"

end
