(* ===== verification/Lockspace_Theorems.thy ===== *)
theory Lockspace_Theorems
  imports Lockspace_Ops
begin

text \<open>
  Properties of the lists of lockspaces: no two lockspaces of the daemon share a name or a disk area, and at
  most one operation on a resource index runs per lockspace.
\<close>

section \<open>Searching\<close>

lemma search_space_None:
  "search_space name disk host_id heads i = None \<longleftrightarrow> (\<forall>sps\<in>set heads. \<forall>sp\<in>set sps. \<not> space_matches name disk host_id sp)"
proof (induction heads arbitrary: i)
  case (Cons a heads)
  show ?case
  proof (cases "find (space_matches name disk host_id) a")
    case None
    then have "\<forall>sp\<in>set a. \<not> space_matches name disk host_id sp" by (simp add: find_None_iff)
    with None show ?thesis using Cons by auto
  next
    case (Some sp)
    then have "sp \<in> set a" "space_matches name disk host_id sp" by (auto simp: find_Some_iff)
    with Some show ?thesis by auto
  qed
qed simp

section \<open>Names and disks are unique\<close>

definition same_area :: "space \<Rightarrow> space \<Rightarrow> bool" where
  "same_area s t \<longleftrightarrow> sd_path (sp_host_id_disk s) = sd_path (sp_host_id_disk t) \<and>
    sd_offset (sp_host_id_disk s) = sd_offset (sp_host_id_disk t)"

definition clash :: "space \<Rightarrow> space \<Rightarrow> bool" where
  "clash s t \<longleftrightarrow> strneq NAME_ID_SIZE (sp_space_name s) (sp_space_name t) \<or> same_area s t"

lemma clash_sym: "clash s t = clash t s"
  by (auto simp: clash_def same_area_def strneq_sym)

fun apart :: "space list \<Rightarrow> bool" where
  "apart [] = True"
| "apart (s # ss) \<longleftrightarrow> list_all (\<lambda>t. \<not> clash s t) ss \<and> apart ss"

lemma apart_append: "apart (xs @ ys) \<longleftrightarrow> apart xs \<and> apart ys \<and> (\<forall>x\<in>set xs. \<forall>y\<in>set ys. \<not> clash x y)"
  by (induction xs) (auto simp: list_all_iff)

lemma apart_nth: "apart xs \<Longrightarrow> i < length xs \<Longrightarrow> j < length xs \<Longrightarrow> i \<noteq> j \<Longrightarrow> \<not> clash (xs ! i) (xs ! j)"
proof (induction xs arbitrary: i j)
  case (Cons x xs)
  then show ?case by (cases i; cases j) (auto simp: list_all_iff clash_sym)
qed simp

lemma apart_filter: "apart xs \<Longrightarrow> apart (filter P xs)"
  by (induction xs) (auto simp: list_all_iff)

definition unique_spaces :: "daemon \<Rightarrow> bool" where
  "unique_spaces dm \<longleftrightarrow> apart (all_spaces dm)"

lemma unique_add:
  assumes "unique_spaces dm" and "add_space sp dm = (0, sp', dm')"
  shows "unique_spaces dm'"
proof -
  have none: "search_space (Some (sp_space_name sp)) None 0 [dm_spaces dm, dm_spaces_add dm, dm_spaces_rem dm] 0 = None"
      "search_space None (Some (sp_host_id_disk sp)) 0 [dm_spaces dm, dm_spaces_add dm, dm_spaces_rem dm] 0 = None"
    and dm': "dm' = dm\<lparr>dm_space_id_counter := dm_space_id_counter dm + 1, dm_spaces_add := sp' # dm_spaces_add dm\<rparr>"
    and sp': "sp' = sp\<lparr>sp_space_id := dm_space_id_counter dm\<rparr>"
    using assms(2) unfolding add_space_def Let_def by (auto simp del: search_space.simps not_None_eq split: if_splits)
  have "\<forall>s\<in>set (all_spaces dm). \<not> clash s sp'"
    using none unfolding search_space_None
    by (auto simp: all_spaces_def clash_def same_area_def space_matches_def sp')
  then show ?thesis
    using assms(1) by (auto simp: unique_spaces_def all_spaces_def dm' apart_append list_all_iff clash_sym)
qed

lemma unique_del: "unique_spaces dm \<Longrightarrow> unique_spaces (del_space sp dm)"
  by (auto simp: unique_spaces_def all_spaces_def del_space_def apart_append apart_filter)

lemma current_in: "t \<in> set (all_spaces dm) \<Longrightarrow> sp_space_id t = sp_space_id sp \<Longrightarrow>
    current_space dm sp \<in> set (all_spaces dm) \<and> sp_space_id (current_space dm sp) = sp_space_id sp"
  by (auto simp: current_space_def find_None_iff find_Some_iff split: option.splits)

definition has_space :: "daemon \<Rightarrow> space \<Rightarrow> bool" where
  "has_space dm sp \<longleftrightarrow> (\<exists>t\<in>set (all_spaces dm). sp_space_id t = sp_space_id sp)"

lemma apart_pair: "apart xs \<Longrightarrow> s \<in> set xs \<Longrightarrow> t \<in> set xs \<Longrightarrow> clash s t \<Longrightarrow> s = t"
  by (induction xs) (auto simp: list_all_iff clash_sym)

lemma moved_apart:
  assumes "unique_spaces dm" and "has_space dm sp"
  shows "\<forall>s\<in>set (all_spaces (del_space sp dm)). \<not> clash (current_space dm sp) s"
proof -
  let ?c = "current_space dm sp"
  obtain t where "t \<in> set (all_spaces dm)" "sp_space_id t = sp_space_id sp" using assms(2) by (auto simp: has_space_def)
  then have c: "?c \<in> set (all_spaces dm)" "sp_space_id ?c = sp_space_id sp" using current_in by auto
  have "\<not> clash ?c s" if "s \<in> set (all_spaces dm)" "sp_space_id s \<noteq> sp_space_id sp" for s
    using that c assms(1) apart_pair [of "all_spaces dm" ?c s] by (auto simp: unique_spaces_def)
  then show ?thesis by (auto simp: all_spaces_def del_space_def)
qed

lemma unique_start: "unique_spaces dm \<Longrightarrow> has_space dm sp \<Longrightarrow> unique_spaces (start_space sp dm)"
  using unique_del [of dm sp] moved_apart [of dm sp]
  by (auto simp: start_space_def Let_def unique_spaces_def all_spaces_def list_all_iff)

text \<open>A change of the lockspaces with one id that keeps what \<open>clash\<close> looks at.\<close>

definition keeps_space :: "space \<Rightarrow> space \<Rightarrow> bool" where
  "keeps_space s t \<longleftrightarrow> sp_space_name t = sp_space_name s \<and> sp_space_id t = sp_space_id s \<and> same_area t s"

definition keeps_spaces :: "u32 \<Rightarrow> (space \<Rightarrow> space) \<Rightarrow> daemon \<Rightarrow> bool" where
  "keeps_spaces i f dm \<longleftrightarrow> (\<forall>s\<in>set (all_spaces dm). sp_space_id s = i \<longrightarrow> keeps_space s (f s))"

lemma apart_map:
  assumes "\<And>s. s \<in> set xs \<Longrightarrow> keeps_space s (f s)"
  shows "apart (map f xs) = apart xs"
proof -
  have "clash (f s) (f t) = clash s t" if "s \<in> set xs" "t \<in> set xs" for s t
    using assms [OF that(1)] assms [OF that(2)] by (auto simp: keeps_space_def clash_def same_area_def)
  then show ?thesis by (induction xs) (auto simp: list_all_iff)
qed

lemma space_lists:
  "dm_spaces (dm\<lparr>dm_spaces := a, dm_spaces_rem := b, dm_spaces_add := c\<rparr>) = a"
  "dm_spaces_rem (dm\<lparr>dm_spaces := a, dm_spaces_rem := b, dm_spaces_add := c\<rparr>) = b"
  "dm_spaces_add (dm\<lparr>dm_spaces := a, dm_spaces_rem := b, dm_spaces_add := c\<rparr>) = c"
  by simp_all

lemma unique_map:
  assumes "keeps_spaces i f dm"
  shows "unique_spaces (map_space i f dm) = unique_spaces dm"
proof -
  have "apart (map (\<lambda>s. if sp_space_id s = i then f s else s) (all_spaces dm)) = apart (all_spaces dm)"
    using assms by (intro apart_map) (auto simp: keeps_spaces_def keeps_space_def same_area_def)
  then show ?thesis
    by (simp only: unique_spaces_def all_spaces_def map_space_def update_space_def space_lists map_append)
qed

section \<open>One index operation at a time\<close>

lemma find_map_keep: "(\<And>x. x \<in> set xs \<Longrightarrow> P (f x) = P x) \<Longrightarrow> find P (map f xs) = map_option f (find P xs)"
  by (induction xs) auto

lemma find_started_map:
  assumes "\<And>s. keeps_space s (f s)"
  shows "find_started (map_space i f dm) name =
    map_option (\<lambda>s. if sp_space_id s = i then f s else s) (find_started dm name)"
proof -
  have "space_matches (Some name) None 0 (if sp_space_id s = i then f s else s) = space_matches (Some name) None 0 s" for s
    using assms by (simp add: space_matches_def keeps_space_def)
  then have "find (space_matches (Some name) None 0) (map (\<lambda>s. if sp_space_id s = i then f s else s) (dm_spaces dm)) =
      map_option (\<lambda>s. if sp_space_id s = i then f s else s) (find (space_matches (Some name) None 0) (dm_spaces dm))"
    by (intro find_map_keep)
  then show ?thesis
    by (cases "find (space_matches (Some name) None 0) (dm_spaces dm)")
      (simp_all add: find_started_def map_space_def update_space_def)
qed

lemma keeps_rindex_op: "keeps_space s (s\<lparr>sp_rindex_op := op\<rparr>)"
  by (simp add: keeps_space_def same_area_def)

lemma begin_marks:
  assumes "lockspace_begin_rindex_op name op dm = (0, spi, dm')"
  obtains sp where "find_started dm name = Some sp" and "sp_rindex_op sp = 0" and "spi = Some (set_space_info sp)"
    and "sp_space_dead sp = 0" and "sp_thread_stop sp = 0"
    and "dm' = map_space (sp_space_id sp) (\<lambda>s. s\<lparr>sp_rindex_op := op\<rparr>) dm"
  using assms by (auto simp: lockspace_begin_rindex_op_def split: option.splits if_splits)

lemma begin_twice:
  assumes "lockspace_begin_rindex_op name op dm = (0, spi, dm')" and "op \<noteq> 0"
  shows "lockspace_begin_rindex_op name op' dm' = (- EBUSY, None, dm')"
    and "\<exists>dm''. lockspace_clear_rindex_op name dm' = (0, dm'') \<and> (\<exists>dm3. lockspace_begin_rindex_op name op' dm'' = (0, spi, dm3))"
proof -
  obtain sp where sp: "find_started dm name = Some sp" "sp_rindex_op sp = 0" "spi = Some (set_space_info sp)"
      "sp_space_dead sp = 0" "sp_thread_stop sp = 0" "dm' = map_space (sp_space_id sp) (\<lambda>s. s\<lparr>sp_rindex_op := op\<rparr>) dm"
    using begin_marks [OF assms(1)] .
  have f: "find_started dm' name = Some (sp\<lparr>sp_rindex_op := op\<rparr>)"
    using sp(1) by (simp add: sp(6) find_started_map [OF keeps_rindex_op])
  then show "lockspace_begin_rindex_op name op' dm' = (- EBUSY, None, dm')"
    using sp(4,5) assms(2) by (simp add: lockspace_begin_rindex_op_def)
  have "find_started (map_space (sp_space_id sp) (\<lambda>s. s\<lparr>sp_rindex_op := 0\<rparr>) dm') name = Some (sp\<lparr>sp_rindex_op := 0\<rparr>)"
    using f by (simp add: find_started_map [OF keeps_rindex_op])
  then show "\<exists>dm''. lockspace_clear_rindex_op name dm' = (0, dm'') \<and> (\<exists>dm3. lockspace_begin_rindex_op name op' dm'' = (0, spi, dm3))"
    using f sp(2-5) by (simp add: lockspace_clear_rindex_op_def lockspace_begin_rindex_op_def set_space_info_def)
qed

end
