(* ===== verification/Rindex_Theorems.thy ===== *)
theory Rindex_Theorems
  imports Rindex Lockspace_Theorems Delta_Theorems
begin

text \<open>
  Properties of the resource index: the index on the disk as a list of entries, what the operations do to it,
  and where the offsets of resource leases are exact.
\<close>

section \<open>Offsets\<close>

definition rx_ok :: "rindex_info \<Rightarrow> bool" where
  "rx_ok rx \<longleftrightarrow> rx_sector_size rx \<in> sector_sizes \<and> rx_align_size rx \<in> align_sizes \<and>
    (rx_sector_size rx = 512 \<longrightarrow> rx_align_size rx = ALIGN_SIZE_1M) \<and>
    rx_max_resources rx \<le> size_to_max_resources (rx_sector_size rx) (rx_align_size rx)"

lemma rx_ok_fits:
  assumes "rx_ok rx" and "i < unat (rx_max_resources rx)"
  shows "nat (rx_sector_size rx) + 64 * i + 64 \<le> nat (rx_align_size rx)" and "i < 128000"
    and "0 < rx_sector_size rx" and "0 < rx_align_size rx" and "rx_align_size rx \<le> 8388608"
proof -
  have ss: "rx_sector_size rx = 512 \<or> rx_sector_size rx = 4096" and al: "rx_align_size rx \<in> align_sizes"
    and c: "rx_sector_size rx = 512 \<longrightarrow> rx_align_size rx = ALIGN_SIZE_1M"
    using assms(1) by (auto simp: rx_ok_def sector_sizes_def)
  have "i < unat (size_to_max_resources (rx_sector_size rx) (rx_align_size rx))"
    using assms unfolding rx_ok_def word_le_nat_alt by linarith
  then show "nat (rx_sector_size rx) + 64 * i + 64 \<le> nat (rx_align_size rx)" "i < 128000"
    using ss al c by (auto simp: size_to_max_resources_def align_sizes_def)
  show "0 < rx_sector_size rx" using ss by auto
  show "0 < rx_align_size rx" "rx_align_size rx \<le> 8388608" using al by (auto simp: align_sizes_def)
qed

lemma entry_offset_unat:
  assumes "rx_ok rx" and "i < unat (rx_max_resources rx)"
  shows "unat (entry_offset rx (int i)) = nat (rx_sector_size rx) + 64 * i"
proof -
  note b = rx_ok_fits [OF assms]
  have "entry_offset rx (int i) = word_of_int (rx_sector_size rx + 64 * int i)"
    by (simp add: entry_offset_def)
  moreover have "0 \<le> rx_sector_size rx + 64 * int i" "rx_sector_size rx + 64 * int i < 2 ^ 64"
    using b by auto
  ultimately have "uint (entry_offset rx (int i)) = rx_sector_size rx + 64 * int i"
    by (simp only: uint_word_of_int_eq) (simp add: take_bit_int_eq_self)
  then have "int (unat (entry_offset rx (int i))) = int (nat (rx_sector_size rx) + 64 * i)" using b by simp
  then show ?thesis by (simp only: of_nat_eq_iff)
qed


lemma ucast_of_nat_u32: "(ucast (word_of_nat i :: u64) :: u32) = word_of_nat i"
  by transfer simp

lemma u64_of_int_eq: "(word_of_int a :: u64) = word_of_int b \<Longrightarrow> (2 :: int) ^ 64 dvd a - b"
  by (simp only: word_of_int_eq_iff take_bit_eq_mod mod_eq_dvd_iff) simp

lemma near_dvd:
  fixes s p :: int
  assumes "2 ^ 64 dvd s - p" and "- (2 ^ 31) \<le> s" and "s < 2 ^ 31" and "0 \<le> p" and "p \<le> 128000 * 8388608"
  shows "s = p"
proof (rule ccontr)
  assume "s \<noteq> p"
  then have "2 ^ 64 \<le> \<bar>s - p\<bar>" using dvd_imp_le_int [OF _ assms(1)] by simp
  then show False using assms(2-5) by (simp add: abs_if split: if_splits)
qed

text \<open>The documented place of the resource lease of entry \<open>i\<close>.\<close>

definition res_place :: "rindex_info \<Rightarrow> nat \<Rightarrow> u64" where
  "res_place rx i = sd_offset (rx_disk rx) + word_of_int (int (2 + i) * rx_align_size rx)"

lemma entry_num_res_place:
  assumes "rx_ok rx" and "i < unat (rx_max_resources rx)"
  shows "entry_num rx (res_place rx i) = int i"
proof -
  note b = rx_ok_fits [OF assms]
  have off: "res_place rx i - sd_offset (rx_disk rx) - word_of_int (2 * rx_align_size rx) = word_of_int (int i * rx_align_size rx)"
    by (simp add: res_place_def algebra_simps)
  have "int i * rx_align_size rx \<le> 128000 * 8388608" using b by (intro mult_mono) auto
  then have u: "uint (word_of_int (int i * rx_align_size rx) :: u64) = int i * rx_align_size rx"
      "uint (word_of_int (rx_align_size rx) :: u64) = rx_align_size rx"
    using b by (simp_all only: uint_word_of_int_eq) (simp_all add: take_bit_int_eq_self)
  have "uint ((word_of_int (int i * rx_align_size rx) :: u64) div word_of_int (rx_align_size rx)) = int i"
    using b(4) by (simp only: uint_div u) simp
  then have "(word_of_int (int i * rx_align_size rx) :: u64) div word_of_int (rx_align_size rx) = word_of_int (int i)"
    by (metis word_of_int_uint)
  moreover have "sint (ucast (word_of_int (int i) :: u64) :: u32) = int i"
    using b(2) by (simp add: ucast_of_nat_u32 signed_of_nat signed_take_bit_int_eq_self)
  ultimately show ?thesis by (simp only: entry_num_def off)
qed

lemma entry_res_offset_exact:
  assumes "rx_ok rx" and "i < unat (rx_max_resources rx)" and "int i * rx_align_size rx < 2 ^ 31"
  shows "entry_res_offset rx i = res_place rx i"
proof -
  have "0 \<le> int i * rx_align_size rx" using rx_ok_fits [OF assms(1,2)] by simp
  then have "sint (word_of_int (int i * rx_align_size rx) :: u32) = int i * rx_align_size rx"
    using assms(3) by (simp only: signed_of_int) (simp add: signed_take_bit_int_eq_self)
  then show ?thesis by (simp add: entry_res_offset_def res_place_def algebra_simps)
qed

text \<open>
  C22: In a well-formed index the offset that \<open>search_entries\<close> computes for the resource lease of an entry is the
  documented one, \<open>start + (2 + N) * area_size\<close>, exactly when the product \<open>N * area_size\<close> fits in an \<open>int\<close>.  With
  areas of 1 MB it is wrong from entry 2048 on, with areas of 8 MB from entry 256 on.
\<close>

theorem entry_res_offset_iff:
  assumes "rx_ok rx" and "i < unat (rx_max_resources rx)"
  shows "entry_res_offset rx i = res_place rx i \<longleftrightarrow> int i * rx_align_size rx < 2 ^ 31"
proof
  note b = rx_ok_fits [OF assms]
  let ?p = "int i * rx_align_size rx"
  let ?s = "sint (word_of_int ?p :: u32)"
  assume "entry_res_offset rx i = res_place rx i"
  then have "word_of_int ?s = (word_of_int ?p :: u64)"
    by (simp add: entry_res_offset_def res_place_def algebra_simps)
  then have "(2 :: int) ^ 64 dvd ?s - ?p" by (rule u64_of_int_eq)
  moreover have "- (2 ^ 31) \<le> ?s" "?s < 2 ^ 31" using sint_ge [of "word_of_int ?p :: u32"] sint_lt [of "word_of_int ?p :: u32"] by simp_all
  moreover have "0 \<le> ?p" "?p \<le> 128000 * 8388608" using b mult_mono [of "int i" 128000 "rx_align_size rx" 8388608] by simp_all
  ultimately have "?s = ?p" by (rule near_dvd)
  then show "?p < 2 ^ 31" using \<open>?s < 2 ^ 31\<close> by simp
qed (simp add: entry_res_offset_exact [OF assms])

theorem entry_res_offset_iff_witness:
  "(let rx = \<lparr>rx_ri = \<lparr>ri_flags = 0, ri_max_resources = 0, ri_lockspace_name = [],
        ri_disk = \<lparr>sd_path = [], sd_offset = 0, sd_sector_size = 512, sd_fd = 3\<rparr>\<rparr>,
      rx_header = zero_rheader\<lparr>rh_flags := 1, rh_sector_size := 512\<rparr>\<rparr>
    in entry_res_offset rx 2047 = res_place rx 2047 \<and> entry_res_offset rx 2048 \<noteq> res_place rx 2048)"
proof -
  let ?rx = "\<lparr>rx_ri = \<lparr>ri_flags = 0, ri_max_resources = 0, ri_lockspace_name = [],
        ri_disk = \<lparr>sd_path = [], sd_offset = 0, sd_sector_size = 512, sd_fd = 3\<rparr>\<rparr>,
      rx_header = zero_rheader\<lparr>rh_flags := 1, rh_sector_size := 512\<rparr>\<rparr>"
  have sizes: "rx_sector_size ?rx = 512" "rx_align_size ?rx = 1048576"
    by (simp_all add: rx_sector_size_def rx_align_size_def zero_rheader_def rindex_header_align_size_from_flag_def)
  then have m: "rx_max_resources ?rx = 16000"
    by (simp add: rx_max_resources_def size_to_max_resources_def zero_rheader_def)
  with sizes have "rx_ok ?rx" by (simp add: rx_ok_def sector_sizes_def align_sizes_def size_to_max_resources_def)
  then show ?thesis
    using entry_res_offset_iff [of ?rx 2047] entry_res_offset_iff [of ?rx 2048] m sizes by (simp add: Let_def)
qed

section \<open>The index as a list of entries\<close>

definition rindex_entries :: "rindex_info \<Rightarrow> bytes \<Rightarrow> rindex_entry list" where
  "rindex_entries rx buf = map (\<lambda>i. rindex_entry_in (slice (nat (rx_sector_size rx) + 64 * i) rentry_size buf)) [0..<unat (rx_max_resources rx)]"

lemma length_rindex_entries [simp]: "length (rindex_entries rx buf) = unat (rx_max_resources rx)"
  by (simp add: rindex_entries_def)

definition first_entry :: "bytes option \<Rightarrow> rindex_entry list \<Rightarrow> nat option" where
  "first_entry find_name es = find (\<lambda>i. entry_matches find_name (es ! i)) [0..<length es]"

definition search_result :: "rindex_info \<Rightarrow> nat option \<Rightarrow> int \<times> u64 \<times> u64" where
  "search_result rx found = (case found of None \<Rightarrow> (- ENOENT, 0, 0) | Some i \<Rightarrow> (0, entry_offset rx (int i), entry_res_offset rx i))"

lemma search_loop_pure:
  assumes "rx_ok rx" and "length buf = nat (rx_align_size rx)" and "i + n = unat (rx_max_resources rx)"
  shows "search_entries_loop rx (Some buf) find_name i n =
    Ret (search_result rx (find (\<lambda>i. entry_matches find_name (rindex_entries rx buf ! i)) [i..<i + n]))"
  using assms(3)
proof (induction n arbitrary: i)
  case (Suc n)
  then have i: "i < unat (rx_max_resources rx)" by simp
  have up: "[i..<i + Suc n] = i # [i + 1..<(i + 1) + n]" by (simp add: upt_rec del: upt_Suc)
  have "rindex_entries rx buf ! i = rindex_entry_in (slice (nat (rx_sector_size rx) + 64 * i) rentry_size buf)"
    using i by (simp add: rindex_entries_def)
  then show ?case
    using Suc.IH [of "i + 1"] Suc.prems rx_ok_fits(1) [OF assms(1) i] assms(2) unfolding up
    by (simp add: mem_at_def entry_offset_unat [OF assms(1) i] search_result_def del: upt_Suc)
qed (simp add: search_result_def)

lemma search_entries_pure:
  assumes "rx_ok rx" and "length buf = nat (rx_align_size rx)"
  shows "search_entries rx (Some buf) find_name = Ret (search_result rx (first_entry find_name (rindex_entries rx buf)))"
  unfolding search_entries_def first_entry_def using search_loop_pure [OF assms, of 0] by simp


section \<open>Updates\<close>

lemma nth_splice:
  "off + length src \<le> length dst \<Longrightarrow> k < length dst \<Longrightarrow>
    splice_at off src dst ! k = (if off \<le> k \<and> k < off + length src then src ! (k - off) else dst ! k)"
  by (auto simp: splice_at_def nth_append)

lemma nth_disk_read: "k < n \<Longrightarrow> disk_read ds p off n ! k = ds p (off + k)"
  by (simp add: disk_read_def)

lemma area_sector_write:
  assumes "so + ss \<le> n" and "eo + length x \<le> ss"
    and sector_def: "sector = splice_at eo x (disk_read ds p (off + so) ss)"
  shows "disk_read (disk_write ds p (off + so) sector) p off n = splice_at (so + eo) x (disk_read ds p off n)"
proof (rule nth_equalityI)
  have len: "length sector = ss" using assms(2) by (simp add: sector_def)
  fix k
  assume "k < length (disk_read (disk_write ds p (off + so) sector) p off n)"
  then have k: "k < n" by simp
  have "disk_read (disk_write ds p (off + so) sector) p off n ! k = (if so \<le> k \<and> k < so + ss then sector ! (k - so) else ds p (off + k))"
    using k by (simp add: nth_disk_read disk_write_def len add.assoc)
  also have "\<dots> = (if so + eo \<le> k \<and> k < so + eo + length x then x ! (k - (so + eo)) else ds p (off + k))"
    using assms(2) by (auto simp: sector_def nth_splice nth_disk_read)
  also have "\<dots> = splice_at (so + eo) x (disk_read ds p off n) ! k"
    using k assms(1,2) by (simp add: nth_splice nth_disk_read)
  finally show "disk_read (disk_write ds p (off + so) sector) p off n ! k = splice_at (so + eo) x (disk_read ds p off n) ! k" .
qed (use assms in simp)

lemma entries_splice:
  assumes "rx_ok rx" and "i < unat (rx_max_resources rx)" and "length buf = nat (rx_align_size rx)" and "rentry_ok re"
  shows "rindex_entries rx (splice_at (nat (rx_sector_size rx) + 64 * i) (rindex_entry_out re (replicate rentry_size 0)) buf) =
    (rindex_entries rx buf)[i := re]"
proof (rule nth_equalityI)
  let ?b = "splice_at (nat (rx_sector_size rx) + 64 * i) (rindex_entry_out re (replicate rentry_size 0)) buf"
  note fits = rx_ok_fits(1) [OF assms(1)]
  fix j
  assume "j < length (rindex_entries rx ?b)"
  then have j: "j < unat (rx_max_resources rx)" by simp
  show "rindex_entries rx ?b ! j = (rindex_entries rx buf)[i := re] ! j"
  proof (cases "j = i")
    case True
    then show ?thesis
      using j fits [OF j] assms(3,4) rentry_disk.dec_slice_splice [of re "replicate rentry_size 0" "nat (rx_sector_size rx) + 64 * i" buf]
      by (simp add: rindex_entries_def)
  next
    case False
    then have "64 * j + 64 \<le> 64 * i \<or> 64 * i + 64 \<le> 64 * j" by linarith
    then have "slice (nat (rx_sector_size rx) + 64 * j) rentry_size ?b = slice (nat (rx_sector_size rx) + 64 * j) rentry_size buf"
      using fits [OF assms(2)] assms(3,4) by (intro rentry_disk.slice_splice_disjoint) auto
    then show ?thesis using j False by (simp add: rindex_entries_def)
  qed
qed simp

text \<open>The sector that holds entry \<open>i\<close>.\<close>

lemma entry_sector:
  assumes "rx_ok rx" and "i < unat (rx_max_resources rx)"
  defines "ss \<equiv> nat (rx_sector_size rx)"
  defines "ent \<equiv> ss + 64 * i"
  shows "ent div ss * ss + ss \<le> nat (rx_align_size rx)" and "ent mod ss + 64 \<le> ss" and "ent < 2 ^ 32"
proof -
  note b = rx_ok_fits [OF assms(1,2), folded ss_def]
  have ss: "ss = 512 \<or> ss = 4096" and al: "ss dvd nat (rx_align_size rx)"
    using assms(1) by (auto simp: rx_ok_def sector_sizes_def align_sizes_def ss_def)
  then obtain k where k: "nat (rx_align_size rx) = ss * k" by (elim dvdE)
  have "ent = 64 * (ss div 64 + i)" "ss = 64 * (ss div 64)" "0 < ss div 64" using ss by (auto simp: ent_def)
  then have "ent mod ss = 64 * ((ss div 64 + i) mod (ss div 64))" by (metis mult_mod_right)
  moreover have "(ss div 64 + i) mod (ss div 64) < ss div 64" using \<open>0 < ss div 64\<close> by (rule mod_less_divisor)
  ultimately show "ent mod ss + 64 \<le> ss" using ss by auto
  have "ent < k * ss" using b(1) by (simp add: ent_def k mult.commute)
  then have "ent div ss < k" by (rule less_mult_imp_div_less)
  then have "Suc (ent div ss) * ss \<le> k * ss" by (intro mult_right_mono) auto
  then show "ent div ss * ss + ss \<le> nat (rx_align_size rx)" by (simp add: k mult.commute)
  show "ent < 2 ^ 32" using ss b(2) by (auto simp: ent_def)
qed


section \<open>Undisturbed operations\<close>

text \<open>
  \<open>yields m e x ds sh\<close>: in the environment \<open>e\<close>, \<open>m\<close> returns \<open>x\<close> and leaves the disks \<open>ds\<close> and the shared state
  \<open>sh\<close>, and the environment goes on working.
\<close>

definition works :: "daemon env \<Rightarrow> bool" where
  "works e \<longleftrightarrow> smooth e \<and> env_open e = [] \<and> env_calls e = []"

definition yields :: "'a sio \<Rightarrow> daemon env \<Rightarrow> 'a \<Rightarrow> disks \<Rightarrow> daemon \<Rightarrow> bool" where
  "yields m e x ds sh \<longleftrightarrow> (\<exists>e'. exec m e = Some (x, e') \<and> works e' \<and> env_disks e' = ds \<and> env_shared e' = sh)"

lemma yieldsI: "exec m e = Some (x, e') \<Longrightarrow> works e' \<Longrightarrow> yields m e x (env_disks e') (env_shared e')"
  by (auto simp: yields_def)

lemma yields_ret: "works e \<Longrightarrow> yields (Ret x) e x (env_disks e) (env_shared e)"
  by (rule yieldsI) simp_all

lemma yields_same: "works e \<Longrightarrow> env_disks e = ds \<Longrightarrow> env_shared e = sh \<Longrightarrow> yields (Ret x) e x ds sh"
  by (simp add: yields_def)

lemma yields_bnd:
  assumes "yields m e x ds sh" and "\<And>e'. works e' \<Longrightarrow> env_disks e' = ds \<Longrightarrow> env_shared e' = sh \<Longrightarrow> yields (f x) e' y ds' sh'"
  shows "yields (bnd m f) e y ds' sh'"
proof -
  obtain e' where "exec m e = Some (x, e')" "works e'" "env_disks e' = ds" "env_shared e' = sh"
    using assms(1) by (auto simp: yields_def)
  then show ?thesis using assms(2) [of e'] by (simp add: yields_def exec_bnd)
qed

lemma works_after_io [simp]: "works e \<Longrightarrow> works (after_io e ds)"
  by (simp add: works_def) (simp add: after_io_def env_tick_def)

lemma shared_after [simp]: "env_shared (after_io e ds) = env_shared e"
  by (simp add: after_io_def env_tick_def)

lemma yields_memalign:
  "works e \<Longrightarrow> yields (k 0 (map (env_junk e) [0..<n])) e x ds sh \<Longrightarrow> yields (Posix_memalign n k) e x ds sh"
  using smooth_memalign [of e n k] by (simp add: yields_def works_def del: exec.simps(3))

lemma yields_uninit: "(\<And>b. length b = n \<Longrightarrow> yields (k b) e x ds sh) \<Longrightarrow> yields (Uninit n k) e x ds sh"
  by (simp add: yields_def)

lemma yields_read:
  "works e \<Longrightarrow> (\<And>e'. works e' \<Longrightarrow> env_disks e' = env_disks e \<Longrightarrow> env_shared e' = env_shared e \<Longrightarrow>
      yields (k 0 (disk_read (env_disks e) (sd_path d) (unat off) n)) e' x ds sh) \<Longrightarrow>
    yields (Read_iobuf d off n t k) e x ds sh"
  using smooth_read [of e d off n t k] by (simp add: yields_def works_def [of e] del: exec.simps(6))

lemma yields_write:
  "works e \<Longrightarrow> (\<And>e'. works e' \<Longrightarrow> env_disks e' = disk_write (env_disks e) (sd_path d) (unat off) b \<Longrightarrow> env_shared e' = env_shared e \<Longrightarrow>
      yields (k 0) e' x ds sh) \<Longrightarrow> yields (Write_iobuf d off b t k) e x ds sh"
  using smooth_write [of e d off b t k] by (simp add: yields_def works_def [of e] del: exec.simps(5))

lemma works_shared [simp]: "works (e\<lparr>env_shared := s\<rparr>) = works e"
  by (simp add: works_def smooth_def)

lemma yields_shared:
  "works e \<Longrightarrow> (\<And>e'. works e' \<Longrightarrow> env_disks e' = env_disks e \<Longrightarrow> env_shared e' = g (env_shared e) \<Longrightarrow>
      yields (k (env_shared e)) e' x ds sh) \<Longrightarrow> yields (Shared g k) e x ds sh"
  by (simp add: yields_def)

lemma yields_call: "works e \<Longrightarrow> yields (k 0) e x ds sh \<Longrightarrow> yields (Call c args k) e x ds sh"
proof -
  assume "works e" and k: "yields (k 0) e x ds sh"
  then have calls: "env_calls e = []" by (simp add: works_def)
  then have eq: "e\<lparr>env_calls := []\<rparr> = e" by simp
  show ?thesis using k by (simp only: yields_def exec.simps calls next_or_def list.case list.sel eq)
qed

lemma yields_open:
  "works e \<Longrightarrow> yields (k 3) e x ds sh \<Longrightarrow> yields (Open_path p k) e x ds sh"
proof -
  assume "works e" and k: "yields (k 3) e x ds sh"
  then have opens: "env_open e = []" by (simp add: works_def)
  then have eq: "e\<lparr>env_open := []\<rparr> = e" by simp
  show ?thesis using k by (simp only: yields_def exec.simps opens next_or_def list.case list.sel eq)
qed

section \<open>The index on the disk\<close>

text \<open>
  \<open>index_area rx ds\<close> is the area of the index; \<open>outside rx ds ds'\<close>: the rest of the disks is the same.
\<close>

definition index_area :: "rindex_info \<Rightarrow> disks \<Rightarrow> bytes" where
  "index_area rx ds = disk_read ds (sd_path (rx_disk rx)) (unat (sd_offset (rx_disk rx))) (nat (rx_align_size rx))"

definition outside :: "rindex_info \<Rightarrow> disks \<Rightarrow> disks \<Rightarrow> bool" where
  "outside rx ds ds' \<longleftrightarrow> (\<forall>p a. p \<noteq> sd_path (rx_disk rx) \<or> a < unat (sd_offset (rx_disk rx)) \<or>
    unat (sd_offset (rx_disk rx)) + nat (rx_align_size rx) \<le> a \<longrightarrow> ds' p a = ds p a)"

lemma length_index_area [simp]: "length (index_area rx ds) = nat (rx_align_size rx)"
  by (simp add: index_area_def)

lemma unat_int_le: "0 \<le> n \<Longrightarrow> n < 2 ^ 63 \<Longrightarrow> unat (word_of_int n :: u64) = nat n"
  using size_t_nonneg [of n] by (simp add: size_t_def)

lemma unat_narrow: "unat (ucast (x :: u64) :: u32) = unat x mod 2 ^ 32"
  by (simp add: unsigned_ucast_eq take_bit_eq_mod)

lemma unat_widen: "unat (ucast (x :: u32) :: u64) = unat x"
  by (simp add: unsigned_ucast_eq take_bit_nat_eq_self unsigned_less [of x, THEN less_trans])

text \<open>The words of \<open>update_rindex\<close> for entry \<open>i\<close>.\<close>

lemma update_offsets:
  assumes "rx_ok rx" and "i < unat (rx_max_resources rx)"
  defines "ss \<equiv> nat (rx_sector_size rx)"
  defines "w \<equiv> word_of_int (rx_sector_size rx) :: u64"
  shows "unat w = ss" and "w \<noteq> 0"
    and "unat (ucast (entry_offset rx (int i) div w * w) :: u32) = (ss + 64 * i) div ss * ss"
    and "unat (ucast (entry_offset rx (int i) mod w) :: u32) = (ss + 64 * i) mod ss"
proof -
  note b = rx_ok_fits [OF assms(1,2)] and ent = entry_offset_unat [OF assms(1,2), folded ss_def]
  have small: "ss + 64 * i < 2 ^ 32" using entry_sector(3) [OF assms(1,2)] by (simp add: ss_def)
  have "rx_sector_size rx < 2 ^ 63" using assms(1) by (auto simp: rx_ok_def sector_sizes_def)
  then show w: "unat w = ss" using b(3) by (simp add: w_def ss_def unat_int_le)
  then show "w \<noteq> 0" using b(3) by (auto simp: ss_def)
  have d: "unat (entry_offset rx (int i) div w) = (ss + 64 * i) div ss" by (simp add: unat_div_distrib ent w)
  have le: "(ss + 64 * i) div ss * ss \<le> ss + 64 * i" by (rule div_times_less_eq_dividend)
  have "unat (entry_offset rx (int i) div w * w) = (ss + 64 * i) div ss * ss"
    using le_less_trans [OF le small] by (simp add: unat_word_ariths(2) d w)
  then show "unat (ucast (entry_offset rx (int i) div w * w) :: u32) = (ss + 64 * i) div ss * ss"
    using le_less_trans [OF le small] by (simp add: unat_narrow)
  have "unat (entry_offset rx (int i) mod w) = (ss + 64 * i) mod ss" by (simp add: unat_mod_distrib ent w)
  then show "unat (ucast (entry_offset rx (int i) mod w) :: u32) = (ss + 64 * i) mod ss"
    using le_less_trans [OF mod_less_eq_dividend small, of ss] by (simp add: unat_narrow del: mod_add_self1)
qed

lemma yields_update_rindex:
  assumes "works e" and "rx_ok rx" and "i < unat (rx_max_resources rx)"
    and room: "unat (sd_offset (rx_disk rx)) + nat (rx_align_size rx) < 2 ^ 64" and "rentry_ok (updated_entry re res del)"
  shows "\<exists>ds. yields (update_rindex spi rx (Some (index_area rx (env_disks e))) re (entry_offset rx (int i)) res del) e 0 ds (env_shared e) \<and>
    outside rx (env_disks e) ds \<and>
    index_area rx ds = splice_at (nat (rx_sector_size rx) + 64 * i)
      (rindex_entry_out (updated_entry re res del) (replicate rentry_size 0)) (index_area rx (env_disks e))"
proof -
  define ss where "ss = nat (rx_sector_size rx)"
  define so where "so = (ss + 64 * i) div ss * ss"
  define eo where "eo = (ss + 64 * i) mod ss"
  define x where "x = rindex_entry_out (updated_entry re res del) (replicate rentry_size 0)"
  define off where "off = unat (sd_offset (rx_disk rx))"
  define p where "p = sd_path (rx_disk rx)"
  note u = update_offsets [OF assms(2,3), folded ss_def, folded so_def eo_def]
  note es = entry_sector [OF assms(2,3), folded ss_def, folded so_def eo_def]
  have x: "length x = 64" using assms(5) by (simp add: x_def rentry_disk.enc_length)
  have sector: "slice so ss (index_area rx (env_disks e)) = disk_read (env_disks e) p (off + so) ss"
    unfolding index_area_def p_def off_def by (rule disk_store.rd_slice [OF es(1)])
  let ?ds = "disk_write (env_disks e) p (off + so) (splice_at eo x (disk_read (env_disks e) p (off + so) ss))"
  define so' eo' where "so' = (ucast (entry_offset rx (int i) div word_of_int (rx_sector_size rx) * word_of_int (rx_sector_size rx)) :: u32)"
    and "eo' = (ucast (entry_offset rx (int i) mod word_of_int (rx_sector_size rx)) :: u32)"
  note u' = u [folded so'_def eo'_def]
  have so: "unat (sd_offset (rx_disk rx) + ucast so') = off + so"
    using es(1) room u'(3) by (simp add: unat_word_ariths(1) off_def unat_widen)
  have "yields (update_rindex spi rx (Some (index_area rx (env_disks e))) re (entry_offset rx (int i)) res del) e 0 ?ds (env_shared e)"
    unfolding update_rindex_def Let_def so'_def [symmetric] eo'_def [symmetric] x_def [symmetric] if_not_P [OF u(2)]
  proof (rule yields_memalign [OF assms(1)])
    have "yields (Write_iobuf (rx_disk rx) (sd_offset (rx_disk rx) + ucast so') (splice_at eo x (disk_read (env_disks e) p (off + so) ss))
        (uint (spi_io_timeout spi)) Ret) e 0 ?ds (env_shared e)"
      by (rule yields_write [OF assms(1)]) (auto simp: so p_def yields_def)
    then show "yields (if (0 :: int) \<noteq> 0 then Ret 0 else bnd (mem_at (Some (index_area rx (env_disks e))) (unat so') (unat (word_of_int (rx_sector_size rx) :: u64))) (\<lambda>sector.
        if unat eo' + rentry_size > unat (word_of_int (rx_sector_size rx) :: u64) then trap
        else Write_iobuf (rx_disk rx) (sd_offset (rx_disk rx) + ucast so') (splice_at (unat eo') x sector) (uint (spi_io_timeout spi)) Ret)) e 0 ?ds (env_shared e)"
      using es(1,2) by (simp add: mem_at_def u' sector)
  qed
  moreover have "outside rx (env_disks e) ?ds"
    using es(1,2) x by (auto simp: outside_def disk_write_def p_def off_def)
  moreover have "index_area rx ?ds = splice_at (so + eo) x (index_area rx (env_disks e))"
    unfolding index_area_def p_def off_def using area_sector_write [OF es(1)] es(2) x by simp
  moreover have "so + eo = nat (rx_sector_size rx) + 64 * i" by (simp add: so_def eo_def ss_def del: mod_add_self1)
  ultimately show ?thesis unfolding x_def by metis
qed

text \<open>The disks after entry \<open>i\<close> has been written.\<close>

definition with_entry :: "rindex_info \<Rightarrow> nat \<Rightarrow> rindex_entry \<Rightarrow> disks \<Rightarrow> disks" where
  "with_entry rx i re ds = disk_write ds (sd_path (rx_disk rx)) (unat (sd_offset (rx_disk rx)))
    (splice_at (nat (rx_sector_size rx) + 64 * i) (rindex_entry_out re (replicate rentry_size 0)) (index_area rx ds))"

lemma area_write:
  "length b = nat (rx_align_size rx) \<Longrightarrow> index_area rx (disk_write ds (sd_path (rx_disk rx)) (unat (sd_offset (rx_disk rx))) b) = b"
  using disk_store.rd_wr_same [of ds "sd_path (rx_disk rx)" "unat (sd_offset (rx_disk rx))" b] by (simp add: index_area_def)

lemma outside_unique:
  assumes "outside rx ds ds'"
  shows "ds' = disk_write ds (sd_path (rx_disk rx)) (unat (sd_offset (rx_disk rx))) (index_area rx ds')"
proof (intro ext)
  fix q a
  show "ds' q a = disk_write ds (sd_path (rx_disk rx)) (unat (sd_offset (rx_disk rx))) (index_area rx ds') q a"
    using assms by (auto simp: outside_def disk_write_def index_area_def nth_disk_read)
qed

lemma yields_with_entry:
  assumes "works e" and "rx_ok rx" and "i < unat (rx_max_resources rx)"
    and "unat (sd_offset (rx_disk rx)) + nat (rx_align_size rx) < 2 ^ 64" and "rentry_ok (updated_entry re res del)"
  shows "yields (update_rindex spi rx (Some (index_area rx (env_disks e))) re (entry_offset rx (int i)) res del) e 0
      (with_entry rx i (updated_entry re res del) (env_disks e)) (env_shared e)"
  using yields_update_rindex [OF assms, of spi] outside_unique unfolding with_entry_def by metis

lemma with_entry_area:
  assumes "rx_ok rx" and "i < unat (rx_max_resources rx)" and "rentry_ok re"
  shows "outside rx ds (with_entry rx i re ds)"
    and "index_area rx (with_entry rx i re ds) =
      splice_at (nat (rx_sector_size rx) + 64 * i) (rindex_entry_out re (replicate rentry_size 0)) (index_area rx ds)"
    and "rindex_entries rx (index_area rx (with_entry rx i re ds)) = (rindex_entries rx (index_area rx ds))[i := re]"
proof -
  let ?b = "splice_at (nat (rx_sector_size rx) + 64 * i) (rindex_entry_out re (replicate rentry_size 0)) (index_area rx ds)"
  have len: "length ?b = nat (rx_align_size rx)"
    using rx_ok_fits(1) [OF assms(1,2)] assms(3) by (simp add: rentry_disk.enc_length)
  then show "outside rx ds (with_entry rx i re ds)" by (auto simp: outside_def with_entry_def disk_write_def)
  show area: "index_area rx (with_entry rx i re ds) = ?b"
    unfolding with_entry_def using len by (rule area_write)
  show "rindex_entries rx (index_area rx (with_entry rx i re ds)) = (rindex_entries rx (index_area rx ds))[i := re]"
    unfolding area by (rule entries_splice [OF assms(1,2) length_index_area assms(3)])
qed

section \<open>An index that can be used\<close>

text \<open>
  \<open>index_ready probe ri rx ds\<close>: the index at \<open>ri\<close> on the disks \<open>ds\<close> has a good header, which with the opened disk
  is \<open>rx\<close>, and the areas it describes lie on the disk.
\<close>

definition index_ready :: "(string \<Rightarrow> disk_probe) \<Rightarrow> sanlk_rindex \<Rightarrow> rindex_info \<Rightarrow> disks \<Rightarrow> bool" where
  "index_ready probe ri rx ds \<longleftrightarrow>
    open_disk probe (ri_disk ri) = (Open_path (sd_path (ri_disk ri)) (\<lambda>fd.
      if fd < 0 then Ret (fd, ri_disk ri) else Ret (0, (rx_disk rx)\<lparr>sd_fd := fd\<rparr>)) :: (int \<times> sync_disk) sio) \<and>
    rx_ri rx = ri\<lparr>ri_disk := (ri_disk ri)\<lparr>sd_sector_size := sd_sector_size (rx_disk rx), sd_fd := 3\<rparr>\<rparr> \<and>
    rx_header rx = rindex_header_in (index_area rx ds) \<and> check_rindex_header rx 0 = 0 \<and> rx_ok rx \<and>
    unat (sd_offset (rx_disk rx)) mod nat (rx_align_size rx) = 0 \<and>
    unat (sd_offset (rx_disk rx)) + (2 + unat (rx_max_resources rx)) * nat (rx_align_size rx) < 2 ^ 64"

lemma rx_sizes:
  assumes "rx_ok rx"
  shows "512 \<le> nat (rx_sector_size rx)" and "1048576 \<le> nat (rx_align_size rx)" and "size_t (rx_align_size rx) = nat (rx_align_size rx)"
  using assms by (auto simp: rx_ok_def sector_sizes_def align_sizes_def)

lemma header_prefix:
  assumes "rx_ok rx" and "rheader_size \<le> n"
  shows "rindex_header_in (disk_read ds (sd_path (rx_disk rx)) (unat (sd_offset (rx_disk rx))) n) = rindex_header_in (index_area rx ds)"
proof -
  have "take rheader_size (disk_read ds p off m) = disk_read ds p off rheader_size" if "rheader_size \<le> m" for p off m
    using that by (simp add: disk_read_def take_map)
  then show ?thesis
    using assms(2) rx_sizes(2) [OF assms(1)] unfolding index_area_def
    by (subst (1 2) rheader_disk.dec_take [symmetric]) simp_all
qed

lemma ready_update:
  assumes "index_ready probe ri rx ds" and "index_area rx ds' = splice_at off x (index_area rx ds)" and "rheader_size \<le> off"
    and "off + length x \<le> nat (rx_align_size rx)"
  shows "index_ready probe ri rx ds'"
proof -
  have "take rheader_size (index_area rx ds') = take rheader_size (index_area rx ds)"
    using assms(2-4) by (simp add: splice_at_def)
  then have "rindex_header_in (index_area rx ds') = rindex_header_in (index_area rx ds)"
    using assms(1) rx_sizes(2) [of rx] rheader_disk.dec_take [of "index_area rx ds'"] rheader_disk.dec_take [of "index_area rx ds"]
    by (simp add: index_ready_def)
  then show ?thesis using assms(1) by (simp add: index_ready_def)
qed

lemma res_place_unat:
  assumes "index_ready probe ri rx ds" and "i < unat (rx_max_resources rx)"
  shows "unat (res_place rx i) = unat (sd_offset (rx_disk rx)) + (2 + i) * nat (rx_align_size rx)"
proof -
  have ok: "rx_ok rx" and room: "unat (sd_offset (rx_disk rx)) + (2 + unat (rx_max_resources rx)) * nat (rx_align_size rx) < 2 ^ 64"
    using assms(1) by (simp_all add: index_ready_def)
  note b = rx_ok_fits [OF ok assms(2)]
  have "int (2 + i) * rx_align_size rx \<le> 128002 * 8388608" using b by (intro mult_mono) auto
  then have "unat (word_of_int (int (2 + i) * rx_align_size rx) :: u64) = nat (int (2 + i) * rx_align_size rx)"
    using b by (intro unat_int_le) auto
  also have "\<dots> = (2 + i) * nat (rx_align_size rx)" by (simp only: nat_mult_distrib of_nat_0_le_iff nat_int)
  finally have u: "unat (word_of_int (int (2 + i) * rx_align_size rx) :: u64) = (2 + i) * nat (rx_align_size rx)" .
  have "(2 + i) * nat (rx_align_size rx) \<le> (2 + unat (rx_max_resources rx)) * nat (rx_align_size rx)"
    using assms(2) by (intro mult_right_mono) auto
  with room have "unat (sd_offset (rx_disk rx)) + (2 + i) * nat (rx_align_size rx) < 2 ^ 64" by linarith
  then show ?thesis by (simp only: res_place_def unat_word_ariths(1) u) simp
qed

lemma res_place_aligned:
  assumes "index_ready probe ri rx ds" and "i < unat (rx_max_resources rx)"
  shows "res_place rx i \<noteq> 0" and "res_place rx i mod word_of_int (rx_align_size rx) = 0"
proof -
  have ok: "rx_ok rx" and al: "unat (sd_offset (rx_disk rx)) mod nat (rx_align_size rx) = 0"
    using assms(1) by (simp_all add: index_ready_def)
  note u = res_place_unat [OF assms] and b = rx_ok_fits [OF ok assms(2)]
  have "0 < unat (res_place rx i)" using b(4) by (simp only: u) simp
  then show "res_place rx i \<noteq> 0" by auto
  have "unat (word_of_int (rx_align_size rx) :: u64) = nat (rx_align_size rx)" using b by (intro unat_int_le) auto
  then have "unat (res_place rx i mod word_of_int (rx_align_size rx)) = 0"
    by (simp only: unat_mod_distrib u mod_mult_self1 al)
  then show "res_place rx i mod word_of_int (rx_align_size rx) = 0" by (simp add: unat_eq_0)
qed

section \<open>Whole operations\<close>

text \<open>The lockspace data of an operation without a lockspace.\<close>

definition free_info :: "com_options \<Rightarrow> space_info" where
  "free_info com = zero_space_info\<lparr>spi_io_timeout := word_of_int (com_io_timeout com)\<rparr>"

lemma zero_spi: "spi_sector_size zero_space_info = 0" "spi_io_timeout zero_space_info = 0"
  by (simp_all add: zero_space_info_def)

lemma yields_rindex_op:
  assumes "works e" and ready: "index_ready probe ri rx (env_disks e)"
    and m: "\<And>e'. works e' \<Longrightarrow> env_disks e' = env_disks e \<Longrightarrow> env_shared e' = env_shared e \<Longrightarrow> yields (m (free_info com) rx) e' y ds sh"
  shows "yields (rindex_op com probe ri op True r m) e y ds sh"
proof -
  have ok: "rx_ok rx" "rx_ri rx = ri\<lparr>ri_disk := (ri_disk ri)\<lparr>sd_sector_size := sd_sector_size (rx_disk rx), sd_fd := 3\<rparr>\<rparr>"
      "check_rindex_header rx 0 = 0" and op: "open_disk probe (ri_disk ri) = (Open_path (sd_path (ri_disk ri)) (\<lambda>fd.
      if fd < 0 then Ret (fd, ri_disk ri) else Ret (0, (rx_disk rx)\<lparr>sd_fd := fd\<rparr>)) :: (int \<times> sync_disk) sio)"
      and hd: "rx_header rx = rindex_header_in (index_area rx (env_disks e))"
    using ready by (simp_all add: index_ready_def)
  have d: "(rx_disk rx)\<lparr>sd_fd := 3\<rparr> = rx_disk rx" by (subst (1 2) ok(2)) simp
  have ri: "ri\<lparr>ri_disk := rx_disk rx\<rparr> = rx_ri rx" by (subst (1 2) ok(2)) simp
  have rx: "\<lparr>rx_ri = rx_ri rx, rx_header = rindex_header_in (disk_read (env_disks e) (sd_path (rx_disk rx)) (unat (sd_offset (rx_disk rx))) 4096)\<rparr> = rx"
    using header_prefix [OF ok(1), of 4096 "env_disks e"] hd by simp
  have hdr: "yields (read_rindex_header com zero_space_info \<lparr>rx_ri = rx_ri rx, rx_header = zero_rheader\<rparr>) e (0, free_info com, rx) (env_disks e) (env_shared e)"
    unfolding read_rindex_header_def Let_def
    by (rule yields_memalign [OF assms(1)], simp add: zero_spi,
        rule yields_read [OF assms(1)], simp add: rx ok(3) yields_same free_info_def)
  have body: "yields (bnd (read_rindex_header com zero_space_info \<lparr>rx_ri = rx_ri rx, rx_header = zero_rheader\<rparr>)
      (\<lambda>(rv, spi, rx). if rv < 0 then Ret (rv, r) else m spi rx)) e y ds sh"
    by (rule yields_bnd [OF hdr]) (simp add: m)
  then have kept: "yields (bnd (bnd (read_rindex_header com zero_space_info \<lparr>rx_ri = rx_ri rx, rx_header = zero_rheader\<rparr>)
      (\<lambda>(rv, spi, rx). if rv < 0 then Ret (rv, r) else m spi rx)) Ret) e y ds sh"
    by (rule yields_bnd) (rule yields_same)
  have all: "yields (bnd (bnd (bnd (read_rindex_header com zero_space_info \<lparr>rx_ri = rx_ri rx, rx_header = zero_rheader\<rparr>)
      (\<lambda>(rv, spi, rx). if rv < 0 then Ret (rv, r) else m spi rx)) Ret) (\<lambda>r. Call ''close'' [sd_fd (rx_disk rx)] (\<lambda>_. Ret r))) e y ds sh"
    by (rule yields_bnd [OF kept], rule yields_call, assumption) (rule yields_same)
  show ?thesis
    unfolding rindex_op_def op by (simp, rule yields_open [OF assms(1)], simp add: d ri, rule all)
qed

lemma yields_read_rindex:
  assumes "works e" and "rx_ok rx"
    and "\<And>e'. works e' \<Longrightarrow> env_disks e' = env_disks e \<Longrightarrow> env_shared e' = env_shared e \<Longrightarrow>
      yields (f (0, Some (index_area rx (env_disks e)))) e' y ds sh"
  shows "yields (bnd (read_rindex spi rx) f) e y ds sh"
proof (rule yields_bnd)
  show "yields (read_rindex spi rx) e (0, Some (index_area rx (env_disks e))) (env_disks e) (env_shared e)"
    unfolding read_rindex_def
    by (rule yields_memalign [OF assms(1)], simp, rule yields_read [OF assms(1)])
      (simp add: yields_same index_area_def rx_sizes(3) [OF assms(2)])
qed (rule assms(3))

lemma entry_in_area:
  assumes "rx_ok rx" and "i < unat (rx_max_resources rx)"
  shows "mem_at (Some (index_area rx ds)) (unat (entry_offset rx (int i))) rentry_size =
      Ret (slice (nat (rx_sector_size rx) + 64 * i) rentry_size (index_area rx ds))"
    and "rindex_entry_in (slice (nat (rx_sector_size rx) + 64 * i) rentry_size (index_area rx ds)) = rindex_entries rx (index_area rx ds) ! i"
  using rx_ok_fits(1) [OF assms] assms(2) by (simp_all add: mem_at_def entry_offset_unat [OF assms] rindex_entries_def)

lemma yields_lookup_offset:
  assumes "works e" and "index_ready probe ri rx (env_disks e)" and "i < unat (rx_max_resources rx)"
  shows "yields (rindex_lookup com probe ri \<lparr>rn_name = replicate NAME_ID_SIZE 0, rn_offset = res_place rx i\<rparr> re_ret SANLK_RX_NO_LOCKSPACE) e
    (0, \<lparr>rn_name = re_name (rindex_entries rx (index_area rx (env_disks e)) ! i), rn_offset = res_place rx i\<rparr>) (env_disks e) (env_shared e)"
proof -
  have ok: "rx_ok rx" using assms(2) by (simp add: index_ready_def)
  note p = res_place_aligned [OF assms(2,3)] entry_num_res_place [OF ok assms(3)] entry_in_area [OF ok assms(3)]
  have "rx_align_size rx \<noteq> 0" using rx_sizes(2) [OF ok] by auto
  with p show ?thesis
    unfolding rindex_lookup_def
    apply simp
    apply (rule yields_rindex_op [OF assms(1,2)])
    apply (rule yields_read_rindex [OF _ ok], assumption)
    apply (simp add: Let_def yields_same)
    done
qed

lemma yields_lookup_name:
  assumes "works e" and "index_ready probe ri rx (env_disks e)" and "name ! 0 \<noteq> 0"
    and "first_entry (Some name) (rindex_entries rx (index_area rx (env_disks e))) = Some i"
  shows "yields (rindex_lookup com probe ri \<lparr>rn_name = name, rn_offset = 0\<rparr> re_ret SANLK_RX_NO_LOCKSPACE) e
    (0, \<lparr>rn_name = name, rn_offset = entry_res_offset rx i\<rparr>) (env_disks e) (env_shared e)"
proof -
  have ok: "rx_ok rx" using assms(2) by (simp add: index_ready_def)
  show ?thesis
    unfolding rindex_lookup_def
    apply simp
    apply (rule yields_rindex_op [OF assms(1,2)])
    apply (rule yields_read_rindex [OF _ ok], assumption)
    using assms(3)
    apply (simp add: Let_def yields_same search_entries_pure [OF ok] assms(4) search_result_def)
    done
qed

definition new_entry :: "sanlk_rentry \<Rightarrow> rindex_entry" where
  "new_entry re = \<lparr>re_res_offset = rn_offset re, re_flags = 0, re_unused = 0, re_name = rn_name re\<rparr>"

lemma yields_rindex_add:
  assumes "works e" and "index_ready probe ri rx (env_disks e)" and "i < unat (rx_max_resources rx)"
    and "length (rn_name re) = NAME_ID_SIZE" and "rn_name re ! 0 \<noteq> 0" and "rn_offset re = res_place rx i"
  shows "yields (rindex_update com probe ri re re_ret (SANLK_RX_NO_LOCKSPACE OR SANLK_RXUP_ADD)) e
      (0, re) (with_entry rx i (new_entry re) (env_disks e)) (env_shared e)"
proof -
  have ok: "rx_ok rx" and room: "unat (sd_offset (rx_disk rx)) + (2 + unat (rx_max_resources rx)) * nat (rx_align_size rx) < 2 ^ 64"
    using assms(2) by (simp_all add: index_ready_def)
  have room': "unat (sd_offset (rx_disk rx)) + nat (rx_align_size rx) < 2 ^ 64"
    by (rule le_less_trans [OF _ room]) simp
  have al: "rx_align_size rx \<noteq> 0" using rx_sizes(2) [OF ok] by auto
  have re: "rentry_ok (updated_entry re (rn_offset re) False)" "updated_entry re (rn_offset re) False = new_entry re"
    using assms(4) by (simp_all add: updated_entry_def rentry_ok_def new_entry_def)
  have same: "\<lparr>rn_name = rn_name re, rn_offset = rn_offset re\<rparr> = re" by (cases re) simp
  note p = res_place_aligned [OF assms(2,3), folded assms(6)] entry_num_res_place [OF ok assms(3), folded assms(6)]
  have upd: "yields (update_rindex spi rx (Some (index_area rx (env_disks e))) re (entry_offset rx (int i)) (rn_offset re) False) e' 0
      (with_entry rx i (new_entry re) (env_disks e)) (env_shared e)"
    if "works e'" "env_disks e' = env_disks e" "env_shared e' = env_shared e" for e' spi
    using yields_with_entry [OF that(1) ok assms(3) room' re(1), of spi] that re(2) by simp
  show ?thesis
    unfolding rindex_update_def
    apply simp
    apply (rule yields_rindex_op [OF assms(1,2)])
    apply (rule yields_read_rindex [OF _ ok], assumption)
    using p al assms(5)
    apply (simp add: Let_def)
    apply (rule yields_bnd [OF upd])
    apply (simp_all add: yields_same same)
    done
qed

lemma first_entry_set:
  assumes "i < length es" and "entry_matches name x" and "\<forall>j<i. \<not> entry_matches name (es ! j)"
  shows "first_entry name (es[i := x]) = Some i"
  unfolding first_entry_def find_Some_iff using assms by (intro exI [of _ i]) auto



text \<open>An index of 16000 entries in areas of 1 MB with sectors of 512 bytes, freshly formatted.\<close>

definition sample_ri :: sanlk_rindex where
  "sample_ri = \<lparr>ri_flags = 0, ri_max_resources = 0, ri_lockspace_name = strncpy NAME_ID_SIZE (ascii ''LS''),
     ri_disk = \<lparr>sd_path = ''/dev/vg/rx'', sd_offset = 0, sd_sector_size = 512, sd_fd = 3\<rparr>\<rparr>"

definition sample_rx :: rindex_info where
  "sample_rx = \<lparr>rx_ri = sample_ri, rx_header = new_rindex_header sample_ri 512 ALIGN_SIZE_1M 16000\<rparr>"

definition sample_disks :: disks where
  "sample_disks = disk_write (\<lambda>_ _. 0) ''/dev/vg/rx'' 0 (rindex_header_out (rx_header sample_rx) (replicate rheader_size 0))"

definition sample_index_env :: "daemon env" where
  "sample_index_env = \<lparr>env_disks = sample_disks, env_time = 0, env_junk = (\<lambda>_. 0), env_io = [], env_ticks = [], env_mem = [],
     env_rand = [], env_open = [], env_calls = [],
     env_shared = \<lparr>dm_com = default_com, dm_spaces = [], dm_spaces_rem = [], dm_spaces_add = [], dm_external_shutdown = 0,
       dm_space_id_counter = 1\<rparr>\<rparr>"

lemma sample_sizes: "rx_sector_size sample_rx = 512" "rx_align_size sample_rx = 1048576" "rx_max_resources sample_rx = 16000"
  "sd_path (rx_disk sample_rx) = ''/dev/vg/rx''" "sd_offset (rx_disk sample_rx) = 0"
  by (simp_all add: rx_sector_size_def rx_align_size_def rx_max_resources_def sample_rx_def new_rindex_header_def sample_ri_def
      rindex_header_align_flag_from_size_def rindex_header_align_size_from_flag_def)

lemma sample_rx_ok: "rx_ok sample_rx"
  by (simp add: rx_ok_def sample_sizes sector_sizes_def align_sizes_def size_to_max_resources_def)

lemma sample_ready: "index_ready (\<lambda>_. Regular_file) sample_ri sample_rx sample_disks"
proof -
  have ok: "rheader_ok (rx_header sample_rx)" by (simp add: rheader_ok_def sample_rx_def new_rindex_header_def)
  have "rindex_header_in (index_area sample_rx sample_disks) = rindex_header_in (disk_read sample_disks ''/dev/vg/rx'' 0 rheader_size)"
    using header_prefix [OF sample_rx_ok, of rheader_size sample_disks] by (simp add: sample_sizes)
  also have "\<dots> = rx_header sample_rx"
    using disk_store.rd_wr_same [of "\<lambda>_ _. 0" "''/dev/vg/rx''" 0 "rindex_header_out (rx_header sample_rx) (replicate rheader_size 0)"] ok
    by (simp add: sample_disks_def rheader_disk.enc_length rheader_disk.dec_enc)
  finally have "rx_header sample_rx = rindex_header_in (index_area sample_rx sample_disks)" by simp
  moreover have "cstr (strncpy NAME_ID_SIZE (strncpy NAME_ID_SIZE (ascii ''LS''))) = cstr (strncpy NAME_ID_SIZE (ascii ''LS''))"
    by code_simp
  then have "check_rindex_header sample_rx 0 = 0"
    by (simp add: check_rindex_header_def sample_rx_def new_rindex_header_def sample_ri_def)
  moreover have "rx_ri sample_rx = sample_ri" "sd_sector_size (ri_disk sample_ri) = 512" "sd_fd (ri_disk sample_ri) = 3"
    by (simp_all add: sample_rx_def sample_ri_def)
  ultimately show ?thesis
    using sample_rx_ok by (simp add: index_ready_def sample_sizes open_disk_def sample_ri_def cong: if_cong)
qed


end
