(* ===== verification/Main_Loop.thy ===== *)
theory Main_Loop
  imports Lockspace_Ops Paxos_Lease
begin

text \<open>
  The main thread of the daemon: \<open>src/main.c\<close> from \<open>send_helper_kill\<close> to \<open>process_listener\<close>, with the clients, the
  pool of worker threads, and the loop that watches the lockspaces.

  The threads share a \<open>server\<close>: the \<open>daemon\<close> of the lease code, the clients with their \<open>pollfd\<close>, and the pool.  A
  section under a mutex is one \<open>Shared\<close> step; what it calls while it holds the mutex follows the step.  The
  commands of \<open>cmd.c\<close> and the resource lists of \<open>resource.c\<close> are calls, and so are the sockets; \<open>poll\<close> writes the
  \<open>revents\<close>, as other threads write the shared state.
\<close>

abbreviation SIGKILL :: int where "SIGKILL \<equiv> 9"
abbreviation SIGTERM :: int where "SIGTERM \<equiv> 15"
abbreviation SIGRUNPATH :: int where "SIGRUNPATH \<equiv> 100"
abbreviation HELPER_MSG_RUNPATH :: int where "HELPER_MSG_RUNPATH \<equiv> 1"
abbreviation HELPER_MSG_KILLPID :: int where "HELPER_MSG_KILLPID \<equiv> 2"
abbreviation sizeof_helper_msg :: int where "sizeof_helper_msg \<equiv> 512"

abbreviation SM_CLIENTS :: nat where "SM_CLIENTS \<equiv> 1024"
abbreviation kill_count_max :: int where "kill_count_max \<equiv> 100"

abbreviation CL_KILLPATH_PID :: u32 where "CL_KILLPATH_PID \<equiv> 0x1"
abbreviation CL_RUNPATH_SENT :: u32 where "CL_RUNPATH_SENT \<equiv> 0x2"
abbreviation SANLK_RESTRICT_ALL :: u32 where "SANLK_RESTRICT_ALL \<equiv> 0x1"
abbreviation SANLK_RESTRICT_SIGKILL :: u32 where "SANLK_RESTRICT_SIGKILL \<equiv> 0x2"
abbreviation SANLK_RESTRICT_SIGTERM :: u32 where "SANLK_RESTRICT_SIGTERM \<equiv> 0x4"

abbreviation EPIPE :: int where "EPIPE \<equiv> 32"
abbreviation ESRCH :: int where "ESRCH \<equiv> 3"

abbreviation POLL_IN :: int where "POLL_IN \<equiv> 0x1"

section \<open>Data\<close>

text \<open>A token of a client, with the mark that its lockspace has failed.\<close>

record held_token = token +
  tk_space_dead :: int

datatype client_fn = No_fn | Process_connection_fn | Process_listener_fn | Process_helper_fn | Client_free_fn |
  Client_pid_dead_fn | Helper_dead_fn

text \<open>\<open>tokens_slots\<close> is the length of the list of slots.\<close>

record client =
  c_used :: int
  c_fd :: int
  c_pid :: int
  c_cmd_active :: int
  c_cmd_last :: int
  c_pid_dead :: int
  c_suspend :: int
  c_need_free :: int
  c_kill_count :: int
  c_flags :: u32
  c_restricted :: u32
  c_kill_last :: u64
  c_owner_name :: bytes
  c_killpath :: bytes
  c_killargs :: bytes
  c_workfn :: client_fn
  c_deadfn :: client_fn
  c_tokens :: "held_token option list"

record pollfd =
  p_fd :: int
  p_events :: int
  p_revents :: int

record sm_header =
  h_magic :: u32
  h_version :: u32
  h_cmd :: u32
  h_length :: u32
  h_data :: u32
  h_data2 :: u32

record cmd_args =
  ca_ci_in :: nat
  ca_ci_target :: nat
  ca_cl_fd :: int
  ca_cl_pid :: int
  ca_header :: sm_header

record thread_pool =
  po_num_workers :: int
  po_max_workers :: int
  po_free_workers :: int
  po_quit :: int
  po_work_data :: "cmd_args list"

record server =
  sv_daemon :: daemon
  sv_clients :: "client list"
  sv_pollfd :: "pollfd list"
  sv_client_maxi :: int
  sv_pool :: thread_pool
  sv_helper_kill_fd :: int
  sv_helper_status_fd :: int
  sv_helper_ci :: int
  sv_helper_pid :: int
  sv_helper_full_count :: u32
  sv_helper_last_status :: u64

type_synonym 'a mio = "(server, 'a) io"

text \<open>Code of the lease modules inside the server.\<close>

primrec in_daemon :: "(daemon, 'a) io \<Rightarrow> 'a mio" where
  "in_daemon (Ret x) = Ret x"
| "in_daemon Out_of_fuel = Out_of_fuel"
| "in_daemon (Posix_memalign n k) = Posix_memalign n (\<lambda>rv b. in_daemon (k rv b))"
| "in_daemon (Uninit n k) = Uninit n (\<lambda>b. in_daemon (k b))"
| "in_daemon (Write_iobuf d off b t k) = Write_iobuf d off b t (\<lambda>rv. in_daemon (k rv))"
| "in_daemon (Read_iobuf d off n t k) = Read_iobuf d off n t (\<lambda>rv b. in_daemon (k rv b))"
| "in_daemon (Open_path p k) = Open_path p (\<lambda>rv. in_daemon (k rv))"
| "in_daemon (Monotime k) = Monotime (\<lambda>t. in_daemon (k t))"
| "in_daemon (Sleep n k) = Sleep n (in_daemon k)"
| "in_daemon (Usleep n k) = Usleep n (in_daemon k)"
| "in_daemon (Get_rand a b k) = Get_rand a b (\<lambda>r. in_daemon (k r))"
| "in_daemon (Call c args k) = Call c args (\<lambda>rv. in_daemon (k rv))"
| "in_daemon (Shared g k) =
    Shared (\<lambda>sv. sv\<lparr>sv_daemon := g (sv_daemon sv)\<rparr>) (\<lambda>sv. in_daemon (k (sv_daemon sv)))"

definition set_cl :: "nat \<Rightarrow> (client \<Rightarrow> client) \<Rightarrow> server \<Rightarrow> server" where
  "set_cl ci f sv = sv\<lparr>sv_clients := (sv_clients sv)[ci := f (sv_clients sv ! ci)]\<rparr>"

definition set_poll :: "nat \<Rightarrow> (pollfd \<Rightarrow> pollfd) \<Rightarrow> server \<Rightarrow> server" where
  "set_poll ci f sv = sv\<lparr>sv_pollfd := (sv_pollfd sv)[ci := f (sv_pollfd sv ! ci)]\<rparr>"

definition ignore_poll :: "pollfd \<Rightarrow> pollfd" where
  "ignore_poll p = p\<lparr>p_fd := -1, p_events := 0\<rparr>"

section \<open>Clients\<close>

definition free_slot :: client where
  "free_slot = \<lparr>c_used = 0, c_fd = -1, c_pid = -1, c_cmd_active = 0, c_cmd_last = 0, c_pid_dead = 0, c_suspend = 0,
     c_need_free = 0, c_kill_count = 0, c_flags = 0, c_restricted = 0, c_kill_last = 0, c_owner_name = [], c_killpath = [],
     c_killargs = [], c_workfn = No_fn, c_deadfn = No_fn, c_tokens = []\<rparr>"

text \<open>\<open>client_alloc\<close>: the \<open>pollfd\<close> for the event descriptor, after the clients', is not initialised here.\<close>

definition client_alloc_main :: "int mio" where
  "client_alloc_main =
    Call ''malloc'' [] (\<lambda>null1. Call ''malloc'' [] (\<lambda>null2.
      if null1 \<noteq> 0 \<or> null2 \<noteq> 0 then Ret (- ENOMEM)
      else Shared (\<lambda>sv. sv\<lparr>sv_clients := replicate SM_CLIENTS free_slot,
             sv_pollfd := replicate (SM_CLIENTS + 1) \<lparr>p_fd = -1, p_events = 0, p_revents = 0\<rparr>\<rparr>) (\<lambda>_. Ret 0)))"

text \<open>
  The state after \<open>_client_free\<close>, and whether the connection is closed.  The last command of a client is not
  reset.
\<close>

definition client_freed :: "nat \<Rightarrow> server \<Rightarrow> bool \<times> server" where
  "client_freed ci sv =
    (let cl = sv_clients sv ! ci
     in
       if c_used cl = 0 \<or> c_pid cl \<noteq> -1 \<or> c_fd cl = -1 then (False, sv)
       else if c_suspend cl \<noteq> 0 then (False, set_cl ci (\<lambda>c. c\<lparr>c_need_free := 1\<rparr>) sv)
       else (True, set_poll ci (\<lambda>p. (ignore_poll p)\<lparr>p_revents := 0\<rparr>)
                     (set_cl ci (\<lambda>c. free_slot\<lparr>c_cmd_last := c_cmd_last c\<rparr>) sv)))"

definition client_free :: "nat \<Rightarrow> unit mio" where
  "client_free ci =
    Shared (\<lambda>sv. snd (client_freed ci sv)) (\<lambda>sv.
      if fst (client_freed ci sv) then Call ''close'' [c_fd (sv_clients sv ! ci)] (\<lambda>_. Ret ()) else Ret ())"

definition client_suspended :: "nat \<Rightarrow> server \<Rightarrow> int \<times> server" where
  "client_suspended ci sv =
    (let cl = sv_clients sv ! ci
     in if c_used cl = 0 \<or> c_fd cl = -1 \<or> c_suspend cl \<noteq> 0 then (-1, sv)
        else (0, set_poll ci ignore_poll (set_cl ci (\<lambda>c. c\<lparr>c_suspend := 1\<rparr>) sv)))"

definition client_suspend :: "nat \<Rightarrow> int mio" where
  "client_suspend ci = Shared (\<lambda>sv. snd (client_suspended ci sv)) (\<lambda>sv. Ret (fst (client_suspended ci sv)))"

definition client_resumed :: "nat \<Rightarrow> server \<Rightarrow> bool \<times> bool \<times> server" where
  "client_resumed ci sv =
    (let cl = sv_clients sv ! ci
     in
       if c_used cl = 0 \<or> c_fd cl = -1 \<or> c_suspend cl = 0 then (False, False, sv)
       else
         (let sv = set_cl ci (\<lambda>c. c\<lparr>c_suspend := 0\<rparr>) sv
          in if c_need_free cl \<noteq> 0 then (case client_freed ci sv of (closed, sv) \<Rightarrow> (closed, False, sv))
             else (False, True, set_poll ci (\<lambda>p. p\<lparr>p_fd := c_fd cl, p_events := POLL_IN\<rparr>) sv)))"

definition client_resume :: "nat \<Rightarrow> unit mio" where
  "client_resume ci =
    Shared (\<lambda>sv. snd (snd (client_resumed ci sv))) (\<lambda>sv.
      case client_resumed ci sv of (closed, watched, _) \<Rightarrow>
        if closed then Call ''close'' [c_fd (sv_clients sv ! ci)] (\<lambda>_. Ret ())
        else if watched then Call ''eventfd_write'' [1] (\<lambda>_. Ret ()) else Ret ())"

definition client_taken :: "nat \<Rightarrow> int \<Rightarrow> client_fn \<Rightarrow> client_fn \<Rightarrow> server \<Rightarrow> server" where
  "client_taken ci fd work dead sv =
    (let sv = set_poll ci (\<lambda>p. p\<lparr>p_fd := fd, p_events := POLL_IN\<rparr>)
           (set_cl ci (\<lambda>c. c\<lparr>c_used := 1, c_fd := fd, c_workfn := work,
             c_deadfn := (if dead = No_fn then Client_free_fn else dead)\<rparr>) sv)
     in sv\<lparr>sv_client_maxi := max (sv_client_maxi sv) (int ci)\<rparr>)"

fun client_add_loop :: "int \<Rightarrow> client_fn \<Rightarrow> client_fn \<Rightarrow> nat list \<Rightarrow> int mio" where
  "client_add_loop fd work dead [] = Ret (-1)"
| "client_add_loop fd work dead (ci # cis) =
    Shared (\<lambda>sv. if c_used (sv_clients sv ! ci) = 0 then client_taken ci fd work dead sv else sv) (\<lambda>sv.
      if c_used (sv_clients sv ! ci) = 0 then Ret (int ci) else client_add_loop fd work dead cis)"

definition client_add_main :: "int \<Rightarrow> client_fn \<Rightarrow> client_fn \<Rightarrow> int mio" where
  "client_add_main fd work dead = client_add_loop fd work dead [0..<SM_CLIENTS]"

text \<open>
  The rest of a message that is not processed is read and dropped: \<open>got\<close> bytes so far, after \<open>retries\<close> times
  without data.
\<close>

function client_recv_loop :: "int \<Rightarrow> int \<Rightarrow> int \<Rightarrow> nat \<Rightarrow> unit mio" where
  "client_recv_loop fd rem got retries =
    Call ''recv'' [fd, 64] (\<lambda>rv.
      if rv = -1 then Call ''errno'' [] (\<lambda>errno.
        if errno = EAGAIN then Usleep 1000 (if retries < 20 then client_recv_loop fd rem got (retries + 1) else Ret ())
        else Ret ())
      else if rv \<le> 0 \<or> got + rv \<ge> rem then Ret ()
      else client_recv_loop fd rem (got + rv) retries)"
  by pat_completeness auto
termination
  by (relation "measure (\<lambda>(fd, rem, got, retries). nat (rem - got) + (20 - retries))") auto

declare client_recv_loop.simps [simp del]

definition client_recv_all :: "nat \<Rightarrow> sm_header \<Rightarrow> int \<Rightarrow> unit mio" where
  "client_recv_all ci h pos =
    (let rem = sint (h_length h - 32 - word_of_int pos)
     in if rem = 0 then Ret ()
        else Get_shared (\<lambda>sv. client_recv_loop (c_fd (sv_clients sv ! ci)) rem 0 0))"

text \<open>\<open>rem\<close> bytes of the reply are left.  A reply carries the command and the result.\<close>

fun send_result_loop :: "int \<Rightarrow> int list \<Rightarrow> int \<Rightarrow> nat \<Rightarrow> unit mio" where
  "send_result_loop fd msg rem 0 = Out_of_fuel"
| "send_result_loop fd msg rem (Suc fuel) =
    Call ''send'' (fd # rem # msg) (\<lambda>rv.
      if rv = -1 then Call ''errno'' [] (\<lambda>errno. if errno = EINTR then send_result_loop fd msg rem fuel else Ret ())
      else if rv < 0 then Ret ()
      else if rv < rem then send_result_loop fd msg (rem - rv) fuel
      else Ret ())"

definition send_result :: "int \<Rightarrow> sm_header \<Rightarrow> int \<Rightarrow> nat \<Rightarrow> unit mio" where
  "send_result fd h result fuel = send_result_loop fd [uint (h_cmd h), result] 32 fuel"

text \<open>The first critical section of \<open>client_pid_dead\<close>: whether it goes on to release the tokens.\<close>

definition client_marked_dead :: "nat \<Rightarrow> server \<Rightarrow> bool \<times> server" where
  "client_marked_dead ci sv =
    (let cl = sv_clients sv ! ci
     in if c_used cl = 0 \<or> c_fd cl = -1 \<or> c_pid cl = -1 then (False, sv)
        else (c_cmd_active cl = 0, set_poll ci ignore_poll (set_cl ci (\<lambda>c. c\<lparr>c_pid := -1, c_pid_dead := 1\<rparr>) sv)))"

fun release_tokens_async :: "nat \<Rightarrow> held_token option list \<Rightarrow> unit mio" where
  "release_tokens_async ci [] = Ret ()"
| "release_tokens_async ci (None # ts) = release_tokens_async ci ts"
| "release_tokens_async ci (Some t # ts) = Call ''release_token_async'' [int ci, int (length ts)] (\<lambda>_. release_tokens_async ci ts)"

definition client_pid_dead_main :: "nat \<Rightarrow> unit mio" where
  "client_pid_dead_main ci =
    Shared (\<lambda>sv. snd (client_marked_dead ci sv)) (\<lambda>sv.
      if fst (client_marked_dead ci sv)
      then Get_shared (\<lambda>sv. bnd (release_tokens_async ci (c_tokens (sv_clients sv ! ci))) (\<lambda>_. client_free ci))
      else Ret ())"

text \<open>
  The command \<open>SM_CMD_REGISTER\<close> of \<open>call_cmd_daemon\<close> in \<open>cmd.c\<close>, when the peer's pid is known and memory for the
  slots is found: whatever tokens the client had before are dropped.
\<close>

abbreviation SANLK_MAX_RESOURCES :: nat where "SANLK_MAX_RESOURCES \<equiv> 8"

definition client_registered :: "nat \<Rightarrow> int \<Rightarrow> server \<Rightarrow> server" where
  "client_registered ci pid sv =
    set_cl ci (\<lambda>c. c\<lparr>c_owner_name := ascii (if pid < 0 then ''-'' else []) @ decimal (nat \<bar>pid\<bar>), c_pid := pid,
      c_deadfn := Client_pid_dead_fn, c_tokens := replicate SANLK_MAX_RESOURCES None\<rparr>) sv"

section \<open>The helper process\<close>

definition helper_closed :: "server \<Rightarrow> server" where
  "helper_closed sv =
    (let sv1 = (if sv_helper_ci sv < 0 then sv else set_poll (nat (sv_helper_ci sv)) ignore_poll sv)
     in sv1\<lparr>sv_helper_kill_fd := -1, sv_helper_status_fd := -1, sv_helper_ci := -1\<rparr>)"

definition close_helper :: "unit mio" where
  "close_helper = Get_shared (\<lambda>sv.
    Call ''close'' [sv_helper_kill_fd sv] (\<lambda>_. Call ''close'' [sv_helper_status_fd sv] (\<lambda>_.
      Shared helper_closed (\<lambda>_. Ret ()))))"

text \<open>
  The message names the type, the pid and the signal; the path and arguments of a \<open>RUNPATH\<close> message are those of
  the client.  \<open>fuel\<close> bounds the interrupted writes.
\<close>

fun write_helper :: "int \<Rightarrow> int list \<Rightarrow> nat \<Rightarrow> (int \<times> int) mio" where
  "write_helper fd msg 0 = Out_of_fuel"
| "write_helper fd msg (Suc fuel) =
    Call ''write'' (fd # msg) (\<lambda>rv.
      if rv = -1 then Call ''errno'' [] (\<lambda>errno. if errno = EINTR then write_helper fd msg fuel else Ret (rv, errno))
      else Ret (rv, 0))"

definition helper_msg :: "client \<Rightarrow> int \<Rightarrow> int list" where
  "helper_msg cl sig =
    (if sig = SIGRUNPATH
     then [HELPER_MSG_RUNPATH, if c_flags cl AND CL_KILLPATH_PID \<noteq> 0 then c_pid cl else 0, 0]
     else [HELPER_MSG_KILLPID, c_pid cl, sig])"

definition send_helper_kill :: "nat \<Rightarrow> int \<Rightarrow> nat \<Rightarrow> unit mio" where
  "send_helper_kill ci sig fuel = Get_shared (\<lambda>sv.
    let cl = sv_clients sv ! ci
    in
      if c_flags cl AND CL_RUNPATH_SENT \<noteq> 0 \<and> sig = SIGRUNPATH then Ret ()
      else if sv_helper_kill_fd sv = -1 then Ret ()
      else bnd (write_helper (sv_helper_kill_fd sv) (helper_msg cl sig) fuel) (\<lambda>(rv, errno).
        if rv = -1 \<and> errno = EAGAIN
        then Shared (\<lambda>sv. sv\<lparr>sv_helper_full_count := sv_helper_full_count sv + 1\<rparr>) (\<lambda>_. Ret ())
        else if rv = -1 \<and> errno = EPIPE then close_helper
        else if rv \<noteq> sizeof_helper_msg then close_helper
        else if sig = SIGRUNPATH
        then Shared (set_cl ci (\<lambda>c. c\<lparr>c_flags := c_flags c OR CL_RUNPATH_SENT\<rparr>)) (\<lambda>_. Ret ())
        else Ret ()))"

text \<open>A status message is \<open>(type, status)\<close>; \<open>read\<close> reports a pipe without data by -1, which is not \<open>-EAGAIN\<close>.\<close>

definition process_helper :: "nat \<Rightarrow> unit mio" where
  "process_helper ci = Get_shared (\<lambda>sv.
    Call ''read helper'' [c_fd (sv_clients sv ! ci)] (\<lambda>rv.
      if rv = 0 \<or> rv = - EAGAIN then Ret ()
      else if rv < 0 then close_helper
      else if rv \<noteq> 4 then close_helper
      else Call ''hs.type'' [] (\<lambda>type. Call ''hs.status'' [] (\<lambda>status.
        if type = 1 \<and> status = 0 then Monotime (\<lambda>t. Shared (\<lambda>sv. sv\<lparr>sv_helper_last_status := t\<rparr>) (\<lambda>_. Ret ()))
        else Ret ()))))"

definition helper_dead :: "unit mio" where
  "helper_dead = Get_shared (\<lambda>sv.
    bnd close_helper (\<lambda>_. Shared (\<lambda>sv. sv\<lparr>sv_helper_pid := -1\<rparr>) (\<lambda>_.
      Call ''waitpid'' [sv_helper_pid sv] (\<lambda>_. Ret ()))))"

section \<open>Processes that use a failed lockspace\<close>

definition token_in_space :: "space \<Rightarrow> held_token \<Rightarrow> bool" where
  "token_in_space sp tk \<longleftrightarrow> strneq NAME_ID_SIZE (r_lockspace_name (tk_r tk)) (sp_space_name sp)"

text \<open>\<open>client_using_space\<close>: whether a client uses the lockspace, and the client with its tokens marked.\<close>

definition client_using_space :: "client \<Rightarrow> space \<Rightarrow> bool \<times> client" where
  "client_using_space cl sp =
    (list_ex (\<lambda>t. case t of None \<Rightarrow> False | Some tk \<Rightarrow> token_in_space sp tk) (c_tokens cl),
     cl\<lparr>c_tokens := map (map_option (\<lambda>tk. if token_in_space sp tk \<and> sp_space_dead sp \<noteq> 0
          then tk\<lparr>tk_space_dead := sp_space_dead sp\<rparr> else tk)) (c_tokens cl)\<rparr>)"

definition kill_in_grace :: "com_options \<Rightarrow> space \<Rightarrow> u64 \<Rightarrow> u64 \<Rightarrow> bool" where
  "kill_in_grace com sp last_success now \<longleftrightarrow>
    now < last_success + word_of_int (calc_id_renewal_fail_seconds (uint (sp_io_timeout sp))) + word_of_int (com_kill_grace_seconds com)"

definition kill_signal :: "com_options \<Rightarrow> bool \<Rightarrow> bool \<Rightarrow> client \<Rightarrow> int" where
  "kill_signal com removed in_grace cl =
    (let sig = (if removed then SIGKILL
                else if com_kill_grace_seconds com > 0 \<and> in_grace \<and> c_killpath cl \<noteq> [] \<and> c_killpath cl ! 0 \<noteq> 0 then SIGRUNPATH
                else if in_grace then SIGTERM else SIGKILL);
         sig = (if sig = SIGKILL \<and> c_restricted cl AND SANLK_RESTRICT_SIGKILL \<noteq> 0 then SIGTERM else sig)
     in if sig = SIGTERM \<and> c_restricted cl AND SANLK_RESTRICT_SIGTERM \<noteq> 0 then SIGKILL else sig)"

text \<open>The critical section of \<open>kill_pids\<close> on one client: whether it is to be killed.\<close>

definition kill_client :: "space \<Rightarrow> u64 \<Rightarrow> client \<Rightarrow> bool \<times> client" where
  "kill_client sp now cl =
    (if c_used cl = 0 \<or> c_pid cl \<le> 0 \<or> c_kill_count cl \<ge> kill_count_max \<or> (c_kill_count cl \<noteq> 0 \<and> now - c_kill_last cl < 1)
     then (False, cl)
     else case client_using_space cl sp of (using, cl) \<Rightarrow>
       if using then (True, cl\<lparr>c_kill_last := now, c_kill_count := c_kill_count cl + 1\<rparr>) else (False, cl))"

fun kill_pids_loop :: "com_options \<Rightarrow> space \<Rightarrow> bool \<Rightarrow> u64 \<Rightarrow> u64 \<Rightarrow> nat \<Rightarrow> nat list \<Rightarrow> unit mio" where
  "kill_pids_loop com sp removed last_success now fuel [] = Ret ()"
| "kill_pids_loop com sp removed last_success now fuel (ci # cis) =
    Shared (set_cl ci (\<lambda>c. snd (kill_client sp now c))) (\<lambda>sv.
      bnd (if fst (kill_client sp now (sv_clients sv ! ci))
           then send_helper_kill ci (kill_signal com removed (kill_in_grace com sp last_success now) (sv_clients sv ! ci)) fuel
           else Ret ()) (\<lambda>_.
        kill_pids_loop com sp removed last_success now fuel cis))"

abbreviation all_clients :: "server \<Rightarrow> nat list" where "all_clients sv \<equiv> [0..<nat (sv_client_maxi sv + 1)]"

definition space_removed :: "server \<Rightarrow> space \<Rightarrow> bool" where
  "space_removed sv sp \<longleftrightarrow> sp_external_remove sp \<or> dm_external_shutdown (sv_daemon sv) > 1"

text \<open>\<open>sp\<close> names the lockspace; its fields are those of the node.\<close>

definition kill_pids :: "com_options \<Rightarrow> space \<Rightarrow> nat \<Rightarrow> unit mio" where
  "kill_pids com sp fuel = Get_shared (\<lambda>sv.
    let sp = current_space (sv_daemon sv) sp
    in if sp_killing_pids sp > 1 then Ret ()
       else Monotime (\<lambda>now.
         kill_pids_loop com sp (space_removed sv sp) (ls_renewal_last_success (sp_lease_status sp)) now fuel (all_clients sv)))"

definition live_user :: "space \<Rightarrow> client \<Rightarrow> bool" where
  "live_user sp cl \<longleftrightarrow> c_used cl \<noteq> 0 \<and> c_pid cl > 0 \<and> fst (client_using_space cl sp)"

fun count_pids :: "space \<Rightarrow> nat \<times> nat \<Rightarrow> nat list \<Rightarrow> (nat \<times> nat) mio" where
  "count_pids sp counts [] = Ret counts"
| "count_pids sp (stuck, check) (ci # cis) =
    Shared (set_cl ci (\<lambda>c. if c_used c \<noteq> 0 \<and> c_pid c > 0 then snd (client_using_space c sp) else c)) (\<lambda>sv.
      let cl = sv_clients sv ! ci
      in if \<not> live_user sp cl then count_pids sp (stuck, check) cis
         else if c_kill_count cl \<ge> kill_count_max then count_pids sp (stuck + 1, check) cis
         else count_pids sp (stuck, check + 1) cis)"

text \<open>The part of \<open>all_pids_dead\<close> after the clients have been counted.\<close>

definition pids_verdict :: "space \<Rightarrow> nat \<times> nat \<Rightarrow> bool mio" where
  "pids_verdict sp = (\<lambda>(stuck, check).
    bnd (if stuck \<noteq> 0 \<and> check = 0 \<and> sp_killing_pids sp < 2
         then in_daemon (on_space sp (\<lambda>s. ((), s\<lparr>sp_killing_pids := 2\<rparr>))) else Ret ()) (\<lambda>_.
      if stuck \<noteq> 0 \<or> check \<noteq> 0 then Ret False
      else Get_shared (\<lambda>sv.
        let flags = sp_flags (current_space (sv_daemon sv) sp)
        in
          if flags AND SP_EXTERNAL_USED \<noteq> 0 then Ret False
          else if flags AND SP_USED_BY_ORPHANS \<noteq> 0
          then Call ''resource_orphan_count'' [uint (sp_space_id sp)] (\<lambda>orphans. Ret (orphans = 0))
          else Ret True)))"

definition all_pids_dead :: "space \<Rightarrow> bool mio" where
  "all_pids_dead sp = Get_shared (\<lambda>sv.
    let sp = current_space (sv_daemon sv) sp in bnd (count_pids sp (0, 0) (all_clients sv)) (pids_verdict sp))"

section \<open>The lockspaces\<close>

abbreviation STANDARD_CHECK_INTERVAL :: int where "STANDARD_CHECK_INTERVAL \<equiv> 1000"
abbreviation RECOVERY_CHECK_INTERVAL :: int where "RECOVERY_CHECK_INTERVAL \<equiv> 200"

definition move_space_rem :: "space \<Rightarrow> daemon \<Rightarrow> daemon" where
  "move_space_rem sp dm =
    (let s = current_space dm sp; dm1 = del_space sp dm in dm1\<lparr>dm_spaces_rem := s # dm_spaces_rem dm1\<rparr>)"

definition stop_space :: "com_options \<Rightarrow> space \<Rightarrow> unit mio" where
  "stop_space com sp =
    in_daemon (bnd (on_space sp (\<lambda>s. (s, s\<lparr>sp_thread_stop := 1\<rparr>))) (\<lambda>s.
      bnd (deactivate_watchdog com s) (\<lambda>_. Shared (move_space_rem sp) (\<lambda>_. Ret ()))))"

text \<open>
  The check of the leases of a lockspace: whether its processes are to be killed.  Host events and requests of
  other hosts go to the resource thread.  The copy of the leases does not exist when its allocation failed, and
  following that null pointer ends the run.
\<close>

fun add_host_events :: "u32 \<Rightarrow> (sanlk_host_event \<times> u64 \<times> u64) list \<Rightarrow> 'a mio \<Rightarrow> 'a mio" where
  "add_host_events space_id [] k = k"
| "add_host_events space_id ((he, from_host_id, from_generation) # hes) k =
    Call ''add_host_event'' [uint space_id, uint from_host_id, uint from_generation] (\<lambda>_. add_host_events space_id hes k)"

definition check_hosts :: "space \<Rightarrow> bytes option \<Rightarrow> unit mio" where
  "check_hosts sp buf =
    (case buf of None \<Rightarrow> Out_of_fuel
     | Some buf \<Rightarrow> Monotime (\<lambda>now.
         bnd (in_daemon (on_space sp (\<lambda>s. case check_other_leases s buf now of (s', hes, examine) \<Rightarrow> ((hes, examine), s')))) (\<lambda>(hes, examine).
           add_host_events (sp_space_id sp) hes
             (if examine then Call ''set_resource_examine'' [uint (sp_space_id sp)] (\<lambda>_. Ret ()) else Ret ()))))"

definition check_leases :: "com_options \<Rightarrow> space \<Rightarrow> bool \<Rightarrow> nat \<Rightarrow> bool mio" where
  "check_leases com sp have_buf fuel =
    Monotime (\<lambda>now. bnd (in_daemon (on_space sp (\<lambda>s. case check_our_lease s now of (rv, s', buf) \<Rightarrow> ((rv, buf), s')))) (\<lambda>(rv, buf).
      Get_shared (\<lambda>sv.
        if rv \<noteq> 0 \<or> space_removed sv (current_space (sv_daemon sv) sp)
        then bnd (in_daemon (on_space sp (\<lambda>s. ((), s\<lparr>sp_space_dead := 1, sp_killing_pids := 1\<rparr>)))) (\<lambda>_.
               bnd (kill_pids com sp fuel) (\<lambda>_. Ret True))
        else if buf \<noteq> None then bnd (check_hosts sp (if have_buf then buf else None)) (\<lambda>_. Ret False)
        else Ret False)))"

text \<open>
  One lockspace: the buffer for the leases grows to the size of the area; \<open>bl\<close> is its length and whether it
  exists.  The result is the check interval and the buffer.
\<close>

definition grow_check_buf :: "space \<Rightarrow> int \<times> bool \<Rightarrow> (int \<times> bool) mio" where
  "grow_check_buf sp bl = Get_shared (\<lambda>sv.
    let sz = sp_align_size (current_space (sv_daemon sv) sp)
    in if sz > fst bl then Call ''malloc'' [sz] (\<lambda>null. Ret (sz, null = 0)) else Ret bl)"

definition check_space :: "com_options \<Rightarrow> space \<Rightarrow> int \<times> int \<times> bool \<Rightarrow> nat \<Rightarrow> (int \<times> int \<times> bool) mio" where
  "check_space com sp st fuel = Get_shared (\<lambda>sv.
    if sp_killing_pids (current_space (sv_daemon sv) sp) \<noteq> 0
    then bnd (all_pids_dead sp) (\<lambda>gone.
      if gone then bnd (stop_space com sp) (\<lambda>_. Ret st)
      else bnd (kill_pids com sp fuel) (\<lambda>_. Ret (RECOVERY_CHECK_INTERVAL, snd st)))
    else bnd (grow_check_buf sp (snd st)) (\<lambda>bl. bnd (check_leases com sp (snd bl) fuel) (\<lambda>killing.
      Ret (if killing then RECOVERY_CHECK_INTERVAL else fst st, bl))))"

fun check_spaces :: "com_options \<Rightarrow> space list \<Rightarrow> int \<times> int \<times> bool \<Rightarrow> nat \<Rightarrow> (int \<times> int \<times> bool) mio" where
  "check_spaces com [] st fuel = Ret st"
| "check_spaces com (sp # sps) st fuel = bnd (check_space com sp st fuel) (\<lambda>st. check_spaces com sps st fuel)"

section \<open>Commands\<close>

text \<open>The pool of worker threads: the number of an added thread is passed to it.\<close>

definition thread_pool_add_work :: "cmd_args \<Rightarrow> int mio" where
  "thread_pool_add_work ca = Get_shared (\<lambda>sv.
    let po = sv_pool sv; queued = (\<lambda>sv. sv\<lparr>sv_pool := (sv_pool sv)\<lparr>po_work_data := po_work_data (sv_pool sv) @ [ca]\<rparr>\<rparr>)
    in
      if po_quit po \<noteq> 0 then Ret (-1)
      else if po_free_workers po = 0 \<and> po_num_workers po < po_max_workers po
      then Call ''pthread_create worker'' [po_num_workers po] (\<lambda>rv.
        if rv \<noteq> 0 then Ret (-1)
        else Shared (\<lambda>sv. let sv = queued sv in sv\<lparr>sv_pool := (sv_pool sv)\<lparr>po_num_workers := po_num_workers (sv_pool sv) + 1\<rparr>\<rparr>) (\<lambda>_. Ret 0))
      else Shared queued (\<lambda>_. Ret 0))"

text \<open>A worker thread takes the first piece of work until the pool quits; \<open>fuel\<close> bounds its rounds.\<close>

definition take_work :: "server \<Rightarrow> server" where
  "take_work sv = sv\<lparr>sv_pool := (sv_pool sv)\<lparr>po_work_data := tl (po_work_data (sv_pool sv))\<rparr>\<rparr>"

definition add_free_workers :: "int \<Rightarrow> server \<Rightarrow> server" where
  "add_free_workers n sv = sv\<lparr>sv_pool := (sv_pool sv)\<lparr>po_free_workers := po_free_workers (sv_pool sv) + n\<rparr>\<rparr>"

fun thread_pool_worker :: "nat \<Rightarrow> unit mio" where
  "thread_pool_worker 0 = Out_of_fuel"
| "thread_pool_worker (Suc fuel) = Shared (\<lambda>sv. if po_work_data (sv_pool sv) \<noteq> [] then take_work sv else sv) (\<lambda>sv.
    case po_work_data (sv_pool sv) of
      ca # _ \<Rightarrow> Call ''call_cmd_thread'' [uint (h_cmd (ca_header ca)), int (ca_ci_in ca), int (ca_ci_target ca)] (\<lambda>_. thread_pool_worker fuel)
    | [] \<Rightarrow>
        if po_quit (sv_pool sv) \<noteq> 0
        then Shared (\<lambda>sv. sv\<lparr>sv_pool := (sv_pool sv)\<lparr>po_num_workers := po_num_workers (sv_pool sv) - 1\<rparr>\<rparr>) (\<lambda>_. Ret ())
        else Shared (add_free_workers 1) (\<lambda>_. Call ''pthread_cond_wait'' [] (\<lambda>_.
               Shared (add_free_workers (-1)) (\<lambda>_. thread_pool_worker fuel))))"

definition cmd_failed :: "nat \<Rightarrow> sm_header \<Rightarrow> int \<Rightarrow> nat \<Rightarrow> unit mio" where
  "cmd_failed ci_in h rv fuel =
    bnd (client_recv_all ci_in h 0) (\<lambda>_. Get_shared (\<lambda>sv.
      bnd (send_result (c_fd (sv_clients sv ! ci_in)) h rv fuel) (\<lambda>_. client_resume ci_in)))"

definition process_cmd_thread_unregistered :: "nat \<Rightarrow> sm_header \<Rightarrow> nat \<Rightarrow> unit mio" where
  "process_cmd_thread_unregistered ci_in h fuel =
    Call ''malloc'' [] (\<lambda>null.
      if null \<noteq> 0 then cmd_failed ci_in h (- ENOMEM) fuel
      else Shared (set_cl ci_in (\<lambda>c. c\<lparr>c_owner_name := ascii ''cmd'' @ decimal (unat (h_cmd h))\<rparr>)) (\<lambda>_.
        bnd (thread_pool_add_work \<lparr>ca_ci_in = ci_in, ca_ci_target = 0, ca_cl_fd = 0, ca_cl_pid = 0, ca_header = h\<rparr>) (\<lambda>rv.
          if rv < 0 then cmd_failed ci_in h rv fuel else Ret ())))"

abbreviation SM_CMD_ACQUIRE :: u32 where "SM_CMD_ACQUIRE \<equiv> 7"
abbreviation SM_CMD_VERSION :: u32 where "SM_CMD_VERSION \<equiv> 28"

text \<open>The critical section that starts a command for a client.\<close>

definition start_cmd :: "nat \<Rightarrow> sm_header \<Rightarrow> server \<Rightarrow> int \<times> server" where
  "start_cmd ci h sv =
    (let cl = sv_clients sv ! ci
     in
       if c_used cl = 0 \<or> c_pid cl \<le> 0 \<or> c_pid_dead cl \<noteq> 0 \<or> c_need_free cl \<noteq> 0 \<or>
          (c_kill_count cl \<noteq> 0 \<and> h_cmd h = SM_CMD_ACQUIRE) \<or> c_cmd_active cl \<noteq> 0
       then (- EBUSY, sv)
       else (0, set_cl ci (\<lambda>c. c\<lparr>c_cmd_active := sint (h_cmd h)\<rparr>) sv))"

definition target_client :: "nat \<Rightarrow> sm_header \<Rightarrow> server \<Rightarrow> nat option" where
  "target_client ci_in h sv =
    (if h_data2 h = - 1 then Some ci_in
     else find (\<lambda>i. (word_of_int (c_pid (sv_clients sv ! i)) :: u32) = h_data2 h) [0..<length (sv_clients sv)])"

definition process_cmd_thread_registered :: "nat \<Rightarrow> sm_header \<Rightarrow> nat \<Rightarrow> unit mio" where
  "process_cmd_thread_registered ci_in h fuel =
    Call ''malloc'' [] (\<lambda>null.
      if null \<noteq> 0 then cmd_failed ci_in h (- ENOMEM) fuel
      else Shared (\<lambda>sv. case target_client ci_in h sv of None \<Rightarrow> sv | Some ci \<Rightarrow> snd (start_cmd ci h sv)) (\<lambda>sv.
        case target_client ci_in h sv of
          None \<Rightarrow> cmd_failed ci_in h (- ESRCH) fuel
        | Some ci \<Rightarrow>
            if fst (start_cmd ci h sv) < 0 then cmd_failed ci_in h (fst (start_cmd ci h sv)) fuel
            else bnd (thread_pool_add_work \<lparr>ca_ci_in = ci_in, ca_ci_target = ci, ca_cl_fd = c_fd (sv_clients sv ! ci),
                       ca_cl_pid = c_pid (sv_clients sv ! ci), ca_header = h\<rparr>) (\<lambda>rv.
              if rv < 0 then Shared (set_cl ci (\<lambda>c. c\<lparr>c_cmd_active := 0\<rparr>)) (\<lambda>_. cmd_failed ci_in h rv fuel)
              else Ret ())))"

section \<open>Connections\<close>

abbreviation SM_MAGIC_sock :: u32 where "SM_MAGIC_sock \<equiv> 0x04282010"
abbreviation SM_PROTO :: u32 where "SM_PROTO \<equiv> 0x00000001"

datatype cmd_class = Daemon_cmd | Unregistered_cmd | Registered_cmd | Unknown_cmd

definition cmd_kind :: "u32 \<Rightarrow> cmd_class" where
  "cmd_kind cmd =
    (if cmd \<in> {1, 10, 28, 4, 5, 15, 34, 6, 22, 23, 30, 31, 33} then Daemon_cmd
     else if cmd \<in> {2, 16, 3, 11, 14, 13, 12, 18, 19, 20, 21, 24, 25, 26, 29, 32, 35, 40, 36, 37, 38, 39} then Unregistered_cmd
     else if cmd \<in> {7, 8, 9, 27, 17} then Registered_cmd
     else Unknown_cmd)"

definition run_deadfn :: "nat \<Rightarrow> unit mio" where
  "run_deadfn ci = Get_shared (\<lambda>sv.
    case c_deadfn (sv_clients sv ! ci) of
      Client_free_fn \<Rightarrow> client_free ci
    | Client_pid_dead_fn \<Rightarrow> client_pid_dead_main ci
    | Helper_dead_fn \<Rightarrow> helper_dead
    | _ \<Rightarrow> Ret ())"

text \<open>A header is received field by field here; \<open>fuel\<close> bounds the interrupted calls.\<close>

definition recv_fields :: "(sm_header \<Rightarrow> 'a mio) \<Rightarrow> 'a mio" where
  "recv_fields k =
    Call ''h.magic'' [] (\<lambda>magic. Call ''h.version'' [] (\<lambda>version. Call ''h.cmd'' [] (\<lambda>cmd.
    Call ''h.length'' [] (\<lambda>len. Call ''h.data'' [] (\<lambda>data. Call ''h.data2'' [] (\<lambda>data2.
      k \<lparr>h_magic = word_of_int magic, h_version = word_of_int version, h_cmd = word_of_int cmd,
         h_length = word_of_int len, h_data = word_of_int data, h_data2 = word_of_int data2\<rparr>))))))"

definition dispatch_cmd :: "nat \<Rightarrow> sm_header \<Rightarrow> nat \<Rightarrow> unit mio" where
  "dispatch_cmd ci h fuel =
    (case cmd_kind (h_cmd h) of
       Daemon_cmd \<Rightarrow> Call ''call_cmd_daemon'' [int ci, uint (h_cmd h)] (\<lambda>_. Ret ())
     | Unregistered_cmd \<Rightarrow> bnd (client_suspend ci) (\<lambda>rv. if rv < 0 then Ret () else process_cmd_thread_unregistered ci h fuel)
     | Registered_cmd \<Rightarrow> bnd (client_suspend ci) (\<lambda>rv. if rv < 0 then Ret () else process_cmd_thread_registered ci h fuel)
     | Unknown_cmd \<Rightarrow> Ret ())"

fun process_connection_main :: "nat \<Rightarrow> nat \<Rightarrow> unit mio" where
  "process_connection_main ci 0 = Out_of_fuel"
| "process_connection_main ci (Suc fuel) = Get_shared (\<lambda>sv.
    Call ''recv'' [c_fd (sv_clients sv ! ci), 32] (\<lambda>rv.
      if rv = -1 then Call ''errno'' [] (\<lambda>errno. if errno = EINTR then process_connection_main ci fuel else Ret ())
      else if rv = 0 then run_deadfn ci
      else if rv \<noteq> 32 then Ret ()
      else recv_fields (\<lambda>h.
        if h_magic h \<noteq> SM_MAGIC_sock then Ret ()
        else if c_restricted (sv_clients sv ! ci) AND SANLK_RESTRICT_ALL \<noteq> 0 then Ret ()
        else if h_version h \<noteq> 0 \<and> h_cmd h \<noteq> SM_CMD_VERSION \<and> h_version h AND 0xFFFF0000 > SM_PROTO AND 0xFFFF0000 then Ret ()
        else Shared (set_cl ci (\<lambda>c. c\<lparr>c_cmd_last := sint (h_cmd h)\<rparr>)) (\<lambda>_. dispatch_cmd ci h fuel))))"

definition process_listener_main :: "nat \<Rightarrow> unit mio" where
  "process_listener_main ci = Get_shared (\<lambda>sv.
    Call ''accept'' [c_fd (sv_clients sv ! ci)] (\<lambda>fd.
      if fd < 0 then Ret ()
      else Call ''setsockopt'' [fd] (\<lambda>_. bnd (client_add_main fd Process_connection_fn No_fn) (\<lambda>_. Ret ()))))"

section \<open>The loop\<close>

definition run_workfn_main :: "nat \<Rightarrow> nat \<Rightarrow> unit mio" where
  "run_workfn_main ci fuel = Get_shared (\<lambda>sv.
    case c_workfn (sv_clients sv ! ci) of
      Process_connection_fn \<Rightarrow> process_connection_main ci fuel
    | Process_listener_fn \<Rightarrow> process_listener_main ci
    | Process_helper_fn \<Rightarrow> process_helper ci
    | _ \<Rightarrow> Ret ())"

text \<open>
  The events of one client.  The loop looks at the entry of the event descriptor, which follows that of the
  last client, by its descriptor.
\<close>

definition dispatch_events :: "int \<Rightarrow> nat \<Rightarrow> nat \<Rightarrow> unit mio" where
  "dispatch_events efd i fuel = Get_shared (\<lambda>sv.
    if p_fd (sv_pollfd sv ! i) = efd
    then (if (word_of_int (p_revents (sv_pollfd sv ! i)) :: u32) AND 0x1 \<noteq> 0 then Call ''eventfd_read'' [efd] (\<lambda>_. Ret ()) else Ret ())
    else if c_fd (sv_clients sv ! i) < 0 then Ret ()
    else bnd (if (word_of_int (p_revents (sv_pollfd sv ! i)) :: u32) AND 0x1 \<noteq> 0 then run_workfn_main i fuel else Ret ()) (\<lambda>_.
      Get_shared (\<lambda>sv.
        if (word_of_int (p_revents (sv_pollfd sv ! i)) :: u32) AND 0x38 \<noteq> 0 then run_deadfn i else Ret ())))"

text \<open>\<open>client_maxi\<close> is read in each round, as a listener may have added a client.\<close>

fun dispatch_all :: "int \<Rightarrow> nat \<Rightarrow> nat \<Rightarrow> unit mio" where
  "dispatch_all efd i 0 = Out_of_fuel"
| "dispatch_all efd i (Suc fuel) = Get_shared (\<lambda>sv.
    if int i > sv_client_maxi sv + 1 then Ret ()
    else bnd (dispatch_events efd i fuel) (\<lambda>_. dispatch_all efd (i + 1) fuel))"

definition time_diff_ms :: "int \<Rightarrow> int \<Rightarrow> u32" where
  "time_diff_ms begin_us end_us = word_of_int ((end_us - begin_us) div 1000)"

text \<open>The pass over the lockspaces, from the lock of \<open>spaces_mutex\<close> to \<open>rem_resources\<close>: whether the loop ends.\<close>

definition main_check :: "com_options \<Rightarrow> int \<times> bool \<Rightarrow> nat \<Rightarrow> (bool \<times> int \<times> int \<times> bool) mio" where
  "main_check com bl fuel = Get_shared (\<lambda>sv.
    bnd (check_spaces com (dm_spaces (sv_daemon sv)) (STANDARD_CHECK_INTERVAL, bl) fuel) (\<lambda>st.
      Shared (\<lambda>sv. if dm_external_shutdown (sv_daemon sv) = 1 \<and> dm_spaces (sv_daemon sv) \<noteq> []
                   then sv\<lparr>sv_daemon := (sv_daemon sv)\<lparr>dm_external_shutdown := 0\<rparr>\<rparr> else sv) (\<lambda>sv.
        if dm_external_shutdown (sv_daemon sv) \<noteq> 0 \<and> dm_spaces (sv_daemon sv) = [] then Ret (True, st)
        else bnd (in_daemon (free_lockspaces 0)) (\<lambda>_. Call ''rem_resources'' [] (\<lambda>_. Ret (False, st))))))"

fun main_loop_rounds :: "com_options \<Rightarrow> int \<Rightarrow> int \<Rightarrow> int \<Rightarrow> int \<Rightarrow> int \<times> bool \<Rightarrow> nat \<Rightarrow> unit mio" where
  "main_loop_rounds com efd last_check poll_timeout check_interval bl 0 = Out_of_fuel"
| "main_loop_rounds com efd last_check poll_timeout check_interval bl (Suc fuel) =
    Shared (\<lambda>sv. set_poll (nat (sv_client_maxi sv + 1)) (\<lambda>p. p\<lparr>p_fd := efd, p_events := POLL_IN\<rparr>) sv) (\<lambda>sv.
    Call ''poll'' [sv_client_maxi sv + 2, poll_timeout] (\<lambda>rv. Call ''errno'' [] (\<lambda>errno.
      if rv = -1 \<and> errno = EINTR then main_loop_rounds com efd last_check poll_timeout check_interval bl fuel
      else bnd (dispatch_all efd 0 fuel) (\<lambda>_. Call ''gettimeofday'' [] (\<lambda>now.
        let ms = time_diff_ms last_check now
        in
          if ms < word_of_int check_interval
          then main_loop_rounds com efd last_check (sint (word_of_int check_interval - ms)) check_interval bl fuel
          else bnd (main_check com bl fuel) (\<lambda>(stop, check_interval, bl).
            if stop then Ret ()
            else Call ''gettimeofday'' [] (\<lambda>now2.
              let ms = time_diff_ms now now2
              in main_loop_rounds com efd now (if ms < word_of_int check_interval then sint (word_of_int check_interval - ms) else 1)
                   check_interval bl fuel)))))))"

definition main_loop :: "com_options \<Rightarrow> int \<Rightarrow> nat \<Rightarrow> unit mio" where
  "main_loop com efd fuel =
    Call ''gettimeofday'' [] (\<lambda>now.
      bnd (main_loop_rounds com efd now STANDARD_CHECK_INTERVAL STANDARD_CHECK_INTERVAL (0, False) fuel) (\<lambda>_.
        bnd (in_daemon (free_lockspaces 1)) (\<lambda>_. Call ''daemon_shutdown_reply'' [] (\<lambda>_. Ret ()))))"

end
