(* ===== verification/Main_Theorems.thy ===== *)
theory Main_Theorems
  imports Main_Loop Lockspace_Theorems Acquire_Calls Delta_Theorems
begin

text \<open>
  Properties of the main thread: the watchdog of a lockspace is stopped only when no live process uses the
  lockspace, the table of clients stays consistent, the lists of lockspaces keep unique names and disks, and
  dropping the rest of a message ends.
\<close>

section \<open>Programs that send no message\<close>

primrec sends_nothing :: "('st, 'a) io \<Rightarrow> bool" where
  "sends_nothing (Ret x) \<longleftrightarrow> True"
| "sends_nothing Out_of_fuel \<longleftrightarrow> True"
| "sends_nothing (Posix_memalign n k) \<longleftrightarrow> (\<forall>rv b. sends_nothing (k rv b))"
| "sends_nothing (Uninit n k) \<longleftrightarrow> (\<forall>b. sends_nothing (k b))"
| "sends_nothing (Write_iobuf d off b t k) \<longleftrightarrow> (\<forall>rv. sends_nothing (k rv))"
| "sends_nothing (Read_iobuf d off n t k) \<longleftrightarrow> (\<forall>rv b. sends_nothing (k rv b))"
| "sends_nothing (Open_path p k) \<longleftrightarrow> (\<forall>rv. sends_nothing (k rv))"
| "sends_nothing (Monotime k) \<longleftrightarrow> (\<forall>t. sends_nothing (k t))"
| "sends_nothing (Sleep n k) \<longleftrightarrow> sends_nothing k"
| "sends_nothing (Usleep n k) \<longleftrightarrow> sends_nothing k"
| "sends_nothing (Get_rand a b k) \<longleftrightarrow> (\<forall>r. sends_nothing (k r))"
| "sends_nothing (Call c args k) \<longleftrightarrow> c \<noteq> ''send'' \<and> (\<forall>rv. sends_nothing (k rv))"
| "sends_nothing (Shared g k) \<longleftrightarrow> (\<forall>s. sends_nothing (k s))"

lemma sends_nothing_bnd: "sends_nothing m \<Longrightarrow> (\<And>x. sends_nothing (f x)) \<Longrightarrow> sends_nothing (bnd m f)"
  by (induction m) auto

lemma sends_nothing_in_daemon: "sends_nothing m \<Longrightarrow> sends_nothing (in_daemon m)"
  by (induction m) auto

definition is_send :: "'st event \<Rightarrow> bool" where
  "is_send ev = (case ev of E_call c args rv \<Rightarrow> c = ''send'' | _ \<Rightarrow> False)"

lemma is_send_simps [simp]:
  "is_send (E_call c args rv) \<longleftrightarrow> c = ''send''" "\<not> is_send (E_write d off b rv)" "\<not> is_send (E_memalign n rv b)" "\<not> is_send (E_uninit b)"
  "\<not> is_send (E_read d off n rv b)" "\<not> is_send (E_open p rv)" "\<not> is_send (E_time t)" "\<not> is_send (E_sleep n)" "\<not> is_send (E_usleep i)"
  "\<not> is_send (E_rand i)" "\<not> is_send (E_shared s)"
  by (simp_all add: is_send_def)

text \<open>A condition on the sends of a history, which holds of longer histories once it holds.\<close>

definition sends_ok :: "('st event list \<Rightarrow> bool) \<Rightarrow> 'st event list \<Rightarrow> bool" where
  "sends_ok J hist \<longleftrightarrow> each_event (\<lambda>past ev. is_send ev \<longrightarrow> J past) hist"

lemma sends_ok_snoc [simp]: "sends_ok J (hist @ [ev]) \<longleftrightarrow> sends_ok J hist \<and> (is_send ev \<longrightarrow> J hist)"
  by (simp add: sends_ok_def)

lemma sends_ok_Nil [simp]: "sends_ok J []"
  by (simp add: sends_ok_def)

lemma runs_sends_nothing:
  "sends_nothing m \<Longrightarrow> sends_ok J hist \<Longrightarrow> runs (\<lambda>_. sends_ok J) (sends_ok J) m hist"
  by (induction m arbitrary: hist) auto

definition lasting :: "('st event list \<Rightarrow> bool) \<Rightarrow> bool" where
  "lasting J \<longleftrightarrow> (\<forall>hist ev. J hist \<longrightarrow> J (hist @ [ev]))"

lemma runs_justified:
  "lasting J \<Longrightarrow> J hist \<Longrightarrow> sends_ok J hist \<Longrightarrow> runs (\<lambda>_. sends_ok J) (sends_ok J) m hist"
  by (induction m arbitrary: hist) (auto simp: lasting_def)

section \<open>The watchdog of a lockspace in use\<close>

text \<open>
  Every client up to the largest one was looked at and was no live user of the lockspace, and then the
  lockspace was seen without the flag of an external user.
\<close>

definition unused_seen :: "space \<Rightarrow> server event list \<Rightarrow> bool" where
  "unused_seen sp hist \<longleftrightarrow>
    (\<exists>sv0. E_shared sv0 \<in> set hist \<and>
      (\<forall>ci < nat (sv_client_maxi sv0 + 1). \<exists>sv. E_shared sv \<in> set hist \<and>
         \<not> live_user (current_space (sv_daemon sv0) sp) (sv_clients sv ! ci)))"

lemma unused_seen_more: "unused_seen sp hist \<Longrightarrow> unused_seen sp (hist @ evs)"
  unfolding unused_seen_def set_append by blast

lemma lasting_unused: "lasting (unused_seen sp)"
  by (simp add: lasting_def unused_seen_more)

definition looked_at :: "space \<Rightarrow> nat list \<Rightarrow> server event list \<Rightarrow> bool" where
  "looked_at sp cis hist \<longleftrightarrow> (\<forall>ci\<in>set cis. \<exists>sv. E_shared sv \<in> set hist \<and> \<not> live_user sp (sv_clients sv ! ci))"

definition counted :: "(server event list \<Rightarrow> bool) \<Rightarrow> space \<Rightarrow> server event list \<Rightarrow> nat \<times> nat \<Rightarrow> nat list \<Rightarrow> nat \<times> nat \<Rightarrow> server event list \<Rightarrow> bool" where
  "counted J sp hist n cis n' hist' \<longleftrightarrow> sends_ok J hist' \<and> set hist \<subseteq> set hist' \<and> fst n + snd n \<le> fst n' + snd n' \<and>
    (fst n' + snd n' = 0 \<longrightarrow> looked_at sp cis hist')"

lemma counted_step:
  assumes "counted J sp (hist @ [E_shared sv]) n1 cis n' hist'"
    and "n1 = n \<and> \<not> live_user sp (sv_clients sv ! ci) \<or> fst n1 + snd n1 = fst n + snd n + 1"
  shows "counted J sp hist n (ci # cis) n' hist'"
  using assms by (auto simp: counted_def looked_at_def)

lemma runs_count_pids:
  "sends_ok J hist \<Longrightarrow> runs (counted J sp hist n cis) F (count_pids sp n cis) hist"
proof (induction cis arbitrary: n hist)
  case Nil
  then show ?case by (simp add: counted_def looked_at_def)
next
  case (Cons ci cis)
  obtain stuck check where n: "n = (stuck, check)" by (cases n)
  have step: "runs (counted J sp hist n (ci # cis)) F (count_pids sp n1 cis) (hist @ [E_shared sv])"
    if "n1 = n \<and> \<not> live_user sp (sv_clients sv ! ci) \<or> fst n1 + snd n1 = fst n + snd n + 1" for sv n1
    by (rule runs_mono [OF Cons.IH]) (use Cons.prems counted_step that in \<open>auto simp: n\<close>)
  show ?case
    unfolding n count_pids.simps runs.simps Let_def
    by (intro allI) (auto intro!: step simp: n [symmetric], auto simp: n)
qed

lemma counted_unused:
  "counted J (current_space (sv_daemon sv) sp) (hist @ [E_shared sv]) (0, 0) (all_clients sv) (0, 0) hist' \<Longrightarrow> unused_seen sp hist'"
  unfolding unused_seen_def by (rule exI [of _ sv]) (auto simp: counted_def looked_at_def)

lemma runs_pids_verdict:
  assumes "counted J (current_space (sv_daemon sv) sp) (hist @ [E_shared sv]) (0, 0) (all_clients sv) n hist'"
  shows "runs (\<lambda>gone hist'. sends_ok J hist' \<and> (gone \<longrightarrow> unused_seen sp hist')) (sends_ok J)
    (pids_verdict (current_space (sv_daemon sv) sp) n) hist'"
proof -
  have "unused_seen sp hist'" if "n = (0, 0)" using counted_unused assms that by simp
  moreover have "sends_ok J hist'" using assms by (simp add: counted_def)
  ultimately show ?thesis
    unfolding pids_verdict_def by (cases n) (auto simp: runs_bnd on_space_def Let_def unused_seen_more)
qed

lemma runs_all_pids_dead:
  assumes "sends_ok J hist"
  shows "runs (\<lambda>gone hist'. sends_ok J hist' \<and> (gone \<longrightarrow> unused_seen sp hist')) (sends_ok J) (all_pids_dead sp) hist"
  unfolding all_pids_dead_def Let_def runs.simps runs_bnd
  by (intro allI, rule runs_mono [OF runs_count_pids]) (use assms in \<open>auto intro: runs_pids_verdict\<close>)

lemma sends_nothing_helper: "sends_nothing (write_helper fd msg fuel)"
  by (induction fuel) simp_all

lemma sends_nothing_send_helper_kill: "sends_nothing (send_helper_kill ci sig fuel)"
  by (auto simp: send_helper_kill_def close_helper_def Let_def intro!: sends_nothing_bnd sends_nothing_helper)

lemma sends_nothing_kill_pids: "sends_nothing (kill_pids com sp fuel)"
proof -
  have "sends_nothing (kill_pids_loop com sp removed last_success now fuel cis)" for sp removed last_success now cis
    by (induction cis) (auto intro!: sends_nothing_bnd sends_nothing_send_helper_kill)
  then show ?thesis by (simp add: kill_pids_def Let_def)
qed

lemma sends_nothing_check_leases: "sends_nothing (check_leases com sp have_buf fuel)"
proof -
  have "sends_nothing m \<Longrightarrow> sends_nothing (add_host_events i hes m)" for i hes and m :: "unit mio"
    by (induction i hes m rule: add_host_events.induct) auto
  then have "sends_nothing (check_hosts sp buf)" for buf
    by (auto simp: check_hosts_def on_space_def intro!: sends_nothing_bnd split: option.splits prod.splits)
  then show ?thesis
    by (auto simp: check_leases_def on_space_def intro!: sends_nothing_bnd sends_nothing_kill_pids split: prod.splits)
qed



section \<open>The table of clients\<close>

text \<open>
  A free slot is as \<open>client_alloc\<close> left it, apart from its last command; a used one has a connection.  A
  suspended connection is not polled, and a client waits to be freed only while it is suspended and after its
  process is gone.  \<open>efd\<close> may be polled in the slot after the last client.
\<close>

definition slot_ok :: "int \<Rightarrow> int \<Rightarrow> nat \<Rightarrow> client \<Rightarrow> pollfd \<Rightarrow> bool" where
  "slot_ok efd maxi ci c p \<longleftrightarrow>
    (if c_used c = 0 then c = free_slot\<lparr>c_cmd_last := c_cmd_last c\<rparr> \<and> (p_fd p = -1 \<or> p_fd p = efd)
     else c_fd c \<noteq> -1 \<and> int ci \<le> maxi \<and> (p_fd p = -1 \<or> p_fd p = c_fd c \<and> c_suspend c = 0) \<and>
       (c_need_free c \<noteq> 0 \<longrightarrow> c_suspend c \<noteq> 0 \<and> c_pid c = -1))"

definition table_ok :: "int \<Rightarrow> server \<Rightarrow> bool" where
  "table_ok efd sv \<longleftrightarrow> length (sv_clients sv) = SM_CLIENTS \<and> length (sv_pollfd sv) = SM_CLIENTS + 1 \<and>
    (\<forall>ci < SM_CLIENTS. slot_ok efd (sv_client_maxi sv) ci (sv_clients sv ! ci) (sv_pollfd sv ! ci))"

text \<open>
  What the threads do to the table.  A command that registers is received on a connection that is not suspended; a
  worker thread that ends a command has changed the tokens.
\<close>

inductive table_step :: "int \<Rightarrow> server \<Rightarrow> server \<Rightarrow> bool" for efd where
  free: "table_step efd sv (snd (client_freed ci sv))"
| suspend: "table_step efd sv (snd (client_suspended ci sv))"
| resume: "table_step efd sv (snd (snd (client_resumed ci sv)))"
| add: "ci < SM_CLIENTS \<Longrightarrow> c_used (sv_clients sv ! ci) = 0 \<Longrightarrow> fd \<noteq> -1 \<Longrightarrow> table_step efd sv (client_taken ci fd work dead sv)"
| dead: "table_step efd sv (snd (client_marked_dead ci sv))"
| start: "table_step efd sv (snd (start_cmd ci h sv))"
| kill: "table_step efd sv (set_cl ci (\<lambda>c. snd (kill_client sp now c)) sv)"
| mark: "table_step efd sv (set_cl ci (\<lambda>c. if c_used c \<noteq> 0 \<and> c_pid c > 0 then snd (client_using_space c sp) else c) sv)"
| poll: "table_step efd sv (set_poll (nat (sv_client_maxi sv + 1)) (\<lambda>p. p\<lparr>p_fd := efd, p_events := POLL_IN\<rparr>) sv)"
| helper: "table_step efd sv (helper_closed sv)"
| last_cmd: "table_step efd sv (set_cl ci (\<lambda>c. c\<lparr>c_cmd_last := n\<rparr>) sv)"
| register: "c_used (sv_clients sv ! ci) \<noteq> 0 \<Longrightarrow> c_suspend (sv_clients sv ! ci) = 0 \<Longrightarrow> table_step efd sv (client_registered ci pid sv)"
| cmd_done: "c_used (sv_clients sv ! ci) \<noteq> 0 \<Longrightarrow> table_step efd sv (set_cl ci (\<lambda>c. c\<lparr>c_cmd_active := 0, c_tokens := toks\<rparr>) sv)"

lemma set_cl_sel [simp]:
  "sv_pollfd (set_cl ci f sv) = sv_pollfd sv" "sv_client_maxi (set_cl ci f sv) = sv_client_maxi sv"
  "sv_clients (set_cl ci f sv) = (sv_clients sv)[ci := f (sv_clients sv ! ci)]"
  by (simp_all add: set_cl_def)

lemma set_poll_sel [simp]:
  "sv_clients (set_poll ci f sv) = sv_clients sv" "sv_client_maxi (set_poll ci f sv) = sv_client_maxi sv"
  "sv_pollfd (set_poll ci f sv) = (sv_pollfd sv)[ci := f (sv_pollfd sv ! ci)]"
  by (simp_all add: set_poll_def)

lemma table_update:
  assumes "table_ok efd sv"
    and "ci < SM_CLIENTS \<Longrightarrow> slot_ok efd (sv_client_maxi sv) ci (sv_clients sv ! ci) (sv_pollfd sv ! ci) \<Longrightarrow>
      slot_ok efd (sv_client_maxi sv) ci (f (sv_clients sv ! ci)) (g (sv_pollfd sv ! ci))"
  shows "table_ok efd (set_poll ci g (set_cl ci f sv))"
proof -
  have "slot_ok efd (sv_client_maxi sv) i ((sv_clients sv)[ci := f (sv_clients sv ! ci)] ! i) ((sv_pollfd sv)[ci := g (sv_pollfd sv ! ci)] ! i)"
    if "i < SM_CLIENTS" for i
    using assms that by (cases "i = ci") (simp_all add: table_ok_def)
  then show ?thesis using assms(1) by (simp add: table_ok_def)
qed

lemma set_poll_id: "set_poll ci (\<lambda>p. p) sv = sv"
  by (simp add: set_poll_def)

lemma set_cl_id: "set_cl ci (\<lambda>c. c) sv = sv"
  by (simp add: set_cl_def)

lemmas table_update_cl = table_update [where g = "\<lambda>p. p", unfolded set_poll_id]

lemma table_client_freed: "table_ok efd sv \<Longrightarrow> table_ok efd (snd (client_freed ci sv))"
  by (auto simp: client_freed_def Let_def intro!: table_update table_update_cl)
    (auto simp: slot_ok_def ignore_poll_def free_slot_def)

lemma table_client_resumed:
  assumes "table_ok efd sv"
  shows "table_ok efd (snd (snd (client_resumed ci sv)))"
proof -
  let ?c = "sv_clients sv ! ci"
  let ?resumed = "set_cl ci (\<lambda>c. c\<lparr>c_suspend := 0\<rparr>) sv"
  consider "c_used ?c = 0 \<or> c_fd ?c = -1 \<or> c_suspend ?c = 0" | "\<not> ci < SM_CLIENTS"
    | "ci < SM_CLIENTS" "c_used ?c \<noteq> 0" "c_fd ?c \<noteq> -1" "c_suspend ?c \<noteq> 0" by argo
  then show ?thesis
  proof cases
    case 1
    with assms show ?thesis by (auto simp: client_resumed_def)
  next
    case 2
    with assms show ?thesis
      by (auto simp: client_resumed_def client_freed_def Let_def table_ok_def list_update_beyond)
  next
    case 3
    then have slot: "slot_ok efd (sv_client_maxi sv) ci ?c (sv_pollfd sv ! ci)" "length (sv_clients sv) = SM_CLIENTS"
      using assms by (auto simp: table_ok_def)
    have eq: "set_poll ci (\<lambda>p. (ignore_poll p)\<lparr>p_revents := 0\<rparr>) (set_cl ci (\<lambda>c. free_slot\<lparr>c_cmd_last := c_cmd_last c\<rparr>) ?resumed) =
        set_poll ci (\<lambda>p. (ignore_poll p)\<lparr>p_revents := 0\<rparr>) (set_cl ci (\<lambda>c. free_slot\<lparr>c_cmd_last := c_cmd_last c\<rparr>) sv)"
      using 3 slot(2) by (simp add: set_cl_def)
    have r: "sv_clients ?resumed ! ci = ?c\<lparr>c_suspend := 0\<rparr>" using 3 slot(2) by simp
    show ?thesis
    proof (cases "c_need_free ?c = 0")
      case True
      have "table_ok efd (set_poll ci (\<lambda>p. p\<lparr>p_fd := c_fd ?c, p_events := POLL_IN\<rparr>) ?resumed)"
        using 3 slot(1) True by (intro table_update assms) (auto simp: slot_ok_def)
      then show ?thesis using 3 True by (simp add: client_resumed_def Let_def del: set_cl_sel set_poll_sel)
    next
      case False
      then have "client_freed ci ?resumed = (True, set_poll ci (\<lambda>p. (ignore_poll p)\<lparr>p_revents := 0\<rparr>)
          (set_cl ci (\<lambda>c. free_slot\<lparr>c_cmd_last := c_cmd_last c\<rparr>) ?resumed))"
        using 3 slot(1) unfolding client_freed_def Let_def r by (simp add: slot_ok_def)
      moreover have "table_ok efd (set_poll ci (\<lambda>p. (ignore_poll p)\<lparr>p_revents := 0\<rparr>) (set_cl ci (\<lambda>c. free_slot\<lparr>c_cmd_last := c_cmd_last c\<rparr>) sv))"
        by (intro table_update assms) (simp add: slot_ok_def ignore_poll_def free_slot_def)
      ultimately show ?thesis using 3 False by (simp add: client_resumed_def Let_def eq del: set_cl_sel set_poll_sel)
    qed
  qed
qed

lemma table_client_taken:
  assumes "table_ok efd sv" and "ci < SM_CLIENTS" and "c_used (sv_clients sv ! ci) = 0" and "fd \<noteq> -1"
  shows "table_ok efd (client_taken ci fd work dead sv)"
proof -
  let ?sv = "client_taken ci fd work dead sv"
  have sel: "sv_clients ?sv = (sv_clients sv)[ci := (sv_clients sv ! ci)\<lparr>c_used := 1, c_fd := fd, c_workfn := work,
        c_deadfn := (if dead = No_fn then Client_free_fn else dead)\<rparr>]"
      "sv_pollfd ?sv = (sv_pollfd sv)[ci := (sv_pollfd sv ! ci)\<lparr>p_fd := fd, p_events := POLL_IN\<rparr>]"
      "sv_client_maxi ?sv = max (sv_client_maxi sv) (int ci)"
    by (simp_all add: client_taken_def Let_def)
  have len: "length (sv_clients sv) = SM_CLIENTS" "length (sv_pollfd sv) = SM_CLIENTS + 1" using assms(1) by (simp_all add: table_ok_def)
  have "slot_ok efd (sv_client_maxi ?sv) i (sv_clients ?sv ! i) (sv_pollfd ?sv ! i)" if "i < SM_CLIENTS" for i
  proof -
    have slot: "slot_ok efd (sv_client_maxi sv) i (sv_clients sv ! i) (sv_pollfd sv ! i)" using assms(1) that by (simp add: table_ok_def)
    show ?thesis
    proof (cases "i = ci")
      case True
      then have "c_need_free (sv_clients sv ! ci) = 0" "c_suspend (sv_clients sv ! ci) = 0"
        using slot assms(3) by (auto simp: slot_ok_def free_slot_def dest: arg_cong [where f = c_need_free] arg_cong [where f = c_suspend])
      then show ?thesis using True that len assms(4) unfolding sel by (simp add: slot_ok_def)
    next
      case False
      then show ?thesis using slot unfolding sel by (auto simp: slot_ok_def)
    qed
  qed
  then show ?thesis using len by (simp add: table_ok_def sel)
qed

lemma slot_tokens: "slot_ok efd m ci c p \<Longrightarrow> c_used c \<noteq> 0 \<Longrightarrow> slot_ok efd m ci (c\<lparr>c_tokens := t\<rparr>) p"
  by (simp add: slot_ok_def)

lemma slot_last_cmd: "slot_ok efd m ci c p \<Longrightarrow> slot_ok efd m ci (c\<lparr>c_cmd_last := n\<rparr>) p"
  by (cases c) (auto simp: slot_ok_def free_slot_def)

lemma table_client_suspended: "table_ok efd sv \<Longrightarrow> table_ok efd (snd (client_suspended ci sv))"
  by (auto simp: client_suspended_def Let_def intro!: table_update) (auto simp: slot_ok_def ignore_poll_def)

lemma table_client_marked_dead: "table_ok efd sv \<Longrightarrow> table_ok efd (snd (client_marked_dead ci sv))"
  by (auto simp: client_marked_dead_def Let_def intro!: table_update) (auto simp: slot_ok_def ignore_poll_def)

lemma table_start_cmd: "table_ok efd sv \<Longrightarrow> table_ok efd (snd (start_cmd ci h sv))"
  by (auto simp: start_cmd_def Let_def intro!: table_update_cl) (auto simp: slot_ok_def)

lemma table_kill: "table_ok efd sv \<Longrightarrow> table_ok efd (set_cl ci (\<lambda>c. snd (kill_client sp now c)) sv)"
  by (rule table_update_cl) (auto simp: kill_client_def client_using_space_def slot_ok_def)

lemma table_poll:
  assumes "table_ok efd sv"
  shows "table_ok efd (set_poll (nat (sv_client_maxi sv + 1)) (\<lambda>p. p\<lparr>p_fd := efd, p_events := POLL_IN\<rparr>) sv)"
proof -
  let ?ci = "nat (sv_client_maxi sv + 1)"
  have "table_ok efd (set_poll ?ci (\<lambda>p. p\<lparr>p_fd := efd, p_events := POLL_IN\<rparr>) (set_cl ?ci (\<lambda>c. c) sv))"
    using assms by (intro table_update) (auto simp: slot_ok_def split: if_splits)
  then show ?thesis by (simp add: set_cl_id)
qed

lemma table_helper: "table_ok efd sv \<Longrightarrow> table_ok efd (helper_closed sv)"
proof -
  assume ok: "table_ok efd sv"
  have "table_ok efd (set_poll ci ignore_poll (set_cl ci (\<lambda>c. c) sv))" for ci
    using ok by (intro table_update) (auto simp: slot_ok_def ignore_poll_def split: if_splits)
  then have "table_ok efd (set_poll ci ignore_poll sv)" for ci by (simp add: set_cl_id)
  then show ?thesis using ok by (simp add: helper_closed_def Let_def table_ok_def)
qed

lemma table_ok_step: "table_step efd sv sv' \<Longrightarrow> table_ok efd sv \<Longrightarrow> table_ok efd sv'"
proof (induction rule: table_step.induct)
  case (mark sv ci sp)
  then show ?case by (rule table_update_cl) (auto simp: client_using_space_def slot_tokens)
next
  case (last_cmd sv ci n)
  then show ?case by (rule table_update_cl) (rule slot_last_cmd)
next
  case (register sv ci pid)
  then show ?case unfolding client_registered_def by (intro table_update_cl) (auto simp: slot_ok_def)
next
  case (cmd_done sv ci toks)
  then show ?case by (intro table_update_cl) (auto simp: slot_ok_def)
qed (simp_all add: table_client_freed table_client_suspended table_client_resumed table_client_taken table_client_marked_dead
    table_start_cmd table_kill table_poll table_helper)

text \<open>The table after \<open>client_alloc\<close>.\<close>

definition table_new :: "server \<Rightarrow> bool" where
  "table_new sv \<longleftrightarrow> sv_clients sv = replicate SM_CLIENTS free_slot \<and>
    sv_pollfd sv = replicate (SM_CLIENTS + 1) \<lparr>p_fd = -1, p_events = 0, p_revents = 0\<rparr>"

interpretation client_table: transition_invariant table_new "table_step efd" "table_ok efd" for efd
proof
  show "table_new sv \<Longrightarrow> table_ok efd sv" for sv
    by (simp add: table_new_def table_ok_def slot_ok_def nth_append free_slot_def)
qed (rule table_ok_step)


text \<open>
  C13: From the allocated table on, whatever the main thread and the workers do to the clients, in any order: a
  slot that is not in use is clean and not polled, a client in use has its connection and lies within
  \<open>client_maxi\<close>, a suspended connection is not polled, and a client waits to be freed only while it is suspended
  and without a process.
\<close>

theorem client_table_type:
  assumes "reach table_new (table_step efd) sv"
  shows "table_ok efd sv"
  using assms by (rule client_table.reach_inv)

definition sample_server :: server where
  "sample_server = \<lparr>sv_daemon = \<lparr>dm_com = default_com, dm_spaces = [], dm_spaces_rem = [], dm_spaces_add = [],
       dm_external_shutdown = 0, dm_space_id_counter = 1\<rparr>,
     sv_clients = replicate SM_CLIENTS free_slot,
     sv_pollfd = replicate (SM_CLIENTS + 1) \<lparr>p_fd = -1, p_events = 0, p_revents = 0\<rparr>,
     sv_client_maxi = 0,
     sv_pool = \<lparr>po_num_workers = 2, po_max_workers = 8, po_free_workers = 2, po_quit = 0, po_work_data = []\<rparr>,
     sv_helper_kill_fd = -1, sv_helper_status_fd = -1, sv_helper_ci = -1, sv_helper_pid = -1, sv_helper_full_count = 0,
     sv_helper_last_status = 0\<rparr>"

theorem client_table_type_witness:
  "table_ok 9 (snd (client_suspended 3 (client_taken 3 7 Process_connection_fn No_fn sample_server)))"
proof -
  have "reach table_new (table_step 9) sample_server"
    by (rule reach.init) (simp add: table_new_def sample_server_def)
  then have "reach table_new (table_step 9) (client_taken 3 7 Process_connection_fn No_fn sample_server)"
    by (rule reach.step) (rule table_step.add, simp_all add: sample_server_def free_slot_def)
  then have "reach table_new (table_step 9) (snd (client_suspended 3 (client_taken 3 7 Process_connection_fn No_fn sample_server)))"
    by (rule reach.step) (rule table_step.suspend)
  then show ?thesis by (rule client_table_type)
qed

section \<open>Dropping a message\<close>

definition recv_count :: "'st event list \<Rightarrow> nat" where
  "recv_count hist = length (filter (\<lambda>ev. case ev of E_call c args rv \<Rightarrow> c = ''recv'' | _ \<Rightarrow> False) hist)"

lemma recv_count_simps [simp]: "recv_count [] = 0" "recv_count (hist @ hist') = recv_count hist + recv_count hist'"
  "recv_count (E_call c args rv # hist) = (if c = ''recv'' then 1 else 0) + recv_count hist"
  "recv_count (E_usleep n # hist) = recv_count hist" "recv_count (E_shared s # hist) = recv_count hist"
  by (simp_all add: recv_count_def)

lemma runs_client_recv_loop:
  "runs (\<lambda>_ hist'. recv_count hist' \<le> recv_count hist + nat (rem - got) + (20 - retries) + 1) (\<lambda>_. False)
    (client_recv_loop fd rem got retries) hist"
proof (induction fd rem got retries arbitrary: hist rule: client_recv_loop.induct)
  case (1 fd rem got retries)
  show ?case
    unfolding client_recv_loop.simps [of fd rem got retries]
    by (auto intro!: runs_mono [OF 1(1) [simplified]] runs_mono [OF 1(2)])
qed

text \<open>
  C19: Dropping the rest of a message always ends, whatever \<open>recv\<close> returns and however often it is interrupted: it
  calls \<open>recv\<close> at most once for each byte that is left, and 21 times more.
\<close>

theorem client_recv_all_ends:
  "runs (\<lambda>_ hist. recv_count hist \<le> nat (sint (h_length h - 32 - word_of_int pos)) + 21) (\<lambda>_. False)
    (client_recv_all ci h pos) []"
  by (auto simp: client_recv_all_def Let_def intro!: runs_mono [OF runs_client_recv_loop])

section \<open>The lists as the daemon changes them\<close>

text \<open>
  The critical sections that change the lists: \<open>add_lockspace_start\<close> queues a lockspace, \<open>add_lockspace_wait\<close>
  starts it or drops it, the main loop moves it to the list of removed ones and \<open>free_lockspaces\<close> drops it; all
  others change the lockspaces with one id in place.
\<close>

inductive spaces_step :: "daemon \<Rightarrow> daemon \<Rightarrow> bool" where
  add_step: "add_space sp dm = (rv, sp', dm') \<Longrightarrow> spaces_step dm dm'"
| start_step: "has_space dm sp \<Longrightarrow> spaces_step dm (start_space sp dm)"
| remove_step: "has_space dm sp \<Longrightarrow> spaces_step dm (move_space_rem sp dm)"
| del_step: "spaces_step dm (del_space sp dm)"
| mark_step: "rem_lockspace_start ls dm = (rv, i, dm') \<Longrightarrow> spaces_step dm dm'"
| begin_step: "lockspace_begin_rindex_op name op dm = (rv, spi, dm') \<Longrightarrow> spaces_step dm dm'"
| clear_step: "lockspace_clear_rindex_op name dm = (rv, dm') \<Longrightarrow> spaces_step dm dm'"
| change_step: "keeps_spaces i f dm \<Longrightarrow> spaces_step dm (map_space i f dm)"


lemma unique_move: "unique_spaces dm \<Longrightarrow> has_space dm sp \<Longrightarrow> unique_spaces (move_space_rem sp dm)"
  using unique_del [of dm sp] moved_apart [of dm sp]
  by (auto simp: move_space_rem_def Let_def unique_spaces_def all_spaces_def apart_append list_all_iff clash_sym)

lemma keeps_spacesI: "(\<And>s. keeps_space s (f s)) \<Longrightarrow> keeps_spaces i f dm"
  by (simp add: keeps_spaces_def)

lemma unique_spaces_step: "spaces_step dm dm' \<Longrightarrow> unique_spaces dm \<Longrightarrow> unique_spaces dm'"
proof (induction rule: spaces_step.induct)
  case (add_step sp dm rv sp' dm')
  show ?case
  proof (cases "rv = 0")
    case True
    with add_step show ?thesis using unique_add by blast
  next
    case False
    with add_step show ?thesis by (auto simp: add_space_def Let_def simp del: search_space.simps not_None_eq split: if_splits)
  qed
next
  case (mark_step ls dm rv i dm')
  have "keeps_spaces j (\<lambda>s. s\<lparr>sp_external_remove := True\<rparr>) dm" for j
    by (rule keeps_spacesI) (simp add: keeps_space_def same_area_def)
  with mark_step show ?case by (auto simp: rem_lockspace_start_def unique_map split: option.splits if_splits)
next
  case (begin_step name op dm rv spi dm')
  then show ?case
    by (auto simp: lockspace_begin_rindex_op_def unique_map keeps_spacesI keeps_rindex_op split: option.splits if_splits)
next
  case (clear_step name dm rv dm')
  then show ?case by (auto simp: lockspace_clear_rindex_op_def unique_map keeps_spacesI keeps_rindex_op split: option.splits)
qed (simp_all add: unique_start unique_move unique_del unique_map)

definition no_spaces :: "daemon \<Rightarrow> bool" where
  "no_spaces dm \<longleftrightarrow> all_spaces dm = []"

lemma unique_none: "no_spaces dm \<Longrightarrow> unique_spaces dm"
  by (simp add: no_spaces_def unique_spaces_def)

interpretation lockspaces: transition_invariant no_spaces spaces_step unique_spaces
  by unfold_locales (auto intro: unique_none unique_spaces_step)

text \<open>
  C14: From the empty lists of a started daemon on, whatever clients add, remove and change, and whatever the main
  loop and the threads of the lockspaces do: no two lockspaces, in whichever of the three lists they are, have
  the same name or the same place on disk.
\<close>

theorem lockspaces_stay_apart:
  assumes "reach no_spaces spaces_step dm"
    and "i < length (all_spaces dm)" and "j < length (all_spaces dm)" and "i \<noteq> j"
  shows "\<not> strneq NAME_ID_SIZE (sp_space_name (all_spaces dm ! i)) (sp_space_name (all_spaces dm ! j)) \<and>
    \<not> same_area (all_spaces dm ! i) (all_spaces dm ! j)"
  using lockspaces.reach_inv [OF assms(1)] apart_nth [OF _ assms(2-4)] by (auto simp: unique_spaces_def clash_def)

definition sample_one :: space where
  "sample_one = new_space default_com \<lparr>lsp_name = ascii ''LS1'', lsp_host_id = 1, lsp_flags = 0,
     lsp_host_id_disk = \<lparr>sd_path = ''/dev/vg/ls1'', sd_offset = 0, sd_sector_size = 0, sd_fd = -1\<rparr>\<rparr> 10 False"

definition sample_two :: space where
  "sample_two = new_space default_com \<lparr>lsp_name = ascii ''LS2'', lsp_host_id = 1, lsp_flags = 0,
     lsp_host_id_disk = \<lparr>sd_path = ''/dev/vg/ls2'', sd_offset = 0, sd_sector_size = 0, sd_fd = -1\<rparr>\<rparr> 10 False"

theorem lockspaces_stay_apart_witness:
  "let dm1 = snd (snd (add_space sample_one (sv_daemon sample_server))); dm2 = snd (snd (add_space sample_two dm1))
   in length (all_spaces dm2) = 2 \<and> \<not> same_area (all_spaces dm2 ! 0) (all_spaces dm2 ! 1)"
proof -
  let ?dm = "sv_daemon sample_server"
  let ?dm1 = "snd (snd (add_space sample_one ?dm))"
  let ?dm2 = "snd (snd (add_space sample_two ?dm1))"
  have r: "reach no_spaces spaces_step ?dm" by (rule reach.init) (simp add: no_spaces_def sample_server_def all_spaces_def)
  have step: "spaces_step dm (snd (snd (add_space sp dm)))" for sp dm
    by (rule spaces_step.add_step [of sp dm "fst (add_space sp dm)" "fst (snd (add_space sp dm))"]) simp
  have "reach no_spaces spaces_step ?dm1" using r by (rule reach.step) (rule step)
  then have r2: "reach no_spaces spaces_step ?dm2" by (rule reach.step) (rule step)
  have "strneq NAME_ID_SIZE (ascii ''LS1'') (ascii ''LS2'') = False" by code_simp
  then have "length (all_spaces ?dm2) = 2"
    by (simp add: add_space_def sample_server_def sample_one_def sample_two_def new_space_def all_spaces_def space_matches_def Let_def)
  then show ?thesis using lockspaces_stay_apart [OF r2, of 0 1] by (simp add: Let_def)
qed

text \<open>
  C20: At most one operation on a resource index runs in a lockspace: while one is marked, the start of another
  fails with \<open>EBUSY\<close> and changes nothing.  Once the mark is cleared, the next operation can start.
\<close>

theorem rindex_op_exclusive:
  assumes "lockspace_begin_rindex_op name op dm = (0, spi, dm')" and "op \<noteq> 0"
  shows "lockspace_begin_rindex_op name op' dm' = (- EBUSY, None, dm') \<and>
    (\<exists>dm''. lockspace_clear_rindex_op name dm' = (0, dm'') \<and> (\<exists>dm3. lockspace_begin_rindex_op name op' dm'' = (0, spi, dm3)))"
  using begin_twice [OF assms] by blast

theorem rindex_op_exclusive_witness:
  "let dm = (sv_daemon sample_server)\<lparr>dm_spaces := [sample_one]\<rparr>; dm' = snd (snd (lockspace_begin_rindex_op (ascii ''LS1'') 4 dm))
   in lockspace_begin_rindex_op (ascii ''LS1'') 5 dm' = (- EBUSY, None, dm')"
proof -
  let ?dm = "(sv_daemon sample_server)\<lparr>dm_spaces := [sample_one]\<rparr>"
  let ?b = "lockspace_begin_rindex_op (ascii ''LS1'') 4 ?dm"
  have "fst ?b = 0"
    by (simp add: lockspace_begin_rindex_op_def find_started_def space_matches_def sample_one_def new_space_def)
  then obtain spi dm' where b: "?b = (0, spi, dm')" by (metis prod.collapse)
  then show ?thesis using rindex_op_exclusive [OF b, of 5] by (simp add: Let_def)
qed

section \<open>A second registration\<close>

text \<open>
  C23: After a registration the main loop does not see the process use any lockspace, and does not kill it when one
  fails.  This also holds for a process that registers a second time and had been seen to use the lockspace, as
  the witness has it: its leases are forgotten.
\<close>

theorem register_forgets_tokens:
  assumes "ci < length (sv_clients sv)"
  shows "\<not> live_user sp (sv_clients (client_registered ci pid sv) ! ci) \<and>
    \<not> fst (kill_client sp now (sv_clients (client_registered ci pid sv) ! ci))"
  using assms by (auto simp: client_registered_def set_cl_def live_user_def client_using_space_def kill_client_def list_ex_iff)

definition sample_held :: held_token where
  "sample_held = \<lparr>tk_host_id = 1, tk_host_generation = 1, tk_io_timeout = 10, tk_flags = 0, tk_sector_size = 512, tk_align_size = 1048576,
     tk_shared_count = 0, tk_shared_bitmap = [], tk_disks = [],
     tk_r = \<lparr>r_lockspace_name = ascii ''LS1'', r_name = ascii ''R1'', r_lver = 0, r_data64 = 0, r_data32 = 0, r_flags = 0\<rparr>, tk_space_dead = 0\<rparr>"

theorem register_forgets_tokens_witness:
  "let sv = set_cl 0 (\<lambda>c. c\<lparr>c_used := 1, c_pid := 7, c_tokens := [Some sample_held]\<rparr>) sample_server
   in live_user sample_one (sv_clients sv ! 0) \<and> \<not> live_user sample_one (sv_clients (client_registered 0 7 sv) ! 0)"
proof -
  let ?sv = "set_cl 0 (\<lambda>c. c\<lparr>c_used := 1, c_pid := 7, c_tokens := [Some sample_held]\<rparr>) sample_server"
  have "0 < length (sv_clients ?sv)" "live_user sample_one (sv_clients ?sv ! 0)"
    by (simp_all add: set_cl_def sample_server_def live_user_def client_using_space_def token_in_space_def sample_held_def sample_one_def new_space_def)
  then show ?thesis using register_forgets_tokens [of 0 ?sv sample_one 7] by (simp add: Let_def)
qed

end
