(* ===== verification/Spec2Isabelle.thy ===== *)
theory Spec2Isabelle
  imports Lease_Theorems Ballot_Theorems Delta_Runs Watchdog_Theorems Rindex_Theorems Main_Theorems
begin

text \<open>
  Verification of sanlock, a daemon that gives the hosts of a cluster exclusive access to resources by
  leases on shared disks.

  \<^bold>\<open>The program.\<close>  A lockspace is an area of a shared disk with one \<^emph>\<open>delta lease\<close> per host id
  (\<open>src/delta_lease.c\<close>): a leader record in the sector of the host id, which the owner renews by
  writing a new timestamp.  A resource lease (\<open>src/paxos_lease.c\<close>) is an area on one or more disks with a
  leader record, a request record and one block per host; its owner is chosen by ballots of Disk Paxos over
  the host blocks, and a host may take it over when the delta lease of its owner is free, has another owner or
  has not been renewed for the host dead time.  The lockspace code (\<open>src/lockspace.c\<close>) has a thread per
  lockspace that acquires and renews the delta lease of the host and records when each host was last seen
  alive, and the time constants (\<open>src/timeouts.c\<close>) relate renewals, the watchdog and the host dead time.
  After each renewal the thread (\<open>src/watchdog.c\<close>) tells the watchdog daemon (\<open>wdmd/main.c\<close>) until when the
  lease is good; the daemon stops pinging the watchdog device before a client expires, so that a host that
  cannot renew is reset before another host takes its leases.  The main loop (\<open>src/main.c\<close>) serves the clients,
  passes their commands to worker threads, and kills the processes that use a lockspace that failed or is
  removed; when they are gone it lets the watchdog daemon forget the lockspace.  A resource index
  (\<open>src/rindex.c\<close>) records the names and places of resource leases on a disk.  Everything on disk is
  little-endian and checksummed (\<open>src/ondisk.c\<close>, \<open>src/crc32c.c\<close>), the sizes of sectors and areas are
  flags (\<open>src/sizeflags.c\<close>).

  \<^bold>\<open>The theories of the model.\<close>

  \<^item> \<open>Prelude\<close>: words and bytes, error numbers, little-endian fields, slices of buffers, C strings, and
    the locales \<open>transition_invariant\<close> and \<open>simulation\<close> of reachability proofs.
  \<^item> \<open>Crc32c\<close>: \<open>crc32c.c\<close>, its table and the bit-serial CRC it implements.
  \<^item> \<open>Ondisk\<close>: \<open>ondisk.c\<close> and the structures it converts; the locale \<open>disk_struct\<close> is the contract of a
    structure on disk and is interpreted by all six of them.
  \<^item> \<open>Sizeflags\<close>: \<open>sizeflags.c\<close>; the locale \<open>size_flags\<close> is interpreted by each pair of conversions.
  \<^item> \<open>Timeouts\<close>: \<open>timeouts.c\<close>.
  \<^item> \<open>Diskio\<close>: \<open>diskio.c\<close> from the sector operations upwards.  Code that leaves the program (device I/O,
    allocation, clock, sleep, random numbers, state shared with other threads) is a tree of calls, with a
    semantics for all environments (\<open>wp\<close>, over histories of calls) and one for a single environment
    (\<open>exec\<close>).  The locales \<open>byte_store\<close> and \<open>quorum_system\<close> are the contracts of disks and of majorities.
  \<^item> \<open>Lockspace\<close>: lookup, host status, bitmaps, \<open>check_other_leases\<close> and \<open>check_our_lease\<close> of
    \<open>lockspace.c\<close>.
  \<^item> \<open>Lockspace_Ops\<close>, \<open>Lockspace_Thread\<close>: the rest of \<open>lockspace.c\<close> (adding, removing and freeing lockspaces,
    host events, configuration, inquiries; the renewal thread) and \<open>watchdog.c\<close>.  The lists of lockspaces are
    state shared with other threads: a function that takes a mutex is one \<open>Shared\<close> step on the daemon.
  \<^item> \<open>Wdmd_Client\<close>, \<open>Wdmd\<close>: \<open>wdmd/client.c\<close>, and \<open>wdmd/main.c\<close> with its clients, scripts, device and loop.
  \<^item> \<open>Delta_Lease\<close>: every operation of \<open>delta_lease.c\<close>.
  \<^item> \<open>Paxos_Lease\<close>, \<open>Paxos_Leader\<close>, \<open>Paxos_Acquire\<close>: \<open>paxos_lease.c\<close>, in the order of the file: blocks and
    \<open>run_ballot\<close>; leader records, release, initialisation; \<open>paxos_lease_acquire\<close>.
  \<^item> \<open>Rindex\<close>: every operation of \<open>rindex.c\<close>.
  \<^item> \<open>Main_Loop\<close>: \<open>main.c\<close> from the client table to the loop, and the registration of a client (\<open>cmd.c\<close>).  The
    tables are state shared with the worker threads; a critical section of a client is one \<open>Shared\<close> step.

  A C structure is a record with the fields the modelled functions use; an output parameter is an argument
  with its previous contents and a component of the result; \<open>goto\<close> and loops are recursive functions.

  \<^bold>\<open>The theories of the proofs.\<close>

  \<^item> \<open>Histories\<close>, \<open>Delta_Theorems\<close>: what delta lease operations write, under every behaviour of the disk:
    a held lease is only overwritten after the host dead time, a lease reported as acquired was read back,
    a renewal keeps the owner.
  \<^item> \<open>Delta_Runs\<close>: with working devices, initialisation, acquire, renew and release succeed and leave the
    other hosts' sectors alone.
  \<^item> \<open>Ballot_Spec\<close>: an abstract ballot machine over blocks and quorums, with its invariant, agreement and
    validity.
  \<^item> \<open>Ballot_Blocks\<close>, \<open>Ballot_System\<close>: the blocks as bytes of sectors, and the system of hosts that run the
    very code of \<open>run_ballot\<close> on shared disks, with sector-wise interleaved reads, failing device operations
    and crashes.
  \<^item> \<open>Ballot_Sim\<close>, \<open>Ballot_Refine\<close>: \<open>run_ballot\<close> follows the abstract machine, and a forward simulation of
    the system by the machine (the interpretation \<open>ballot_code\<close> of the locale \<open>simulation\<close>).
  \<^item> \<open>Ballot_Solo\<close>, \<open>Ballot_Theorems\<close>: an undisturbed ballot succeeds; the properties of ballots.

  \<^item> \<open>Acquire_Calls\<close>, \<open>Acquire_Theorems\<close>, \<open>Lease_Theorems\<close>: the calls that \<open>paxos_lease_acquire\<close> and
    \<open>paxos_lease_release\<close> make in any run, finished or not (\<open>runs\<close>, \<open>adds\<close>), and when they may write.
  \<^item> \<open>Wdmd_Theorems\<close>: a host with its watchdog device, as a step relation over messages, hang-ups, test rounds
    and seconds; its invariant, and that a host with an expired client is reset.
  \<^item> \<open>Watchdog_Theorems\<close>: what the lockspace thread tells the watchdog daemon, and that a host is reset before
    another one may overwrite its delta lease.
  \<^item> \<open>Lockspace_Theorems\<close>: lookups in the lists of lockspaces, their names and places are distinct, and marks of
    index operations.
  \<^item> \<open>Rindex_Theorems\<close>: the index as a list of entries, operations in an environment that works (\<open>yields\<close>),
    the round trip of an update and a lookup, and where offsets overflow.
  \<^item> \<open>Main_Theorems\<close>: when the watchdog stops, the invariant of the client table (\<open>client_table\<close>) and of the lists
    of lockspaces (\<open>lockspaces\<close>), both instances of \<open>transition_invariant\<close>, the end of \<open>client_recv_all\<close>, and what a
    second registration does.

  \<^bold>\<open>Bounds and fuel.\<close>  The loops that the code does not bound (the jumps of \<open>paxos_lease_acquire\<close>, the
  renewal loop, the loops of the watchdog daemon and of the main loop, waiting for a lockspace, repeated sends)
  take one unit of fuel per round and end in \<open>Out_of_fuel\<close>, of which \<open>wp\<close> says nothing; \<open>runs\<close> speaks of the calls made until
  then.  A run that divides by zero or follows a null pointer ends in
  \<open>Out_of_fuel\<close> too.  Everything else terminates by structural recursion or, as \<open>client_recv_loop\<close>, by a measure.  Ballots assume at most 2000 hosts, the limit of the code, and
  sectors of 512 or 4096 bytes, the only sizes it accepts.

  \<^bold>\<open>Not modelled.\<close>  The kernel interfaces of device I/O (\<open>libaio\<close>, \<open>O_DIRECT\<close>, sysfs), logging, sockets,
  threads and processes are calls with any outcome.  So are the functions of \<open>resource.c\<close> that other components
  call, and the commands of the daemon (\<open>cmd.c\<close>) other than the registration.  The set-up of the daemon process,
  option parsing and the client and direct commands of the tool (the rest of \<open>main.c\<close>), the token and resource
  lists of \<open>resource.c\<close>, the client library, the reset daemon, the fence agent and the Python bindings are not
  modelled: they parse and print text, marshal messages, or rest on the interfaces above.
\<close>

end
